(* ===== verification/Din_Prelude.thy ===== *)
theory Din_Prelude
  imports Main "HOL-Library.Word" "HOL-Library.Multiset"
begin

text \<open>
  The vocabulary the component theories share: Go strings and byte slices, Go errors with
  their wrapping, the 64-bit integers, times and durations, the pieces of the packages
  \<^verbatim>\<open>strings\<close>, \<^verbatim>\<open>unicode/utf8\<close> and \<^verbatim>\<open>fmt\<close> the program uses, and the generic lemmas about
  lists the component proofs rest on.

  A Go string or byte slice is a \<open>char list\<close>: an Isabelle character is one byte, so
  \<open>length\<close> is Go's \<open>len\<close>. A \<^verbatim>\<open>time.Time\<close> is the number of nanoseconds since Go's zero time
  (January 1, year 1, UTC), so the zero value is \<open>0\<close>; a \<^verbatim>\<open>time.Duration\<close> is a number of
  nanoseconds. A Go \<^verbatim>\<open>error\<close> that is not nil is a \<open>go_error\<close>: the sentinels \<^verbatim>\<open>errors.Is\<close>
  and \<^verbatim>\<open>errors.As\<close> find along its tree of wrapped errors, and its text.
\<close>

section \<open>Bytes, times, durations\<close>

type_synonym bytes = "char list"
type_synonym go_time = int
type_synonym duration = int

named_theorems err_simps \<open>how the error constructors act on chains\<close>
named_theorems str_simps \<open>string primitives\<close>

definition nanosecond :: duration where "nanosecond = 1"
definition millisecond :: duration where "millisecond = 1000000"
definition second :: duration where "second = 1000 * millisecond"
definition minute :: duration where "minute = 60 * second"
definition hour :: duration where "hour = 60 * minute"

lemmas duration_defs = nanosecond_def millisecond_def second_def minute_def hour_def

text \<open>Two's complement 64-bit wrap-around: Go's \<^verbatim>\<open>int\<close> and \<^verbatim>\<open>int64\<close> on the target platforms.\<close>

definition wrap64 :: "int \<Rightarrow> int" where
  "wrap64 x = (x + 2 ^ 63) mod 2 ^ 64 - 2 ^ 63"

definition in_int64 :: "int \<Rightarrow> bool" where
  "in_int64 x \<longleftrightarrow> - (2 ^ 63) \<le> x \<and> x < 2 ^ 63"

lemma wrap64_id: "in_int64 x \<Longrightarrow> wrap64 x = x"
  by (simp add: wrap64_def in_int64_def)

lemma wrap64_range: "in_int64 (wrap64 x)"
proof -
  have "0 \<le> (x + 2 ^ 63) mod 2 ^ 64" and "(x + 2 ^ 63) mod 2 ^ 64 < 2 ^ 64"
    by simp_all
  then show ?thesis by (simp add: wrap64_def in_int64_def)
qed

text \<open>Go's integer division truncates towards zero.\<close>

definition quot :: "int \<Rightarrow> int \<Rightarrow> int" where
  "quot a b = sgn a * sgn b * (\<bar>a\<bar> div \<bar>b\<bar>)"

lemma quot_nonneg: "0 \<le> a \<Longrightarrow> 0 < b \<Longrightarrow> quot a b = a div b"
  by (cases "a = 0") (simp_all add: quot_def)

text \<open>\<^verbatim>\<open>Time.Sub\<close> saturates at the ends of the duration range.\<close>

definition time_sub :: "go_time \<Rightarrow> go_time \<Rightarrow> duration" where
  "time_sub t u = max (- (2 ^ 63)) (min (2 ^ 63 - 1) (t - u))"

lemma time_sub_ge_iff:
  "- (2 ^ 63) < d \<Longrightarrow> d \<le> 2 ^ 63 - 1 \<Longrightarrow> d \<le> time_sub t u \<longleftrightarrow> d \<le> t - u"
  by (auto simp: time_sub_def)

text \<open>\<^verbatim>\<open>int64(d.Seconds())\<close>: whole seconds of a duration, truncated towards zero.\<close>

definition whole_seconds :: "duration \<Rightarrow> int" where
  "whole_seconds d = quot d second"

section \<open>Errors\<close>

datatype sentinel =
    ErrValidation | ErrUnavailable | ErrPayloadTooLarge | ErrPoisonRow | ErrInvalidVIN
  | ErrInvalidEthAddr | ErrMaxPayload | MaxBytesError | CtxCanceled | CtxDeadlineExceeded
  | ErrFutureTimestamp | ErrLatLongMismatch | ConversionError | RuntimePanic | ErrNotExist | ErrServerClosed

record go_error =
  err_chain :: "sentinel list"
  err_text :: string

type_synonym 'a result = "go_error + 'a"

definition errors_is :: "go_error \<Rightarrow> sentinel \<Rightarrow> bool" where
  "errors_is e s \<longleftrightarrow> s \<in> set (err_chain e)"

fun sentinel_text :: "sentinel \<Rightarrow> string" where
  "sentinel_text ErrValidation = ''validation error''"
| "sentinel_text ErrUnavailable = ''jetstream publish not acknowledged''"
| "sentinel_text ErrPayloadTooLarge = ''event exceeds max NATS payload''"
| "sentinel_text ErrPoisonRow = ''poison row''"
| "sentinel_text ErrInvalidVIN = ''invalid VIN''"
| "sentinel_text ErrInvalidEthAddr = ''ethereum address not set in claim''"
| "sentinel_text ErrMaxPayload = ''nats: maximum payload exceeded''"
| "sentinel_text MaxBytesError = ''http: request body too large''"
| "sentinel_text CtxCanceled = ''context canceled''"
| "sentinel_text CtxDeadlineExceeded = ''context deadline exceeded''"
| "sentinel_text ErrFutureTimestamp = ''future timestamp''"
| "sentinel_text ErrLatLongMismatch = ''latitude and longitude mismatch''"
| "sentinel_text ConversionError = ''conversion error''"
| "sentinel_text RuntimePanic = ''runtime error''"
| "sentinel_text ErrNotExist = ''file does not exist''"
| "sentinel_text ErrServerClosed = ''http: Server closed''"

text \<open>A Go panic is an error value that carries \<open>RuntimePanic\<close>: a caller that models a function
  which can panic returns it at once, as the unwinding does.\<close>

text \<open>\<open>sentinel_error s\<close> is the sentinel itself, \<open>errors_new\<close> a fresh error with no sentinel,
  \<open>errorf p e q\<close> is \<^verbatim>\<open>fmt.Errorf\<close> with text \<open>p\<close>, one \<^verbatim>\<open>%w\<close> and text \<open>q\<close>, \<open>errorf2\<close> the form
  with two \<^verbatim>\<open>%w\<close> verbs.\<close>

definition sentinel_error :: "sentinel \<Rightarrow> go_error" where
  "sentinel_error s = \<lparr>err_chain = [s], err_text = sentinel_text s\<rparr>"

definition errors_new :: "string \<Rightarrow> go_error" where
  "errors_new m = \<lparr>err_chain = [], err_text = m\<rparr>"

definition errorf :: "string \<Rightarrow> go_error \<Rightarrow> string \<Rightarrow> go_error" where
  "errorf p e q = \<lparr>err_chain = err_chain e, err_text = p @ err_text e @ q\<rparr>"

definition errorf2 :: "string \<Rightarrow> go_error \<Rightarrow> string \<Rightarrow> go_error \<Rightarrow> string \<Rightarrow> go_error" where
  "errorf2 p e q f r =
     \<lparr>err_chain = err_chain e @ err_chain f, err_text = p @ err_text e @ q @ err_text f @ r\<rparr>"

text \<open>\<^verbatim>\<open>errors.Join\<close> drops nil errors and is nil when all are.\<close>

fun errors_join :: "go_error option \<Rightarrow> go_error option \<Rightarrow> go_error option" where
  "errors_join None f = f"
| "errors_join (Some e) None = Some e"
| "errors_join (Some e) (Some f) =
     Some \<lparr>err_chain = err_chain e @ err_chain f,
           err_text = err_text e @ [CHR 0x0A] @ err_text f\<rparr>"

lemma errors_is_sentinel_error [err_simps, simp]: "errors_is (sentinel_error s) t \<longleftrightarrow> t = s"
  by (simp add: errors_is_def sentinel_error_def)

lemma errors_is_errors_new [err_simps, simp]: "\<not> errors_is (errors_new m) t"
  by (simp add: errors_is_def errors_new_def)

lemma errors_is_errorf [err_simps, simp]: "errors_is (errorf p e q) t \<longleftrightarrow> errors_is e t"
  by (simp add: errors_is_def errorf_def)

lemma errors_is_errorf2 [err_simps, simp]:
  "errors_is (errorf2 p e q f r) t \<longleftrightarrow> errors_is e t \<or> errors_is f t"
  by (simp add: errors_is_def errorf2_def)

lemma errors_join_None_iff [err_simps, simp]: "errors_join e f = None \<longleftrightarrow> e = None \<and> f = None"
  by (cases e; cases f) simp_all

lemma errors_join_is:
  "errors_join e f = Some g \<Longrightarrow>
     errors_is g t \<longleftrightarrow> (\<exists>a. e = Some a \<and> errors_is a t) \<or> (\<exists>b. f = Some b \<and> errors_is b t)"
  by (cases e; cases f) (auto simp: errors_is_def)

section \<open>Strings\<close>

abbreviation ch :: "nat \<Rightarrow> char" where "ch n \<equiv> char_of n"

definition has_prefix :: "string \<Rightarrow> string \<Rightarrow> bool" where
  "has_prefix s p \<longleftrightarrow> take (length p) s = p"

text \<open>\<^verbatim>\<open>strings.TrimSpace\<close>, on ASCII space.\<close>

definition is_space :: "char \<Rightarrow> bool" where
  "is_space c \<longleftrightarrow> of_char c \<in> {9, 10, 11, 12, 13, 32 :: nat}"

definition trim_space :: "string \<Rightarrow> string" where
  "trim_space s = rev (dropWhile is_space (rev (dropWhile is_space s)))"

definition has_suffix :: "string \<Rightarrow> string \<Rightarrow> bool" where
  "has_suffix s p \<longleftrightarrow> length p \<le> length s \<and> drop (length s - length p) s = p"

fun contains :: "string \<Rightarrow> string \<Rightarrow> bool" where
  "contains [] p = (p = [])"
| "contains (c # s) p = (has_prefix (c # s) p \<or> contains s p)"

lemma has_prefix_append [str_simps, simp]: "has_prefix (p @ s) p"
  by (simp add: has_prefix_def)

lemma has_prefixE: "has_prefix s p \<Longrightarrow> (\<And>r. s = p @ r \<Longrightarrow> P) \<Longrightarrow> P"
  by (metis append_take_drop_id has_prefix_def)

lemma has_prefix_iff: "has_prefix s p \<longleftrightarrow> (\<exists>r. s = p @ r)"
  by (metis append_take_drop_id has_prefix_append has_prefix_def)

lemma contains_append: "contains (a @ p @ b) p"
proof (induction a)
  case Nil
  show ?case by (cases "p @ b") (simp, metis append_Nil contains.simps(2) has_prefix_append)
qed simp

lemma contains_iff: "contains s p \<longleftrightarrow> (\<exists>a b. s = a @ p @ b)"
proof
  assume "contains s p"
  then show "\<exists>a b. s = a @ p @ b"
  proof (induction s)
    case (Cons c s)
    then show ?case by (metis append_Cons append_Nil contains.simps(2) has_prefix_iff)
  qed simp
qed (auto simp: contains_append)

text \<open>\<open>split_on c s\<close> are the tokens of \<open>s\<close> between the separators \<open>c\<close>.\<close>

fun split_on :: "char \<Rightarrow> string \<Rightarrow> string list" where
  "split_on c [] = [[]]"
| "split_on c (x # xs) =
     (if x = c then [] # split_on c xs
      else (case split_on c xs of t # ts \<Rightarrow> (x # t) # ts | [] \<Rightarrow> [[x]]))"

lemma split_on_nonempty [simp]: "split_on c s \<noteq> []"
  by (induction s) (auto split: list.splits)

lemma split_on_no_sep: "c \<notin> set s \<Longrightarrow> split_on c s = [s]"
  by (induction s) auto

lemma split_on_append_sep [str_simps]:
  "c \<notin> set s \<Longrightarrow> split_on c (s @ c # r) = s # split_on c r"
  by (induction s) auto

text \<open>Decimal printing: the verbs \<^verbatim>\<open>%d\<close> and \<^verbatim>\<open>%03d\<close> on numbers that are not negative.\<close>

definition digit :: "nat \<Rightarrow> char" where "digit d = ch (48 + d)"

fun show_nat :: "nat \<Rightarrow> string" where
  "show_nat n = (if n < 10 then [digit n] else show_nat (n div 10) @ [digit (n mod 10)])"

declare show_nat.simps [simp del]

definition show_int :: "int \<Rightarrow> string" where
  "show_int i = (if i < 0 then ''-'' @ show_nat (nat (- i)) else show_nat (nat i))"

definition pad0 :: "nat \<Rightarrow> string \<Rightarrow> string" where
  "pad0 w s = replicate (w - length s) (CHR ''0'') @ s"

definition read_nat :: "string \<Rightarrow> nat" where
  "read_nat s = foldl (\<lambda>acc c. 10 * acc + (of_char c - 48)) 0 s"

lemma of_char_digit [simp]: "d < 10 \<Longrightarrow> of_char (digit d) = 48 + d"
  by (simp add: digit_def)

lemma digit_range: "d < 10 \<Longrightarrow> c = digit d \<Longrightarrow> 48 \<le> (of_char c :: nat) \<and> of_char c \<le> (57 :: nat)"
  by simp

lemma read_show_nat: "read_nat (show_nat n) = n"
proof (induction n rule: show_nat.induct)
  case (1 n)
  show ?case
  proof (cases "n < 10")
    case True
    then show ?thesis by (simp add: show_nat.simps [of n] read_nat_def)
  next
    case False
    with 1 have "read_nat (show_nat (n div 10)) = n div 10" by simp
    with False show ?thesis by (simp add: show_nat.simps [of n] read_nat_def)
  qed
qed

lemma read_nat_replicate0: "read_nat (replicate k (CHR ''0'') @ s) = read_nat s"
  by (induction k) (simp_all add: read_nat_def)

lemma read_pad0: "read_nat (pad0 w (show_nat n)) = n"
  by (simp add: pad0_def read_nat_replicate0 read_show_nat)

lemma pad0_show_nat_inj [simp]: "pad0 w (show_nat m) = pad0 w (show_nat n) \<longleftrightarrow> m = n"
  by (metis read_pad0)

lemma show_nat_digits:
  "c \<in> set (show_nat n) \<Longrightarrow> 48 \<le> (of_char c :: nat) \<and> of_char c \<le> (57 :: nat)"
proof (induction n rule: show_nat.induct)
  case (1 n)
  show ?case
  proof (cases "n < 10")
    case True
    with 1 show ?thesis by (simp add: show_nat.simps [of n])
  next
    case False
    with "1.prems" have "c \<in> set (show_nat (n div 10)) \<or> c = digit (n mod 10)"
      by (simp add: show_nat.simps [of n] insert_commute disj_commute)
    with "1.IH" False show ?thesis by auto
  qed
qed

lemma pad0_digits:
  "c \<in> set (pad0 w (show_nat n)) \<Longrightarrow> 48 \<le> (of_char c :: nat) \<and> of_char c \<le> (57 :: nat)"
  by (auto simp: pad0_def dest: show_nat_digits)

lemma show_nat_no_dot: "CHR ''.'' \<notin> set (pad0 w (show_nat n))"
  using pad0_digits [of "CHR ''.''" w n] by auto

text \<open>The verb \<^verbatim>\<open>%q\<close>: exact on ASCII; a byte of a multi-byte rune is copied.\<close>

definition hex_digit :: "nat \<Rightarrow> char" where
  "hex_digit d = (if d < 10 then ch (48 + d) else ch (87 + d))"

definition quote_char :: "char \<Rightarrow> string" where
  "quote_char c =
     (let n = (of_char c :: nat) in
      if n = 0x22 then [ch 0x5C, ch 0x22] else if n = 0x5C then [ch 0x5C, ch 0x5C]
      else if n = 7 then [ch 0x5C, CHR ''a''] else if n = 8 then [ch 0x5C, CHR ''b'']
      else if n = 9 then [ch 0x5C, CHR ''t''] else if n = 10 then [ch 0x5C, CHR ''n'']
      else if n = 11 then [ch 0x5C, CHR ''v''] else if n = 12 then [ch 0x5C, CHR ''f'']
      else if n = 13 then [ch 0x5C, CHR ''r'']
      else if n < 0x20 \<or> n = 0x7F
        then [ch 0x5C, CHR ''x'', hex_digit (n div 16), hex_digit (n mod 16)]
      else [c])"

definition fmt_q :: "string \<Rightarrow> string" where
  "fmt_q s = [ch 0x22] @ concat (map quote_char s) @ [ch 0x22]"

section \<open>UTF-8 runes\<close>

text \<open>\<^verbatim>\<open>utf8.DecodeRuneInString\<close> on a string that is not empty: the rune and its width, the
  error rune 0xFFFD with width 1 on an invalid encoding.\<close>

definition cont :: "nat \<Rightarrow> bool" where "cont b \<longleftrightarrow> 0x80 \<le> b \<and> b \<le> 0xBF"

definition rune_error :: nat where "rune_error = 0xFFFD"

definition second_lo :: "nat \<Rightarrow> nat" where
  "second_lo b = (if b = 0xE0 then 0xA0 else if b = 0xF0 then 0x90 else 0x80)"

definition second_hi :: "nat \<Rightarrow> nat" where
  "second_hi b = (if b = 0xED then 0x9F else if b = 0xF4 then 0x8F else 0xBF)"

fun decode_rune :: "nat list \<Rightarrow> nat \<times> nat" where
  "decode_rune [] = (rune_error, 0)"
| "decode_rune (b0 # bs) =
    (if b0 < 0x80 then (b0, 1)
     else case bs of
       [] \<Rightarrow> (rune_error, 1)
     | b1 # bs1 \<Rightarrow>
        if b1 < second_lo b0 \<or> second_hi b0 < b1 then (rune_error, 1)
        else if 0xC2 \<le> b0 \<and> b0 \<le> 0xDF then ((b0 - 0xC0) * 64 + (b1 - 0x80), 2)
        else case bs1 of
          [] \<Rightarrow> (rune_error, 1)
        | b2 # bs2 \<Rightarrow>
           if \<not> cont b2 then (rune_error, 1)
           else if 0xE0 \<le> b0 \<and> b0 \<le> 0xEF
             then ((b0 - 0xE0) * 4096 + (b1 - 0x80) * 64 + (b2 - 0x80), 3)
           else case bs2 of
             [] \<Rightarrow> (rune_error, 1)
           | b3 # _ \<Rightarrow>
              if cont b3 \<and> 0xF0 \<le> b0 \<and> b0 \<le> 0xF4
              then ((b0 - 0xF0) * 262144 + (b1 - 0x80) * 4096 + (b2 - 0x80) * 64 + (b3 - 0x80), 4)
              else (rune_error, 1))"

lemma decode_rune_width: "bs \<noteq> [] \<Longrightarrow> 0 < snd (decode_rune bs)"
  by (cases bs rule: decode_rune.cases) (auto split: list.splits)

function runes_of :: "nat list \<Rightarrow> nat list" where
  "runes_of [] = []"
| "runes_of (b # bs) =
     fst (decode_rune (b # bs)) # runes_of (drop (snd (decode_rune (b # bs))) (b # bs))"
  by pat_completeness auto
termination
proof (relation "measure length")
  fix b and bs :: "nat list"
  have "0 < snd (decode_rune (b # bs))" by (rule decode_rune_width) simp
  then show "(drop (snd (decode_rune (b # bs))) (b # bs), b # bs) \<in> measure length"
    by simp
qed simp

text \<open>The runes a Go \<^verbatim>\<open>range\<close> loop or \<^verbatim>\<open>strings.Map\<close> visits.\<close>

definition runes :: "string \<Rightarrow> nat list" where
  "runes s = runes_of (map of_char s)"

definition ascii :: "string \<Rightarrow> bool" where
  "ascii s \<longleftrightarrow> (\<forall>c\<in>set s. (of_char c :: nat) < 0x80)"

lemma runes_of_ascii: "(\<forall>b\<in>set bs. b < 0x80) \<Longrightarrow> runes_of bs = bs"
  by (induction bs) auto

lemma runes_ascii: "ascii s \<Longrightarrow> runes s = map of_char s"
  by (auto simp: runes_def ascii_def intro!: runes_of_ascii)

lemma runes_Nil_iff [simp]: "runes s = [] \<longleftrightarrow> s = []"
  by (cases s) (auto simp: runes_def)

section \<open>Lists\<close>

text \<open>The first error among the outcomes of a list of operations, in order.\<close>

fun first_some :: "'a option list \<Rightarrow> 'a option" where
  "first_some [] = None"
| "first_some (None # xs) = first_some xs"
| "first_some (Some x # xs) = Some x"

lemma first_some_single [simp]: "first_some [x] = x"
  by (cases x) simp_all

lemma first_some_None_iff: "first_some xs = None \<longleftrightarrow> (\<forall>x\<in>set xs. x = None)"
  by (induction xs rule: first_some.induct) auto

lemma first_some_Some_iff:
  "first_some xs = Some e \<longleftrightarrow>
     (\<exists>i < length xs. xs ! i = Some e \<and> (\<forall>j < i. xs ! j = None))"
proof (induction xs rule: first_some.induct)
  case (2 xs)
  show ?case
  proof
    assume "first_some (None # xs) = Some e"
    with 2 obtain i where "i < length xs" "xs ! i = Some e" "\<forall>j<i. xs ! j = None" by auto
    then show "\<exists>i<length (None # xs). (None # xs) ! i = Some e \<and> (\<forall>j<i. (None # xs) ! j = None)"
      by (intro exI [of _ "Suc i"]) (auto simp: nth_Cons split: nat.splits)
  next
    assume "\<exists>i<length (None # xs). (None # xs) ! i = Some e \<and> (\<forall>j<i. (None # xs) ! j = None)"
    then obtain i where i: "i < length (None # xs)" "(None # xs) ! i = Some e"
      "\<forall>j<i. (None # xs) ! j = None" by blast
    then obtain k where k: "i = Suc k" by (cases i) auto
    with i have "\<forall>j<k. xs ! j = None" by force
    with i k 2 show "first_some (None # xs) = Some e" by auto
  qed
next
  case (3 x xs)
  have "x = e" if "i < length (Some x # xs)" "(Some x # xs) ! i = Some e"
    "\<forall>j<i. (Some x # xs) ! j = None" for i
    using that by (cases i) auto
  then show ?case by (auto intro: exI [of _ 0])
qed simp

end
