(* ===== verification/CloudEvent.thy ===== *)
theory CloudEvent
  imports Din_Prelude
begin

text \<open>
  The CloudEvent data the program passes around, and the functions of the packages
  \<^verbatim>\<open>cloudevent\<close> and \<^verbatim>\<open>model-garage\<close> it calls. Those packages are not part of the repository:
  the records \<open>ce_lib\<close> and \<open>garage_lib\<close> carry their functions as parameters, and what a
  theorem relies on of them is a hypothesis of that theorem.
\<close>

section \<open>Events\<close>

text \<open>\<^verbatim>\<open>cloudevent.CloudEventHeader\<close>: the fields the program reads or writes. \<^verbatim>\<open>Extras\<close> and the
  rest of the header travel as an opaque JSON object.\<close>

record ce_header =
  hSpecVersion :: string
  hType :: string
  hSource :: string
  hSubject :: string
  hID :: string
  hTime :: go_time
  hDataContentType :: string
  hDataSchema :: string
  hDataVersion :: string
  hProducer :: string
  hSignature :: string
  hTags :: "string list"
  hExtras :: "(string \<times> string) list"

text \<open>\<^verbatim>\<open>cloudevent.RawEvent\<close> embeds the header; \<^verbatim>\<open>cloudevent.StoredEvent\<close> embeds a raw event.\<close>

record raw_event =
  Header :: ce_header
  Data :: bytes
  DataBase64 :: string

record stored_event =
  RawEvent :: raw_event
  DataIndexKey :: string
  VoidsID :: string

definition zero_header :: ce_header where
  "zero_header = \<lparr>hSpecVersion = [], hType = [], hSource = [], hSubject = [], hID = [],
     hTime = 0, hDataContentType = [], hDataSchema = [], hDataVersion = [], hProducer = [],
     hSignature = [], hTags = [], hExtras = []\<rparr>"

abbreviation ev_header :: "stored_event \<Rightarrow> ce_header" where
  "ev_header ev \<equiv> Header (RawEvent ev)"

section \<open>The libraries as parameters\<close>

type_synonym address = bytes

record erc721_did =
  ChainID :: nat
  ContractAddress :: address
  TokenID :: string

record ce_lib =
  TypeStatus :: string
  TypeFingerprint :: string
  TypeEvents :: string
  TypeSignals :: string
  TypeRawStatus :: string
  TypeAttestation :: string
  TypeAttestationTombstone :: string
  HeaderKey :: "ce_header \<Rightarrow> string"
  HeaderJSON :: "ce_header \<Rightarrow> bytes result"
  MarshalEvent :: "raw_event \<Rightarrow> bytes result"
  UnmarshalEvent :: "bytes \<Rightarrow> raw_event result"
  DecodeERC721DID :: "string \<Rightarrow> erc721_did result"
  DecodeLegacyNFTDID :: "string \<Rightarrow> erc721_did result"
  DecodeEthrDID :: "string \<Rightarrow> string result"
  ERC721String :: "erc721_did \<Rightarrow> string"
  BytesForSignature :: "raw_event \<Rightarrow> bytes"
  NonColumnExtras :: "ce_header \<Rightarrow> (string \<times> string) list option"
  MarshalExtras :: "(string \<times> string) list \<Rightarrow> bytes result"
  IsHexAddress :: "string \<Rightarrow> bool"
  HexToAddress :: "string \<Rightarrow> address"
  AddressHex :: "address \<Rightarrow> string"
  FormatHeader :: "ce_header \<Rightarrow> string"
  FormatTime :: "go_time \<Rightarrow> string"

text \<open>\<^verbatim>\<open>FormatHeader\<close> and \<^verbatim>\<open>FormatTime\<close> are the texts of the verbs \<^verbatim>\<open>%+v\<close> and \<^verbatim>\<open>%v\<close> in error messages:
  they print parts of a header and of a time the model leaves out.\<close>

text \<open>The functions of \<^verbatim>\<open>model-garage\<close> and of the package \<^verbatim>\<open>vin\<close> the ingest path calls.\<close>

record garage_lib =
  ConvertToCloudEvents :: "string \<Rightarrow> bytes \<Rightarrow> (ce_header list \<times> bytes) result"
  ConvertToFingerprint :: "string \<Rightarrow> raw_event \<Rightarrow> string result"
  IsValidVIN :: "string \<Rightarrow> bool"
  IsValidJapanChassis :: "string \<Rightarrow> bool"

text \<open>Decoding what encoding wrote gives the event back: the documented round trip of the
  library's custom JSON methods.\<close>

definition json_roundtrip :: "ce_lib \<Rightarrow> bool" where
  "json_roundtrip L \<longleftrightarrow> (\<forall>ev b. MarshalEvent L ev = Inr b \<longrightarrow> UnmarshalEvent L b = Inr ev)"

end
