(* ===== verification/Subjects.thy ===== *)
theory Subjects
  imports CloudEvent
begin

text \<open>
  \<^verbatim>\<open>internal/stream/subjects.go\<close>: the NATS subjects of the write-ahead log, its partitions and
  the deduplication id. \<^verbatim>\<open>Partition\<close> is computed at its widths: the 32-bit FNV-1a hash and
  the conversion of the partition count to \<^verbatim>\<open>uint32\<close>; a zero modulus is a panic of the Go
  code and the value \<open>None\<close> here.
\<close>

unbundle bit_operations_syntax

section \<open>Definitions\<close>

definition StreamName :: string where "StreamName = ''INGEST_RAW''"
definition SubjectRoot :: string where "SubjectRoot = ''in.raw''"
definition SubjectWildcard :: string where "SubjectWildcard = SubjectRoot @ ''.>''"

text \<open>The runes that are kept, and \<^verbatim>\<open>sanitizeToken\<close>: every other rune, whatever its width,
  becomes one hyphen.\<close>

definition token_rune :: "nat \<Rightarrow> bool" where
  "token_rune r \<longleftrightarrow> (97 \<le> r \<and> r \<le> 122) \<or> (65 \<le> r \<and> r \<le> 90) \<or> (48 \<le> r \<and> r \<le> 57)
     \<or> r = 58 \<or> r = 95 \<or> r = 61 \<or> r = 45"

definition sanitizeToken :: "string \<Rightarrow> string" where
  "sanitizeToken s =
     (if s = [] then ''-''
      else map (\<lambda>r. if token_rune r then ch r else CHR ''-'') (runes s))"

definition typeToken :: "string \<Rightarrow> string" where
  "typeToken ceType =
     sanitizeToken (map (\<lambda>c. if c = CHR ''.'' then CHR ''_'' else c) ceType)"

text \<open>\<^verbatim>\<open>fnv.New32a\<close>, \<^verbatim>\<open>Write\<close>, \<^verbatim>\<open>Sum32\<close>.\<close>

definition fnv32a :: "bytes \<Rightarrow> 32 word" where
  "fnv32a s = fold (\<lambda>c h. (h XOR word_of_nat (of_char c)) * 16777619) s 2166136261"

definition Partition :: "string \<Rightarrow> int \<Rightarrow> nat option" where
  "Partition ceSubject partitions =
     (if partitions \<le> 1 then Some 0
      else let m = (word_of_int partitions :: 32 word)
           in if m = 0 then None else Some (unat (fnv32a ceSubject mod m)))"

definition fmt_p03d :: "nat \<Rightarrow> string" where
  "fmt_p03d i = pad0 3 (show_nat i)"

definition Subject :: "ce_header \<Rightarrow> int \<Rightarrow> string option" where
  "Subject hdr partitions =
     (let base = SubjectRoot @ ''.'' @ typeToken (hType hdr) @ ''.'' @ sanitizeToken (hSubject hdr)
      in if partitions \<le> 1 then Some base
         else map_option (\<lambda>p. base @ ''.p'' @ fmt_p03d p) (Partition (hSubject hdr) partitions))"

definition StreamNameFor :: "nat \<Rightarrow> int \<Rightarrow> string" where
  "StreamNameFor i n = (if n \<le> 1 then StreamName else StreamName @ ''_P'' @ fmt_p03d i)"

definition partitionSubjects :: "nat \<Rightarrow> int \<Rightarrow> string list" where
  "partitionSubjects i n =
     (if n \<le> 1 then [SubjectWildcard] else [SubjectRoot @ ''.*.*.p'' @ fmt_p03d i])"

definition SubjectFilterForType :: "string \<Rightarrow> string" where
  "SubjectFilterForType ceType = SubjectRoot @ ''.'' @ typeToken ceType @ ''.>''"

text \<open>\<^verbatim>\<open>MsgID\<close>: the lower-case hexadecimal SHA-256 of the header's key. The digest function is
  a parameter.\<close>

definition hex_encode :: "bytes \<Rightarrow> string" where
  "hex_encode bs = concat (map (\<lambda>c. [hex_digit (of_char c div 16), hex_digit (of_char c mod 16)]) bs)"

definition MsgID :: "(bytes \<Rightarrow> bytes) \<Rightarrow> ce_lib \<Rightarrow> ce_header \<Rightarrow> string" where
  "MsgID sha256 L hdr = hex_encode (sha256 (HeaderKey L hdr))"

section \<open>Tokens\<close>

definition token_char :: "char \<Rightarrow> bool" where
  "token_char c \<longleftrightarrow> token_rune (of_char c)"

lemma token_rune_ch: "token_rune r \<Longrightarrow> token_char (ch r)"
  by (auto simp: token_char_def token_rune_def)

lemma token_char_hyphen: "token_char (CHR ''-'')"
  by (simp add: token_char_def token_rune_def)

lemma sanitizeToken_chars: "c \<in> set (sanitizeToken s) \<Longrightarrow> token_char c"
  by (auto simp: sanitizeToken_def token_rune_ch token_char_hyphen split: if_splits)

lemma sanitizeToken_nonempty: "sanitizeToken s \<noteq> []"
  by (simp add: sanitizeToken_def)

lemma token_char_not_special:
  "token_char c \<Longrightarrow> c \<noteq> CHR ''.'' \<and> c \<noteq> CHR ''*'' \<and> c \<noteq> CHR ''>'' \<and> c \<noteq> CHR '' ''"
  by (auto simp: token_char_def token_rune_def)

lemma sanitizeToken_no_dot [simp]: "CHR ''.'' \<notin> set (sanitizeToken s)"
  using sanitizeToken_chars token_char_not_special by blast

lemma typeToken_no_dot [simp]: "CHR ''.'' \<notin> set (typeToken s)"
  by (simp add: typeToken_def)

lemma token_char_ascii: "token_char c \<Longrightarrow> (of_char c :: nat) < 0x80"
  by (auto simp: token_char_def token_rune_def)

lemma sanitizeToken_id: "s \<noteq> [] \<Longrightarrow> (\<And>c. c \<in> set s \<Longrightarrow> token_char c) \<Longrightarrow> sanitizeToken s = s"
proof -
  assume s: "s \<noteq> []" and tc: "\<And>c. c \<in> set s \<Longrightarrow> token_char c"
  from tc have "ascii s" by (simp add: ascii_def token_char_ascii)
  then have "sanitizeToken s = map (\<lambda>c. if token_char c then c else CHR ''-'') s"
    using s by (simp add: sanitizeToken_def runes_ascii token_char_def)
  also have "\<dots> = s" using tc by (simp add: map_idI)
  finally show ?thesis .
qed

lemma sanitizeToken_idem: "sanitizeToken (sanitizeToken s) = sanitizeToken s"
  by (rule sanitizeToken_id) (auto simp: sanitizeToken_nonempty intro: sanitizeToken_chars)

lemma fmt_p03d_inj [simp]: "fmt_p03d i = fmt_p03d j \<longleftrightarrow> i = j"
  by (simp add: fmt_p03d_def)

lemma fmt_p03d_no_dot [simp]: "CHR ''.'' \<notin> set (fmt_p03d i)"
  by (simp add: fmt_p03d_def show_nat_no_dot)

section \<open>Partitions\<close>

lemma uint32_of_small: "1 < n \<Longrightarrow> n < 2 ^ 32 \<Longrightarrow> unat (word_of_int n :: 32 word) = nat n"
  by (simp add: unat_eq_nat_uint uint_word_of_int)

lemma Partition_small:
  assumes "1 < n" "n < 2 ^ 32"
  shows "Partition s n = Some (unat (fnv32a s) mod nat n)"
proof -
  let ?m = "word_of_int n :: 32 word"
  have u: "unat ?m = nat n" using assms by (rule uint32_of_small)
  with assms have "?m \<noteq> 0" by (metis nat_0_iff not_less unat_0 zero_less_one order_less_trans)
  then show ?thesis using assms u by (simp add: Partition_def unat_mod)
qed

lemma Partition_bound: "1 \<le> n \<Longrightarrow> n < 2 ^ 32 \<Longrightarrow> \<exists>p. Partition s n = Some p \<and> p < nat n"
proof (cases "n = 1")
  case False
  assume "1 \<le> n" "n < 2 ^ 32"
  with False show ?thesis using Partition_small [of n s] by simp
qed (simp add: Partition_def)

lemma Subject_tokens_single:
  "n \<le> 1 \<Longrightarrow> map_option (split_on CHR ''.'') (Subject hdr n) =
     Some [''in'', ''raw'', typeToken (hType hdr), sanitizeToken (hSubject hdr)]"
  by (simp add: Subject_def SubjectRoot_def split_on_append_sep split_on_no_sep)

lemma Subject_tokens:
  assumes "1 < n" "Partition (hSubject hdr) n = Some p"
  shows "map_option (split_on CHR ''.'') (Subject hdr n) =
     Some [''in'', ''raw'', typeToken (hType hdr), sanitizeToken (hSubject hdr), ''p'' @ fmt_p03d p]"
proof -
  have "split_on CHR ''.'' (CHR ''p'' # fmt_p03d p) = [''p'' @ fmt_p03d p]"
    using split_on_no_sep [of "CHR ''.''" "CHR ''p'' # fmt_p03d p"] by simp
  with assms show ?thesis
    by (simp add: Subject_def SubjectRoot_def split_on_append_sep)
qed

lemma partitionSubjects_tokens:
  "1 < n \<Longrightarrow> map (split_on CHR ''.'') (partitionSubjects i n) =
     [[''in'', ''raw'', ''*'', ''*'', ''p'' @ fmt_p03d i]]"
  using split_on_no_sep [of "CHR ''.''" "CHR ''p'' # fmt_p03d i"]
  by (simp add: partitionSubjects_def SubjectRoot_def)

section \<open>Subject filters\<close>

text \<open>The documented meaning of a NATS filter subject on dot-separated tokens: a star stands
  for one token, a final angle bracket for one or more. The broker's matching function is a
  parameter of the routing theorems and \<open>wildcard_semantics\<close> the hypothesis on it.\<close>

fun token_match :: "string list \<Rightarrow> string list \<Rightarrow> bool" where
  "token_match [] ts = (ts = [])"
| "token_match (f # fs) [] = False"
| "token_match (f # fs) (t # ts) =
     (if f = ''>'' \<and> fs = [] then True else (f = ''*'' \<or> f = t) \<and> token_match fs ts)"

definition wildcard_semantics :: "(string \<Rightarrow> string \<Rightarrow> bool) \<Rightarrow> bool" where
  "wildcard_semantics matches \<longleftrightarrow>
     (\<forall>f s. matches f s = token_match (split_on CHR ''.'' f) (split_on CHR ''.'' s))"

lemma wildcard_semanticsD:
  "wildcard_semantics m \<Longrightarrow> m f s = token_match (split_on CHR ''.'' f) (split_on CHR ''.'' s)"
  by (simp add: wildcard_semantics_def)

lemma typeToken_not_wild [simp]: "typeToken s \<noteq> ''*''" "typeToken s \<noteq> ''>''"
proof -
  have "token_char c" if "typeToken s = [c]" for c
    using that unfolding typeToken_def by (metis list.set_intros(1) sanitizeToken_chars)
  then show "typeToken s \<noteq> ''*''" "typeToken s \<noteq> ''>''"
    using token_char_not_special by blast+
qed

lemma partition_filter_match:
  assumes "wildcard_semantics m" "1 < n" "Partition (hSubject hdr) n = Some p"
    and "Subject hdr n = Some s"
  shows "(\<exists>f\<in>set (partitionSubjects i n). m f s) \<longleftrightarrow> i = p"
proof -
  from assms(4) Subject_tokens [OF assms(2,3)]
  have s: "split_on CHR ''.'' s = [''in'', ''raw'', typeToken (hType hdr),
      sanitizeToken (hSubject hdr), ''p'' @ fmt_p03d p]" by simp
  obtain f where f: "partitionSubjects i n = [f]"
    and ft: "split_on CHR ''.'' f = [''in'', ''raw'', ''*'', ''*'', ''p'' @ fmt_p03d i]"
    using partitionSubjects_tokens [OF assms(2), of i] by auto
  have "m f s \<longleftrightarrow> i = p"
    by (simp add: wildcard_semanticsD [OF assms(1)] s ft)
  with f show ?thesis by simp
qed

lemma single_filter_match:
  assumes "wildcard_semantics m" "n \<le> 1" "Subject hdr n = Some s"
  shows "\<exists>f\<in>set (partitionSubjects i n). m f s"
proof -
  from assms(3) Subject_tokens_single [OF assms(2), of hdr]
  have s: "split_on CHR ''.'' s = [''in'', ''raw'', typeToken (hType hdr),
      sanitizeToken (hSubject hdr)]" by simp
  have "split_on CHR ''.'' SubjectWildcard = [''in'', ''raw'', ''>'']"
    by (simp add: SubjectWildcard_def SubjectRoot_def)
  then have "m SubjectWildcard s" by (simp add: wildcard_semanticsD [OF assms(1)] s)
  with assms(2) show ?thesis by (simp add: partitionSubjects_def)
qed

lemma split_type_filter:
  "split_on CHR ''.'' (SubjectFilterForType t) = [''in'', ''raw'', typeToken t, ''>'']"
  by (simp add: SubjectFilterForType_def SubjectRoot_def split_on_append_sep)

lemma type_filter_match:
  assumes m: "wildcard_semantics m" and n: "n < 2 ^ 32" and s: "Subject hdr n = Some s"
  shows "m (SubjectFilterForType t) s \<longleftrightarrow> typeToken t = typeToken (hType hdr)"
proof -
  have "\<exists>ts. ts \<noteq> [] \<and> split_on CHR ''.'' s = ''in'' # ''raw'' # typeToken (hType hdr) # ts"
  proof (cases "n \<le> 1")
    case True
    with s Subject_tokens_single [OF True, of hdr] show ?thesis by auto
  next
    case False
    with n obtain p where p: "Partition (hSubject hdr) n = Some p"
      using Partition_small [of n] by auto
    from False have "1 < n" by simp
    from s Subject_tokens [OF this p] show ?thesis by auto
  qed
  then obtain ts where "ts \<noteq> []"
    and "split_on CHR ''.'' s = ''in'' # ''raw'' # typeToken (hType hdr) # ts" by blast
  then show ?thesis
    by (cases ts) (auto simp: wildcard_semanticsD [OF m] split_type_filter)
qed

section \<open>Deduplication ids\<close>

lemma hex_digit_inj: "a < 16 \<Longrightarrow> b < 16 \<Longrightarrow> hex_digit a = hex_digit b \<longleftrightarrow> a = b"
  by (auto simp: hex_digit_def)

lemma hex_pair_inj:
  "a < 256 \<Longrightarrow> b < 256 \<Longrightarrow> hex_digit (a div 16) = hex_digit (b div 16) \<Longrightarrow>
     hex_digit (a mod 16) = hex_digit (b mod 16) \<Longrightarrow> a = b" for a b :: nat
proof -
  assume ab: "a < 256" "b < 256" and hi: "hex_digit (a div 16) = hex_digit (b div 16)"
    and lo: "hex_digit (a mod 16) = hex_digit (b mod 16)"
  from ab have "a div 16 < 16" "b div 16 < 16" by (simp_all add: div_less_iff_less_mult)
  from iffD1 [OF hex_digit_inj [OF this] hi] have "a div 16 = b div 16" .
  moreover have "a mod 16 < 16" "b mod 16 < 16" by simp_all
  from iffD1 [OF hex_digit_inj [OF this] lo] have "a mod 16 = b mod 16" .
  ultimately show ?thesis by (metis div_mult_mod_eq)
qed

lemma hex_encode_inj [simp]: "hex_encode a = hex_encode b \<longleftrightarrow> a = b"
proof (induction a arbitrary: b)
  case Nil
  show ?case by (cases b) (simp_all add: hex_encode_def)
next
  case (Cons x xs)
  show ?case
  proof (cases b)
    case (Cons y ys)
    have "x = y" if "hex_digit (of_char x div 16) = hex_digit (of_char y div 16)"
      "hex_digit (of_char x mod 16) = hex_digit (of_char y mod 16)"
    proof -
      have "(of_char x :: nat) < 256" "(of_char y :: nat) < 256" by simp_all
      from hex_pair_inj [OF this that] show ?thesis by simp
    qed
    with Cons Cons.IH [of ys] show ?thesis by (auto simp: hex_encode_def)
  qed (simp add: hex_encode_def)
qed

lemma length_hex_encode: "length (hex_encode b) = 2 * length b"
  by (induction b) (simp_all add: hex_encode_def)

end
