(* ===== verification/Streams.thy ===== *)
theory Streams
  imports Subjects
begin

text \<open>
  \<^verbatim>\<open>internal/stream/stream.go\<close>: provisioning the partition streams of the write-ahead log.
  The JetStream administration calls are the record \<open>js_admin\<close> over an opaque broker state.
\<close>

section \<open>Definitions\<close>

record stream_settings =
  Replicas :: int
  MaxAge :: duration
  MaxBytes :: int
  DuplicateWindow :: duration
  Partitions :: int

definition DefaultConfig :: stream_settings where
  "DefaultConfig = \<lparr>Replicas = 1, MaxAge = 48 * hour, MaxBytes = 0,
     DuplicateWindow = 2 * minute, Partitions = 1\<rparr>"

datatype storage_type = FileStorage | MemoryStorage
datatype retention_policy = LimitsPolicy | InterestPolicy | WorkQueuePolicy
datatype discard_policy = DiscardOld | DiscardNew

record stream_config =
  scName :: string
  scDescription :: string
  scSubjects :: "string list"
  scStorage :: storage_type
  scRetention :: retention_policy
  scReplicas :: int
  scMaxAge :: duration
  scMaxBytes :: int
  scDuplicates :: duration
  scDiscard :: discard_policy

text \<open>\<^verbatim>\<open>StreamNames\<close> is a lister: the names it yields, then its final error.\<close>

record ('s, 'h) js_admin =
  StreamNames :: "'s \<Rightarrow> string list \<times> go_error option"
  CreateOrUpdateStream :: "stream_config \<Rightarrow> 's \<Rightarrow> 's \<times> 'h result"

definition stale_message :: "string \<Rightarrow> int \<Rightarrow> string" where
  "stale_message name partitions =
     ''WAL stream '' @ fmt_q name @ '' is from a different partition layout than NATS_STREAM_PARTITIONS=''
     @ show_int partitions @ '': its subjects overlap or its backlog would be stranded; drain and ''
     @ ''delete it first (docs/wal-partition-rescale.md)''"

fun stale_loop :: "string list \<Rightarrow> int \<Rightarrow> string list \<Rightarrow> go_error option" where
  "stale_loop expected partitions [] = None"
| "stale_loop expected partitions (name # names) =
     (if \<not> has_prefix name StreamName then stale_loop expected partitions names
      else if name \<notin> set expected then Some (errors_new (stale_message name partitions))
      else stale_loop expected partitions names)"

definition checkStaleStreams :: "('s, 'h) js_admin \<Rightarrow> 's \<Rightarrow> int \<Rightarrow> go_error option" where
  "checkStaleStreams js s partitions =
     (let expected = map (\<lambda>i. StreamNameFor i partitions) [0..<nat partitions];
          (names, lister_err) = StreamNames js s
      in case stale_loop expected partitions names of
           Some e \<Rightarrow> Some e
         | None \<Rightarrow> lister_err)"

definition streamCfg :: "stream_settings \<Rightarrow> nat \<Rightarrow> stream_config" where
  "streamCfg cfg i =
     \<lparr>scName = StreamNameFor i (Partitions cfg),
      scDescription = ''Raw validated cloudevents awaiting persistence and fan-out'',
      scSubjects = partitionSubjects i (Partitions cfg), scStorage = FileStorage,
      scRetention = LimitsPolicy, scReplicas = Replicas cfg, scMaxAge = MaxAge cfg,
      scMaxBytes = MaxBytes cfg, scDuplicates = DuplicateWindow cfg, scDiscard = DiscardNew\<rparr>"

fun create_loop ::
  "('s, 'h) js_admin \<Rightarrow> stream_settings \<Rightarrow> nat list \<Rightarrow> 's \<Rightarrow> 's \<times> 'h list result" where
  "create_loop js cfg [] s = (s, Inr [])"
| "create_loop js cfg (i # is) s =
     (case CreateOrUpdateStream js (streamCfg cfg i) s of
        (s1, Inl e) \<Rightarrow>
          (s1, Inl (errorf (''creating '' @ StreamNameFor i (Partitions cfg) @ '' stream: '') e ''''))
      | (s1, Inr h) \<Rightarrow>
          (case create_loop js cfg is s1 of
             (s2, Inl e) \<Rightarrow> (s2, Inl e)
           | (s2, Inr hs) \<Rightarrow> (s2, Inr (h # hs))))"

definition EnsureStreams ::
  "('s, 'h) js_admin \<Rightarrow> stream_settings \<Rightarrow> 's \<Rightarrow> 's \<times> 'h list result" where
  "EnsureStreams js cfg0 s =
     (let cfg = (if Partitions cfg0 \<le> 0 then cfg0\<lparr>Partitions := 1\<rparr> else cfg0)
      in case checkStaleStreams js s (Partitions cfg) of
           Some e \<Rightarrow> (s, Inl e)
         | None \<Rightarrow> create_loop js cfg [0..<nat (Partitions cfg)] s)"

section \<open>Lemmas\<close>

abbreviation expected_names :: "int \<Rightarrow> string list" where
  "expected_names n \<equiv> map (\<lambda>i. StreamNameFor i n) [0..<nat n]"

lemma StreamNameFor_inj: "1 < n \<Longrightarrow> StreamNameFor i n = StreamNameFor j n \<longleftrightarrow> i = j"
  by (simp add: StreamNameFor_def)

lemma expected_names_distinct: "distinct (expected_names n)"
proof (cases "1 < n")
  case True
  then show ?thesis by (auto simp: distinct_map inj_on_def StreamNameFor_inj)
next
  case False
  then have "nat n \<le> 1" by simp
  then show ?thesis by (cases "nat n") auto
qed

lemma stale_loop_None_iff:
  "stale_loop expected n names = None \<longleftrightarrow>
     (\<forall>x\<in>set names. has_prefix x StreamName \<longrightarrow> x \<in> set expected)"
  by (induction names) auto

lemma checkStaleStreams_None_iff:
  "checkStaleStreams js s n = None \<longleftrightarrow>
     snd (StreamNames js s) = None \<and>
     (\<forall>x\<in>set (fst (StreamNames js s)). has_prefix x StreamName \<longrightarrow> x \<in> set (expected_names n))"
  using stale_loop_None_iff [of "expected_names n" n "fst (StreamNames js s)"]
  by (auto simp: checkStaleStreams_def Let_def split: prod.splits option.splits)

text \<open>The calls \<open>create_loop\<close> makes, and what it answers.\<close>

fun create_trace ::
  "('s, 'h) js_admin \<Rightarrow> stream_settings \<Rightarrow> nat list \<Rightarrow> 's \<Rightarrow> (stream_config \<times> 'h result) list" where
  "create_trace js cfg [] s = []"
| "create_trace js cfg (i # is) s =
     (case CreateOrUpdateStream js (streamCfg cfg i) s of
        (s1, Inl e) \<Rightarrow> [(streamCfg cfg i, Inl e)]
      | (s1, Inr h) \<Rightarrow> (streamCfg cfg i, Inr h) # create_trace js cfg is s1)"

lemma create_loop_trace:
  "create_loop js cfg is s = (s', Inr hs) \<Longrightarrow>
     create_trace js cfg is s = zip (map (streamCfg cfg) is) (map Inr hs) \<and> length hs = length is"
  by (induction "is" arbitrary: s hs) (auto split: prod.splits sum.splits)

lemma create_loop_error:
  "create_loop js cfg is s = (s', Inl e) \<Longrightarrow>
     \<exists>i e0. i \<in> set is \<and> create_trace js cfg is s \<noteq> [] \<and>
       last (create_trace js cfg is s) = (streamCfg cfg i, Inl e0) \<and>
       e = errorf (''creating '' @ StreamNameFor i (Partitions cfg) @ '' stream: '') e0 ''''"
proof (induction "is" arbitrary: s)
  case (Cons i "is")
  obtain s1 r where r: "CreateOrUpdateStream js (streamCfg cfg i) s = (s1, r)"
    by (cases "CreateOrUpdateStream js (streamCfg cfg i) s")
  show ?case
  proof (cases r)
    case (Inl e0)
    with r Cons.prems show ?thesis by auto
  next
    case (Inr h)
    with r Cons.prems have "create_loop js cfg is s1 = (s', Inl e)"
      by (auto split: prod.splits sum.splits)
    from Cons.IH [OF this] r Inr show ?thesis by fastforce
  qed
qed simp

text \<open>The settings \<^verbatim>\<open>EnsureStreams\<close> works with once the partition count is defaulted.\<close>

definition effective :: "stream_settings \<Rightarrow> stream_settings" where
  "effective cfg = (if Partitions cfg \<le> 0 then cfg\<lparr>Partitions := 1\<rparr> else cfg)"

lemma effective_pos: "1 \<le> Partitions (effective cfg)"
  by (simp add: effective_def)

lemma EnsureStreams_effective:
  "EnsureStreams js cfg s =
     (case checkStaleStreams js s (Partitions (effective cfg)) of
        Some e \<Rightarrow> (s, Inl e)
      | None \<Rightarrow> create_loop js (effective cfg) [0..<nat (Partitions (effective cfg))] s)"
  unfolding EnsureStreams_def effective_def Let_def by (rule refl)

lemma EnsureStreams_successE:
  assumes "EnsureStreams js cfg s = (s', Inr hs)"
  obtains "checkStaleStreams js s (Partitions (effective cfg)) = None"
    "create_loop js (effective cfg) [0..<nat (Partitions (effective cfg))] s = (s', Inr hs)"
  using assms by (auto simp: EnsureStreams_effective split: option.splits)

end
