(* ===== verification/Interfaces.thy ===== *)
theory Interfaces
  imports CloudEvent
begin

text \<open>
  The interfaces between the components, as locales: what the client calls, and the laws
  the provider promises. Each is the Go interface of the same place: \<^verbatim>\<open>handler.Publisher\<close>,
  \<^verbatim>\<open>split.ObjectStore\<close> and \<^verbatim>\<open>sink.BundleWriter\<close>. The provider's theory interprets it on the
  model of the provider; the client's theory proves its lemmas inside it.
\<close>

section \<open>handler.Publisher\<close>

text \<open>A publish that returns nil leaves a message with the event's id in the write-ahead log.\<close>

locale wal_publisher =
  fixes publish :: "stored_event \<Rightarrow> 'p \<Rightarrow> 'p \<times> go_error option"
    and publish_batch :: "stored_event list \<Rightarrow> 'p \<Rightarrow> 'p \<times> go_error option"
    and wal :: "'p \<Rightarrow> string set"
    and msg_id :: "'p \<Rightarrow> stored_event \<Rightarrow> string"
    and ok :: "'p \<Rightarrow> bool"
  assumes publish_durable: "ok p \<Longrightarrow> publish ev p = (p', None) \<Longrightarrow> msg_id p ev \<in> wal p'"
    and publish_batch_durable:
      "ok p \<Longrightarrow> publish_batch evs p = (p', None) \<Longrightarrow> msg_id p ` set evs \<subseteq> wal p'"

section \<open>split.ObjectStore\<close>

text \<open>A put that returns nil is read back as it was written; whatever it returns, the
  objects at other locations are still there. Two keys may name one location: the filesystem store
  cleans the path it builds.\<close>

locale object_store =
  fixes put :: "string \<Rightarrow> bytes \<Rightarrow> 's \<Rightarrow> 's \<times> go_error option"
    and stored :: "'s \<Rightarrow> string \<Rightarrow> bytes option"
    and loc :: "'s \<Rightarrow> string \<Rightarrow> 'l"
    and ok :: "'s \<Rightarrow> bool"
  assumes put_stored: "ok s \<Longrightarrow> put k b s = (s', None) \<Longrightarrow> stored s' k = Some b"
    and put_keeps:
      "ok s \<Longrightarrow> put k b s = (s', r) \<Longrightarrow> loc s k' \<noteq> loc s k \<Longrightarrow> stored s k' = Some v \<Longrightarrow>
         stored s' k' = Some v"
    and put_ok: "ok s \<Longrightarrow> put k b s = (s', r) \<Longrightarrow> ok s'"
    and put_loc: "ok s \<Longrightarrow> put k b s = (s', r) \<Longrightarrow> loc s' = loc s"

section \<open>sink.BundleWriter\<close>

text \<open>A bundle write that returns nil has committed a row for each of its events; no write
  takes committed rows away.\<close>

locale bundle_writer =
  fixes write_bundle :: "stored_event list \<Rightarrow> 'w \<Rightarrow> 'w \<times> go_error option"
    and committed :: "'w \<Rightarrow> 'row multiset"
    and row_of :: "'w \<Rightarrow> stored_event \<Rightarrow> 'row"
    and ok :: "'w \<Rightarrow> bool"
  assumes write_ok: "ok w \<Longrightarrow> write_bundle evs w = (w', r) \<Longrightarrow> ok w' \<and> row_of w' = row_of w"
    and write_grows: "ok w \<Longrightarrow> write_bundle evs w = (w', r) \<Longrightarrow> committed w \<subseteq># committed w'"
    and write_commits: "ok w \<Longrightarrow> write_bundle evs w = (w', None) \<Longrightarrow>
         committed w + mset (map (row_of w) evs) \<subseteq># committed w'"

text \<open>The same writer, to the letter: what a write adds to the committed rows are whole copies of its bundle, none if it
  failed and one if it succeeded. Only where a failed commit may have taken effect after all (\<open>unsure\<close>) can a
  failure leave a copy, and a retried success more than one.\<close>

locale exact_writer = bundle_writer write_bundle committed row_of ok
  for write_bundle :: "stored_event list \<Rightarrow> 'w \<Rightarrow> 'w \<times> go_error option"
    and committed :: "'w \<Rightarrow> 'row multiset" and row_of and ok +
  fixes unsure :: bool
  assumes write_exact: "ok w \<Longrightarrow> write_bundle evs w = (w', r) \<Longrightarrow>
    \<exists>k. committed w' = committed w + repeat_mset k (mset (map (row_of w) evs)) \<and>
      (r = None \<longrightarrow> 0 < k) \<and> (\<not> unsure \<longrightarrow> k = (if r = None then 1 else 0))"

end
