(* ===== verification/Publisher.thy ===== *)
theory Publisher
  imports Subjects Interfaces
begin

text \<open>
  \<^verbatim>\<open>internal/stream/publisher.go\<close>: publishing validated events to the write-ahead log and
  reading them back. The JetStream client is a parameter, the record \<open>js_ops\<close>: what
  \<^verbatim>\<open>PublishMsgAsync\<close> answers, and which of the three cases of the \<^verbatim>\<open>select\<close> in \<^verbatim>\<open>awaitAck\<close>
  fires. The Publisher's receiver, the client's state and the outcome counters are the
  record \<open>publisher\<close>, passed in and returned updated.
\<close>

section \<open>Messages\<close>

type_synonym nats_header = "string \<rightharpoonup> string list"

record nats_msg =
  msgSubject :: string
  msgData :: bytes
  msgHeader :: nats_header

definition header_get :: "nats_header \<Rightarrow> string \<Rightarrow> string" where
  "header_get h k = (case h k of Some (v # _) \<Rightarrow> v | _ \<Rightarrow> [])"

definition header_set :: "nats_header \<Rightarrow> string \<Rightarrow> string \<Rightarrow> nats_header" where
  "header_set h k v = h(k \<mapsto> [v])"

definition MsgIdHdr :: string where "MsgIdHdr = ''Nats-Msg-Id''"
definition HeaderCEType :: string where "HeaderCEType = ''ce-type''"
definition HeaderCESubject :: string where "HeaderCESubject = ''ce-subject''"
definition HeaderCESource :: string where "HeaderCESource = ''ce-source''"
definition HeaderCEID :: string where "HeaderCEID = ''ce-id''"
definition HeaderVoidsID :: string where "HeaderVoidsID = ''din-voids-id''"
definition HeaderDataIndexKey :: string where "HeaderDataIndexKey = ''din-data-index-key''"

lemmas header_names = MsgIdHdr_def HeaderCEType_def HeaderCESubject_def HeaderCESource_def
  HeaderCEID_def HeaderVoidsID_def HeaderDataIndexKey_def

section \<open>The client and the publisher\<close>

datatype ack_event = AckOk | AckErr go_error | CtxDone go_error

record ('s, 'f) js_ops =
  PublishMsgAsync :: "'s \<Rightarrow> nats_msg \<Rightarrow> 's \<times> 'f result"
  AwaitFuture :: "'s \<Rightarrow> 'f \<Rightarrow> 's \<times> ack_event"

datatype outcome = OutOk | OutUnavailable | OutTooLarge

record ('s, 'f) publisher =
  pub_js :: "('s, 'f) js_ops"
  pub_partitions :: int
  pub_state :: 's
  publishOutcomes :: "outcome \<Rightarrow> nat"
  pub_lib :: ce_lib
  pub_sha256 :: "bytes \<Rightarrow> bytes"

definition NewPublisher ::
  "('s, 'f) js_ops \<Rightarrow> int \<Rightarrow> 's \<Rightarrow> ce_lib \<Rightarrow> (bytes \<Rightarrow> bytes) \<Rightarrow> ('s, 'f) publisher" where
  "NewPublisher ops n s L sha =
     \<lparr>pub_js = ops, pub_partitions = (if n \<le> 0 then 1 else n), pub_state = s,
      publishOutcomes = (\<lambda>_. 0), pub_lib = L, pub_sha256 = sha\<rparr>"

definition classify_outcome :: "go_error option \<Rightarrow> outcome" where
  "classify_outcome err =
     (case err of
        None \<Rightarrow> OutOk
      | Some e \<Rightarrow> if errors_is e ErrPayloadTooLarge then OutTooLarge else OutUnavailable)"

definition observePublish :: "go_error option \<Rightarrow> ('s, 'f) publisher \<Rightarrow> ('s, 'f) publisher" where
  "observePublish err p =
     p\<lparr>publishOutcomes := (publishOutcomes p)
         (classify_outcome err := Suc (publishOutcomes p (classify_outcome err)))\<rparr>"

definition classifyPublishErr :: "go_error \<Rightarrow> go_error" where
  "classifyPublishErr err =
     (if errors_is err ErrMaxPayload
      then errorf2 '''' (sentinel_error ErrPayloadTooLarge) '': '' err ''''
      else errorf2 '''' (sentinel_error ErrUnavailable) '': '' err '''')"

definition build_header :: "ce_lib \<Rightarrow> (bytes \<Rightarrow> bytes) \<Rightarrow> stored_event \<Rightarrow> nats_header" where
  "build_header L sha ev =
     (let hdr = ev_header ev;
          h0 = [MsgIdHdr \<mapsto> [MsgID sha L hdr], HeaderCEType \<mapsto> [hType hdr],
                HeaderCESubject \<mapsto> [hSubject hdr], HeaderCESource \<mapsto> [hSource hdr],
                HeaderCEID \<mapsto> [hID hdr]];
          h1 = (if VoidsID ev \<noteq> [] then header_set h0 HeaderVoidsID (VoidsID ev) else h0)
      in if DataIndexKey ev \<noteq> [] then header_set h1 HeaderDataIndexKey (DataIndexKey ev) else h1)"

text \<open>\<^verbatim>\<open>submitAsync\<close>. A zero modulus in \<^verbatim>\<open>Partition\<close> panics before the message exists.\<close>

definition submitAsync ::
  "stored_event \<Rightarrow> ('s, 'f) publisher \<Rightarrow> ('s, 'f) publisher \<times> 'f result" where
  "submitAsync ev p =
     (case MarshalEvent (pub_lib p) (RawEvent ev) of
        Inl e \<Rightarrow> (p, Inl (errorf (''marshaling event '' @ hID (ev_header ev) @ '': '') e ''''))
      | Inr body \<Rightarrow>
         (case Subject (ev_header ev) (pub_partitions p) of
            None \<Rightarrow> (p, Inl (sentinel_error RuntimePanic))
          | Some subj \<Rightarrow>
             (case PublishMsgAsync (pub_js p) (pub_state p)
                     \<lparr>msgSubject = subj, msgData = body,
                      msgHeader = build_header (pub_lib p) (pub_sha256 p) ev\<rparr> of
                (s, Inl e) \<Rightarrow> (p\<lparr>pub_state := s\<rparr>, Inl (classifyPublishErr e))
              | (s, Inr f) \<Rightarrow> (p\<lparr>pub_state := s\<rparr>, Inr f))))"

definition ack_error :: "ack_event \<Rightarrow> go_error option" where
  "ack_error a =
     (case a of
        AckOk \<Rightarrow> None
      | AckErr e \<Rightarrow> Some (classifyPublishErr e)
      | CtxDone e \<Rightarrow> Some (errorf2 '''' (sentinel_error ErrUnavailable) '': '' e ''''))"

definition awaitAck :: "'f \<Rightarrow> ('s, 'f) publisher \<Rightarrow> ('s, 'f) publisher \<times> go_error option" where
  "awaitAck f p =
     (case AwaitFuture (pub_js p) (pub_state p) f of (s, a) \<Rightarrow> (p\<lparr>pub_state := s\<rparr>, ack_error a))"

text \<open>\<^verbatim>\<open>Publish\<close>. Its deferred \<^verbatim>\<open>observePublish\<close> also runs while a panic unwinds, with the named
  result still nil.\<close>

definition Publish ::
  "stored_event \<Rightarrow> ('s, 'f) publisher \<Rightarrow> ('s, 'f) publisher \<times> go_error option" where
  "Publish ev p =
     (case submitAsync ev p of
        (p1, Inl e) \<Rightarrow>
          (observePublish (if errors_is e RuntimePanic then None else Some e) p1, Some e)
      | (p1, Inr f) \<Rightarrow>
          (case awaitAck f p1 of (p2, err) \<Rightarrow> (observePublish err p2, err)))"

text \<open>The two loops of \<^verbatim>\<open>PublishBatch\<close>: submit every event, recording synchronous rejects in
  \<^verbatim>\<open>errByIndex\<close> and the rest as pending; then await the pending acks in order.\<close>

fun submit_loop ::
  "nat \<Rightarrow> stored_event list \<Rightarrow> go_error option list \<Rightarrow> (nat \<times> 'f) list \<Rightarrow> ('s, 'f) publisher
     \<Rightarrow> ('s, 'f) publisher \<times> (go_error option list \<times> (nat \<times> 'f) list) result" where
  "submit_loop i [] errs inflight p = (p, Inr (errs, inflight))"
| "submit_loop i (ev # evs) errs inflight p =
     (case submitAsync ev p of
        (p1, Inl e) \<Rightarrow>
          if errors_is e RuntimePanic then (p1, Inl e)
          else submit_loop (Suc i) evs (errs[i := Some e]) inflight (observePublish (Some e) p1)
      | (p1, Inr f) \<Rightarrow> submit_loop (Suc i) evs errs (inflight @ [(i, f)]) p1)"

fun await_loop ::
  "(nat \<times> 'f) list \<Rightarrow> go_error option list \<Rightarrow> ('s, 'f) publisher
     \<Rightarrow> ('s, 'f) publisher \<times> go_error option list" where
  "await_loop [] errs p = (p, errs)"
| "await_loop ((i, f) # rest) errs p =
     (case awaitAck f p of
        (p1, None) \<Rightarrow> await_loop rest errs (observePublish None p1)
      | (p1, Some e) \<Rightarrow> await_loop rest (errs[i := Some e]) (observePublish (Some e) p1))"

definition PublishBatch ::
  "stored_event list \<Rightarrow> ('s, 'f) publisher \<Rightarrow> ('s, 'f) publisher \<times> go_error option" where
  "PublishBatch events p =
     (case events of
        [] \<Rightarrow> (p, None)
      | [ev] \<Rightarrow> Publish ev p
      | _ \<Rightarrow>
         (case submit_loop 0 events (replicate (length events) None) [] p of
            (p1, Inl e) \<Rightarrow> (p1, Some e)
          | (p1, Inr (errs, inflight)) \<Rightarrow>
             (case await_loop inflight errs p1 of (p2, errs2) \<Rightarrow> (p2, first_some errs2))))"

definition ParseMsg :: "ce_lib \<Rightarrow> nats_header \<Rightarrow> bytes \<Rightarrow> stored_event result" where
  "ParseMsg L headers body =
     (case UnmarshalEvent L body of
        Inl e \<Rightarrow> Inl (errorf ''unmarshaling raw event: '' e '''')
      | Inr raw \<Rightarrow> Inr \<lparr>RawEvent = raw, DataIndexKey = header_get headers HeaderDataIndexKey,
                      VoidsID = header_get headers HeaderVoidsID\<rparr>)"

section \<open>What the client promises\<close>

text \<open>The documented behaviour of JetStream publishing the theorems rely on: the future stands
  for the message it was made for, the log of message ids only grows, and an ack means a
  message with this id is stored. An ack for a duplicate stores nothing new: the id was
  stored before.\<close>

definition js_durable ::
  "('s, 'f) js_ops \<Rightarrow> ('s \<Rightarrow> string set) \<Rightarrow> ('f \<Rightarrow> nats_msg) \<Rightarrow> bool" where
  "js_durable ops wal fmsg \<longleftrightarrow>
     (\<forall>s m s' f. PublishMsgAsync ops s m = (s', Inr f) \<longrightarrow> fmsg f = m) \<and>
     (\<forall>s m s' r. PublishMsgAsync ops s m = (s', r) \<longrightarrow> wal s \<subseteq> wal s') \<and>
     (\<forall>s f s' a. AwaitFuture ops s f = (s', a) \<longrightarrow> wal s \<subseteq> wal s') \<and>
     (\<forall>s f s'. AwaitFuture ops s f = (s', AckOk) \<longrightarrow>
        header_get (msgHeader (fmsg f)) MsgIdHdr \<in> wal s')"

lemma js_durableD:
  assumes "js_durable ops wal fmsg"
  shows "PublishMsgAsync ops s m = (s', Inr f) \<Longrightarrow> fmsg f = m"
    and "PublishMsgAsync ops s m = (s', r) \<Longrightarrow> wal s \<subseteq> wal s'"
    and "AwaitFuture ops s f = (s', a) \<Longrightarrow> wal s \<subseteq> wal s'"
    and "AwaitFuture ops s f = (s', AckOk) \<Longrightarrow> header_get (msgHeader (fmsg f)) MsgIdHdr \<in> wal s'"
  using assms unfolding js_durable_def by blast+

abbreviation event_id :: "('s, 'f) publisher \<Rightarrow> stored_event \<Rightarrow> string" where
  "event_id p ev \<equiv> MsgID (pub_sha256 p) (pub_lib p) (ev_header ev)"

text \<open>What no operation of the publisher changes.\<close>

definition same_config :: "('s, 'f) publisher \<Rightarrow> ('s, 'f) publisher \<Rightarrow> bool" where
  "same_config p q \<longleftrightarrow> pub_js q = pub_js p \<and> pub_partitions q = pub_partitions p
     \<and> pub_lib q = pub_lib p \<and> pub_sha256 q = pub_sha256 p"

lemma same_config_refl [simp]: "same_config p p"
  by (simp add: same_config_def)

lemma same_config_trans: "same_config p q \<Longrightarrow> same_config q r \<Longrightarrow> same_config p r"
  by (simp add: same_config_def)

lemma header_get_build_header [simp]:
  "header_get (build_header L sha ev) MsgIdHdr = MsgID sha L (ev_header ev)"
  "header_get (build_header L sha ev) HeaderVoidsID = VoidsID ev"
  "header_get (build_header L sha ev) HeaderDataIndexKey = DataIndexKey ev"
  by (simp_all add: build_header_def Let_def header_get_def header_set_def header_names)

lemma observePublish_config [simp]:
  "pub_state (observePublish e p) = pub_state p" "same_config p (observePublish e p)"
  by (simp_all add: observePublish_def same_config_def)

lemma observePublish_event_id [simp]: "event_id (observePublish e p) ev = event_id p ev"
  by (simp add: observePublish_def)

section \<open>One event\<close>

lemma submitAsync_config: "submitAsync ev p = (p1, r) \<Longrightarrow> same_config p p1"
  by (auto simp: submitAsync_def same_config_def split: sum.splits option.splits prod.splits)

lemma awaitAck_config: "awaitAck f p = (p1, r) \<Longrightarrow> same_config p p1"
  by (auto simp: awaitAck_def same_config_def split: prod.splits)

lemma same_config_id: "same_config p q \<Longrightarrow> event_id q ev = event_id p ev"
  by (simp add: same_config_def)

lemma submitAsync_wal:
  "js_durable (pub_js p) wal fmsg \<Longrightarrow> submitAsync ev p = (p1, r) \<Longrightarrow>
     wal (pub_state p) \<subseteq> wal (pub_state p1)"
  by (auto simp: submitAsync_def dest: js_durableD(2) [THEN subsetD]
      split: sum.splits option.splits prod.splits)

lemma submitAsync_future:
  "js_durable (pub_js p) wal fmsg \<Longrightarrow> submitAsync ev p = (p1, Inr f) \<Longrightarrow>
     header_get (msgHeader (fmsg f)) MsgIdHdr = event_id p ev"
  by (auto simp: submitAsync_def dest!: js_durableD(1)
      split: sum.splits option.splits prod.splits)

lemma awaitAck_wal:
  "js_durable (pub_js p) wal fmsg \<Longrightarrow> awaitAck f p = (p1, r) \<Longrightarrow>
     wal (pub_state p) \<subseteq> wal (pub_state p1)"
  by (auto simp: awaitAck_def dest: js_durableD(3) [THEN subsetD] split: prod.splits)

lemma awaitAck_acked:
  "js_durable (pub_js p) wal fmsg \<Longrightarrow> awaitAck f p = (p1, None) \<Longrightarrow>
     header_get (msgHeader (fmsg f)) MsgIdHdr \<in> wal (pub_state p1)"
  by (auto simp: awaitAck_def ack_error_def dest: js_durableD(4)
      split: prod.splits ack_event.splits)

lemma classifyPublishErr_class:
  "errors_is (classifyPublishErr e) ErrPayloadTooLarge \<or> errors_is (classifyPublishErr e) ErrUnavailable"
  by (simp add: classifyPublishErr_def)

lemma ack_error_class:
  "ack_error a = Some e \<Longrightarrow> errors_is e ErrPayloadTooLarge \<or> errors_is e ErrUnavailable"
  by (auto simp: ack_error_def classifyPublishErr_def split: ack_event.splits if_splits)

section \<open>The batch\<close>

text \<open>The reference: submit in order, keep each event's submit result, then await in order and
  keep each event's outcome. No indices, no table of errors.\<close>

fun submit_seq ::
  "stored_event list \<Rightarrow> ('s, 'f) publisher \<Rightarrow> ('s, 'f) publisher \<times> 'f result list result" where
  "submit_seq [] p = (p, Inr [])"
| "submit_seq (ev # evs) p =
     (case submitAsync ev p of
        (p1, Inl e) \<Rightarrow>
          if errors_is e RuntimePanic then (p1, Inl e)
          else (case submit_seq evs (observePublish (Some e) p1) of
                  (p2, Inl x) \<Rightarrow> (p2, Inl x) | (p2, Inr rs) \<Rightarrow> (p2, Inr (Inl e # rs)))
      | (p1, Inr f) \<Rightarrow>
          (case submit_seq evs p1 of
             (p2, Inl x) \<Rightarrow> (p2, Inl x) | (p2, Inr rs) \<Rightarrow> (p2, Inr (Inr f # rs))))"

fun await_seq ::
  "'f result list \<Rightarrow> ('s, 'f) publisher \<Rightarrow> ('s, 'f) publisher \<times> go_error option list" where
  "await_seq [] p = (p, [])"
| "await_seq (Inl e # rs) p = (case await_seq rs p of (p2, outs) \<Rightarrow> (p2, Some e # outs))"
| "await_seq (Inr f # rs) p =
     (case awaitAck f p of
        (p1, r) \<Rightarrow> (case await_seq rs (observePublish r p1) of (p2, outs) \<Rightarrow> (p2, r # outs)))"

fun pending_of :: "nat \<Rightarrow> 'f result list \<Rightarrow> (nat \<times> 'f) list" where
  "pending_of i [] = []"
| "pending_of i (Inl e # rs) = pending_of (Suc i) rs"
| "pending_of i (Inr f # rs) = (i, f) # pending_of (Suc i) rs"

definition reject :: "'f result \<Rightarrow> go_error option" where
  "reject r = (case r of Inl e \<Rightarrow> Some e | Inr f \<Rightarrow> None)"

lemma reject_simps [simp]: "reject (Inl e) = Some e" "reject (Inr f) = None"
  by (simp_all add: reject_def)

lemma submit_loop_seq:
  "submit_loop (length pre) evs (pre @ replicate (length evs) None) inflight p =
     (case submit_seq evs p of
        (p1, Inl e) \<Rightarrow> (p1, Inl e)
      | (p1, Inr rs) \<Rightarrow> (p1, Inr (pre @ map reject rs, inflight @ pending_of (length pre) rs)))"
proof (induction evs arbitrary: pre inflight p)
  case (Cons ev evs)
  obtain p1 r where r: "submitAsync ev p = (p1, r)" by (cases "submitAsync ev p")
  show ?case
  proof (cases r)
    case (Inl e)
    have upd: "(pre @ None # replicate (length evs) None)[length pre := Some e] =
        (pre @ [Some e]) @ replicate (length evs) None" by simp
    from r Inl show ?thesis
      using Cons.IH [of "pre @ [Some e]" inflight "observePublish (Some e) p1"]
      by (simp add: upd split: prod.splits sum.splits)
  next
    case (Inr f)
    with r show ?thesis
      using Cons.IH [of "pre @ [None]" "inflight @ [(length pre, f)]" p1]
      by (simp split: prod.splits sum.splits)
  qed
qed simp

lemma await_loop_seq:
  "await_loop (pending_of (length pre) rs) (pre @ map reject rs) p =
     (case await_seq rs p of (p2, outs) \<Rightarrow> (p2, pre @ outs))"
proof (induction rs arbitrary: pre p)
  case (Cons r rs)
  show ?case
  proof (cases r)
    case (Inl e)
    then show ?thesis using Cons.IH [of "pre @ [Some e]" p] by (simp split: prod.splits)
  next
    case (Inr f)
    obtain p1 a where a: "awaitAck f p = (p1, a)" by (cases "awaitAck f p")
    show ?thesis
    proof (cases a)
      case None
      with Inr a show ?thesis
        using Cons.IH [of "pre @ [None]" "observePublish None p1"] by (simp split: prod.splits)
    next
      case (Some e)
      with Inr a show ?thesis
        using Cons.IH [of "pre @ [Some e]" "observePublish (Some e) p1"]
        by (simp split: prod.splits)
    qed
  qed
qed simp

lemma submit_seq_length: "submit_seq evs p = (p1, Inr rs) \<Longrightarrow> length rs = length evs"
  by (induction evs arbitrary: p rs) (auto split: prod.splits sum.splits if_splits)

lemma await_seq_length: "await_seq rs p = (p1, outs) \<Longrightarrow> length outs = length rs"
  by (induction rs p arbitrary: outs rule: await_seq.induct) (auto split: prod.splits)

lemma PublishBatch_seq:
  assumes "submit_seq evs p = (p1, Inr rs)" "await_seq rs p1 = (p2, outs)"
  shows "PublishBatch evs p = (p2, first_some outs)"
proof (cases evs rule: list.exhaust [case_names Nil Cons])
  case Nil
  with assms show ?thesis by (auto simp: PublishBatch_def)
next
  case (Cons ev rest)
  show ?thesis
  proof (cases "rest = []")
    case True
    with Cons assms show ?thesis
      by (auto simp: PublishBatch_def Publish_def split: prod.splits sum.splits if_splits
          option.splits elim: first_some.elims)
  next
    case False
    with Cons obtain ev2 rest2 where e: "evs = ev # ev2 # rest2" by (cases rest) auto
    have "PublishBatch evs p =
       (case submit_loop 0 evs (replicate (length evs) None) [] p of
            (p1, Inl e) \<Rightarrow> (p1, Some e)
          | (p1, Inr (errs, inflight)) \<Rightarrow>
             (case await_loop inflight errs p1 of (p2, errs2) \<Rightarrow> (p2, first_some errs2)))"
      by (simp add: PublishBatch_def e)
    also have "submit_loop 0 evs (replicate (length evs) None) [] p =
        (p1, Inr (map reject rs, pending_of 0 rs))"
      using submit_loop_seq [of "[]" evs "[]" p] assms(1) by simp
    finally show ?thesis
      using await_loop_seq [of "[]" rs p1] assms(2) by simp
  qed
qed

lemma PublishBatch_panic: "submit_seq evs p = (p1, Inl e) \<Longrightarrow> snd (PublishBatch evs p) = Some e"
proof (cases evs rule: list.exhaust [case_names Nil Cons])
  case (Cons ev rest)
  assume a: "submit_seq evs p = (p1, Inl e)"
  show ?thesis
  proof (cases "rest = []")
    case True
    with Cons a show ?thesis
      by (auto simp: PublishBatch_def Publish_def split: prod.splits sum.splits if_splits)
  next
    case False
    with Cons obtain ev2 rest2 where e: "evs = ev # ev2 # rest2" by (cases rest) auto
    have "submit_loop 0 evs (replicate (length evs) None) [] p = (p1, Inl e)"
      using submit_loop_seq [of "[]" evs "[]" p] a by simp
    then show ?thesis by (simp add: PublishBatch_def e)
  qed
qed simp

lemma PublishBatch_NoneE:
  assumes "PublishBatch evs p = (p', None)"
  obtains p1 rs outs where "submit_seq evs p = (p1, Inr rs)" "await_seq rs p1 = (p', outs)"
    "\<forall>x\<in>set outs. x = None"
proof -
  obtain p1 r where r: "submit_seq evs p = (p1, r)" by (cases "submit_seq evs p")
  then obtain rs where rs: "r = Inr rs"
    using assms PublishBatch_panic [of evs p p1] by (cases r) auto
  obtain p2 outs where outs: "await_seq rs p1 = (p2, outs)" by (cases "await_seq rs p1")
  from PublishBatch_seq [OF r [unfolded rs] outs] assms
  have "p2 = p'" "first_some outs = None" by simp_all
  then have "p2 = p'" "\<forall>x\<in>set outs. x = None" by (simp_all add: first_some_None_iff)
  with that r rs outs show thesis by blast
qed

section \<open>Durability\<close>

definition future_for :: "('f \<Rightarrow> nats_msg) \<Rightarrow> string \<Rightarrow> 'f result \<Rightarrow> bool" where
  "future_for fmsg i r \<longleftrightarrow>
     (\<forall>f. r = Inr f \<longrightarrow> header_get (msgHeader (fmsg f)) MsgIdHdr = i)"

lemma submit_seq_config: "submit_seq evs p = (p1, r) \<Longrightarrow> same_config p p1"
  by (induction evs arbitrary: p r)
    (auto split: prod.splits sum.splits if_splits
      intro: same_config_trans dest!: submitAsync_config,
     (meson observePublish_config(2) same_config_trans)+)

lemma submit_seq_futures:
  "js_durable (pub_js p) wal fmsg \<Longrightarrow> submit_seq evs p = (p1, Inr rs) \<Longrightarrow>
     list_all2 (\<lambda>ev r. future_for fmsg (event_id p ev) r) evs rs"
proof (induction evs arbitrary: p rs)
  case (Cons ev evs)
  obtain q r where r: "submitAsync ev p = (q, r)" by (cases "submitAsync ev p")
  have hd: "future_for fmsg (event_id p ev) r"
    using submitAsync_future [OF Cons.prems(1)] r by (simp add: future_for_def)
  define q' where "q' = (case r of Inl e \<Rightarrow> observePublish (Some e) q | Inr f \<Rightarrow> q)"
  have cfg: "same_config p q'"
    using submitAsync_config [OF r]
    by (cases r) (auto simp: q'_def intro: same_config_trans [OF _ observePublish_config(2)])
  from Cons.prems(2) r obtain rs' where rs: "rs = r # rs'" and "submit_seq evs q' = (p1, Inr rs')"
    by (auto simp: q'_def split: prod.splits sum.splits if_splits)
  moreover have "js_durable (pub_js q') wal fmsg"
    using cfg Cons.prems(1) by (simp add: same_config_def)
  ultimately have "list_all2 (\<lambda>ev r. future_for fmsg (event_id q' ev) r) evs rs'"
    using Cons.IH by blast
  then have "list_all2 (\<lambda>ev r. future_for fmsg (event_id p ev) r) evs rs'"
    by (simp add: same_config_id [OF cfg])
  with hd rs show ?case by simp
qed simp

lemma await_seq_wal:
  "js_durable (pub_js p) wal fmsg \<Longrightarrow> await_seq rs p = (p1, outs) \<Longrightarrow>
     wal (pub_state p) \<subseteq> wal (pub_state p1)"
proof (induction rs p arbitrary: outs rule: await_seq.induct)
  case (3 f rs p)
  obtain q r where q: "awaitAck f p = (q, r)" by (cases "awaitAck f p")
  from 3(2) have d: "js_durable (pub_js (observePublish r q)) wal fmsg"
    using awaitAck_config [OF q] by (simp add: same_config_def observePublish_def)
  obtain outs' where "await_seq rs (observePublish r q) = (p1, outs')"
    using 3(3) q by (auto split: prod.splits)
  from 3(1) [OF q [symmetric] d this] awaitAck_wal [OF 3(2) q] show ?case by simp
qed (auto split: prod.splits)

lemma await_seq_acked:
  assumes "js_durable (pub_js p) wal fmsg" "await_seq rs p = (p1, outs)" "\<forall>x\<in>set outs. x = None"
    and "list_all2 (\<lambda>i r. future_for fmsg i r) ids rs"
  shows "set ids \<subseteq> wal (pub_state p1)"
  using assms
proof (induction rs p arbitrary: outs ids rule: await_seq.induct)
  case (3 f rs p)
  obtain q r where q: "awaitAck f p = (q, r)" by (cases "awaitAck f p")
  from 3(3,4) q have r: "r = None" by (auto split: prod.splits)
  from 3(2) have d: "js_durable (pub_js (observePublish r q)) wal fmsg"
    using awaitAck_config [OF q] by (simp add: same_config_def observePublish_def)
  obtain outs' where o: "await_seq rs (observePublish r q) = (p1, outs')" "\<forall>x\<in>set outs'. x = None"
    using 3(3,4) q by (auto split: prod.splits)
  from 3(5) obtain i ids' where ids: "ids = i # ids'" "future_for fmsg i (Inr f)"
    "list_all2 (\<lambda>i r. future_for fmsg i r) ids' rs" by (auto simp: list_all2_Cons2)
  from awaitAck_acked [OF 3(2) q [unfolded r]] ids(2)
  have "i \<in> wal (pub_state (observePublish r q))" by (simp add: future_for_def)
  with await_seq_wal [OF d o(1)] 3(1) [OF q [symmetric] d o ids(3)] ids(1)
  show ?case by auto
qed (auto split: prod.splits)

lemma PublishBatch_durable:
  assumes "js_durable (pub_js p) wal fmsg" "PublishBatch evs p = (p', None)"
  shows "event_id p ` set evs \<subseteq> wal (pub_state p')"
proof -
  from PublishBatch_NoneE [OF assms(2)] obtain p1 rs outs
    where s: "submit_seq evs p = (p1, Inr rs)" and a: "await_seq rs p1 = (p', outs)"
      "\<forall>x\<in>set outs. x = None" .
  have "list_all2 (\<lambda>i r. future_for fmsg i r) (map (event_id p) evs) rs"
    using submit_seq_futures [OF assms(1) s] by (simp add: list.rel_map)
  moreover have "js_durable (pub_js p1) wal fmsg"
    using submit_seq_config [OF s] assms(1) by (simp add: same_config_def)
  ultimately show ?thesis using await_seq_acked [OF _ a] by fastforce
qed

lemma Publish_durable:
  "js_durable (pub_js p) wal fmsg \<Longrightarrow> Publish ev p = (p', None) \<Longrightarrow> event_id p ev \<in> wal (pub_state p')"
  using PublishBatch_durable [of p wal fmsg "[ev]" p'] by (simp add: PublishBatch_def)

lemma await_seq_config: "await_seq rs p = (p1, outs) \<Longrightarrow> same_config p p1"
proof (induction rs p arbitrary: outs rule: await_seq.induct)
  case (3 f rs p)
  obtain q r where q: "awaitAck f p = (q, r)" by (cases "awaitAck f p")
  obtain outs' where o: "await_seq rs (observePublish r q) = (p1, outs')"
    using 3(2) q by (auto split: prod.splits)
  from awaitAck_config [OF q] have "same_config p (observePublish r q)"
    by (rule same_config_trans) simp
  also note 3(1) [OF q [symmetric] o]
  finally (same_config_trans) show ?case .
qed (auto split: prod.splits)

lemma Publish_config: "Publish ev p = (p', r) \<Longrightarrow> same_config p p'"
  by (auto simp: Publish_def split: prod.splits sum.splits
      dest!: submitAsync_config awaitAck_config
      intro: same_config_trans [OF _ observePublish_config(2)] same_config_trans)

lemma PublishBatch_config: "PublishBatch evs p = (p', r) \<Longrightarrow> same_config p p'"
proof -
  assume a: "PublishBatch evs p = (p', r)"
  obtain p1 x where x: "submit_seq evs p = (p1, x)" by (cases "submit_seq evs p")
  show ?thesis
  proof (cases x)
    case (Inr rs)
    obtain p2 outs where o: "await_seq rs p1 = (p2, outs)" by (cases "await_seq rs p1")
    with a PublishBatch_seq [OF x [unfolded Inr] o] have "p' = p2" by simp
    with same_config_trans [OF submit_seq_config [OF x] await_seq_config [OF o]]
    show ?thesis by simp
  next
    case (Inl e)
    show ?thesis
    proof (cases "\<exists>ev. evs = [ev]")
      case True
      with a show ?thesis by (auto simp: PublishBatch_def dest: Publish_config)
    next
      case False
      with x Inl have "evs \<noteq> []" by auto
      with False obtain ev ev2 rest where e: "evs = ev # ev2 # rest"
        by (metis neq_Nil_conv)
      have "submit_loop 0 evs (replicate (length evs) None) [] p = (p1, Inl e)"
        using submit_loop_seq [of "[]" evs "[]" p] x Inl by simp
      with a have "p' = p1" by (simp add: PublishBatch_def e)
      with submit_seq_config [OF x] show ?thesis by simp
    qed
  qed
qed

text \<open>\<^verbatim>\<open>stream.Publisher\<close> implements the handler's \<^verbatim>\<open>Publisher\<close> interface.\<close>

interpretation stream_pub: wal_publisher Publish PublishBatch "\<lambda>p. wal (pub_state p)" event_id
    "\<lambda>p. js_durable (pub_js p) wal fmsg" for wal fmsg
proof unfold_locales
  show "event_id p ev \<in> wal (pub_state p')"
    if "js_durable (pub_js p) wal fmsg" "Publish ev p = (p', None)" for p ev p'
    using that by (rule Publish_durable)
  show "event_id p ` set evs \<subseteq> wal (pub_state p')"
    if "js_durable (pub_js p) wal fmsg" "PublishBatch evs p = (p', None)" for p evs p'
    using that by (rule PublishBatch_durable)
qed

section \<open>The outcome counters\<close>

definition outcome_total :: "('s, 'f) publisher \<Rightarrow> nat" where
  "outcome_total p = publishOutcomes p OutOk + publishOutcomes p OutUnavailable
     + publishOutcomes p OutTooLarge"

lemma outcome_total_observe [simp]: "outcome_total (observePublish e p) = Suc (outcome_total p)"
  by (cases "classify_outcome e") (simp_all add: outcome_total_def observePublish_def)

lemma outcome_total_submitAsync [simp]:
  "submitAsync ev p = (p1, r) \<Longrightarrow> outcome_total p1 = outcome_total p"
  by (auto simp: submitAsync_def outcome_total_def split: sum.splits option.splits prod.splits)

lemma outcome_total_awaitAck [simp]:
  "awaitAck f p = (p1, r) \<Longrightarrow> outcome_total p1 = outcome_total p"
  by (auto simp: awaitAck_def outcome_total_def split: prod.splits)

fun count_rejected :: "'f result list \<Rightarrow> nat" where
  "count_rejected [] = 0"
| "count_rejected (Inl e # rs) = Suc (count_rejected rs)"
| "count_rejected (Inr f # rs) = count_rejected rs"

fun count_pending :: "'f result list \<Rightarrow> nat" where
  "count_pending [] = 0"
| "count_pending (Inl e # rs) = count_pending rs"
| "count_pending (Inr f # rs) = Suc (count_pending rs)"

lemma count_split: "count_rejected rs + count_pending rs = length rs"
  by (induction rs rule: count_pending.induct) simp_all

lemma submit_seq_total:
  "submit_seq evs p = (p1, Inr rs) \<Longrightarrow> outcome_total p1 = outcome_total p + count_rejected rs"
  by (induction evs arbitrary: p rs) (fastforce split: prod.splits sum.splits if_splits)+

lemma await_seq_total:
  "await_seq rs p = (p1, outs) \<Longrightarrow> outcome_total p1 = outcome_total p + count_pending rs"
  by (induction rs p arbitrary: outs rule: await_seq.induct) (fastforce split: prod.splits)+

lemma PublishBatch_total:
  assumes "submit_seq evs p = (p1, Inr rs)" "PublishBatch evs p = (p', r)"
  shows "outcome_total p' = outcome_total p + length evs"
proof -
  obtain p2 outs where o: "await_seq rs p1 = (p2, outs)" by (cases "await_seq rs p1")
  with PublishBatch_seq [OF assms(1) o] assms(2) have "p' = p2" by simp
  with submit_seq_total [OF assms(1)] await_seq_total [OF o] submit_seq_length [OF assms(1)]
    count_split [of rs] show ?thesis by simp
qed

lemma PublishBatch_no_panic_total:
  assumes "PublishBatch evs p = (p', r)" "\<And>e. r = Some e \<Longrightarrow> \<not> errors_is e RuntimePanic"
  shows "outcome_total p' = outcome_total p + length evs"
proof -
  obtain p1 x where x: "submit_seq evs p = (p1, x)" by (cases "submit_seq evs p")
  have "errors_is e RuntimePanic" if "submit_seq evs' q = (q1, Inl e)" for e evs' and q q1 :: "('a, 'b) publisher"
    using that by (induction evs' arbitrary: q) (auto split: prod.splits sum.splits if_splits)
  then obtain rs where "x = Inr rs"
    using PublishBatch_panic [of evs p p1] assms x by (cases x) auto
  with x assms(1) show ?thesis using PublishBatch_total by blast
qed

end
