(* ===== verification/Base64.thy ===== *)
theory Base64
  imports Din_Prelude
begin

text \<open>
  The part of Go's \<^verbatim>\<open>encoding/base64\<close> the program uses: \<^verbatim>\<open>StdEncoding.DecodedLen\<close>,
  \<^verbatim>\<open>StdEncoding.DecodeString\<close> with its skipped line breaks, its padding rules and the offset in
  its error, and \<^verbatim>\<open>EncodeToString\<close> as the reference the round trip is stated with.
\<close>

section \<open>Definitions\<close>

definition b64_val :: "char \<Rightarrow> nat option" where
  "b64_val c =
     (let n = (of_char c :: nat) in
      if 65 \<le> n \<and> n \<le> 90 then Some (n - 65)
      else if 97 \<le> n \<and> n \<le> 122 then Some (n - 71)
      else if 48 \<le> n \<and> n \<le> 57 then Some (n + 4)
      else if n = 43 then Some 62
      else if n = 47 then Some 63
      else None)"

definition b64_char :: "nat \<Rightarrow> char" where
  "b64_char v =
     (if v < 26 then ch (v + 65) else if v < 52 then ch (v + 71)
      else if v < 62 then ch (v - 4) else if v = 62 then CHR ''+'' else CHR ''/'')"

definition CorruptInputError :: "nat \<Rightarrow> go_error" where
  "CorruptInputError i = errors_new (''illegal base64 data at input byte '' @ show_nat i)"

text \<open>The bytes of a quantum of four six-bit values.\<close>

definition byte0 :: "nat \<Rightarrow> nat \<Rightarrow> char" where "byte0 v0 v1 = ch (v0 * 4 + v1 div 16)"
definition byte1 :: "nat \<Rightarrow> nat \<Rightarrow> char" where "byte1 v1 v2 = ch (v1 mod 16 * 16 + v2 div 4)"
definition byte2 :: "nat \<Rightarrow> nat \<Rightarrow> char" where "byte2 v2 v3 = ch (v2 mod 4 * 64 + v3)"

text \<open>What follows the padding: nothing but line breaks, which are gone already.\<close>

fun after_padding :: "bytes \<Rightarrow> (nat \<times> char) list \<Rightarrow> bytes result" where
  "after_padding bs [] = Inr bs"
| "after_padding bs ((i, c) # _) = Inl (CorruptInputError i)"

text \<open>\<open>decode_quanta n cs\<close> runs \<^verbatim>\<open>decodeQuantum\<close> until the input, of length \<open>n\<close>, is consumed;
  \<open>cs\<close> are the characters that are not line breaks, each with its offset.\<close>

fun decode_quanta :: "nat \<Rightarrow> (nat \<times> char) list \<Rightarrow> bytes result" where
  "decode_quanta n [] = Inr []"
| "decode_quanta n ((i0, c0) # r0) =
    (case b64_val c0 of None \<Rightarrow> Inl (CorruptInputError i0) | Some v0 \<Rightarrow>
     (case r0 of [] \<Rightarrow> Inl (CorruptInputError (n - 1)) | (i1, c1) # r1 \<Rightarrow>
      (case b64_val c1 of None \<Rightarrow> Inl (CorruptInputError i1) | Some v1 \<Rightarrow>
       (case r1 of [] \<Rightarrow> Inl (CorruptInputError (n - 2)) | (i2, c2) # r2 \<Rightarrow>
        (case b64_val c2 of
           None \<Rightarrow>
            (if c2 \<noteq> CHR ''='' then Inl (CorruptInputError i2)
             else (case r2 of [] \<Rightarrow> Inl (CorruptInputError n) | (i3, c3) # r3 \<Rightarrow>
                   if c3 \<noteq> CHR ''='' then Inl (CorruptInputError (i3 - 1))
                   else after_padding [byte0 v0 v1] r3))
         | Some v2 \<Rightarrow>
            (case r2 of [] \<Rightarrow> Inl (CorruptInputError (n - 3)) | (i3, c3) # r3 \<Rightarrow>
             (case b64_val c3 of
                None \<Rightarrow>
                 (if c3 \<noteq> CHR ''='' then Inl (CorruptInputError i3)
                  else after_padding [byte0 v0 v1, byte1 v1 v2] r3)
              | Some v3 \<Rightarrow>
                 (case decode_quanta n r3 of
                    Inl e \<Rightarrow> Inl e
                  | Inr bs \<Rightarrow> Inr (byte0 v0 v1 # byte1 v1 v2 # byte2 v2 v3 # bs)))))))))"

definition is_newline :: "char \<Rightarrow> bool" where
  "is_newline c \<longleftrightarrow> of_char c = (10 :: nat) \<or> of_char c = (13 :: nat)"

definition significant :: "string \<Rightarrow> (nat \<times> char) list" where
  "significant s = filter (\<lambda>(i, c). \<not> is_newline c) (zip [0..<length s] s)"

definition DecodeString :: "string \<Rightarrow> bytes result" where
  "DecodeString s = decode_quanta (length s) (significant s)"

definition DecodedLen :: "nat \<Rightarrow> nat" where
  "DecodedLen n = n div 4 * 3"

fun EncodeToString :: "bytes \<Rightarrow> string" where
  "EncodeToString [] = []"
| "EncodeToString [a] =
     (let x = of_char a :: nat in
      [b64_char (x div 4), b64_char (x mod 4 * 16), CHR ''='', CHR ''=''])"
| "EncodeToString [a, b] =
     (let x = of_char a :: nat; y = of_char b :: nat in
      [b64_char (x div 4), b64_char (x mod 4 * 16 + y div 16), b64_char (y mod 16 * 4), CHR ''=''])"
| "EncodeToString (a # b # c # bs) =
     (let x = of_char a :: nat; y = of_char b :: nat; z = of_char c :: nat in
      b64_char (x div 4) # b64_char (x mod 4 * 16 + y div 16)
      # b64_char (y mod 16 * 4 + z div 64) # b64_char (z mod 64) # EncodeToString bs)"

section \<open>Lemmas\<close>

lemma after_paddingD: "after_padding bs r = Inr out \<Longrightarrow> out = bs \<and> r = []"
  by (cases r) (auto split: prod.splits)

text \<open>A quantum of input gives at most three bytes.\<close>

lemma decode_quanta_length:
  "decode_quanta n cs = Inr bs \<Longrightarrow> length bs \<le> length cs div 4 * 3"
proof (induction n cs arbitrary: bs rule: decode_quanta.induct)
  case (2 n i0 c0 r0)
  from "2.prems" obtain v0 i1 c1 r1 v1 i2 c2 r2
    where q: "b64_val c0 = Some v0" "r0 = (i1, c1) # r1" "b64_val c1 = Some v1" "r1 = (i2, c2) # r2"
    by (auto split: option.splits list.splits)
  show ?case
  proof (cases "b64_val c2")
    case None
    with "2.prems" q show ?thesis
      by (auto split: list.splits if_splits dest!: after_paddingD)
  next
    case (Some v2)
    with "2.prems" q obtain i3 c3 r3 where r2: "r2 = (i3, c3) # r3"
      by (auto split: list.splits)
    show ?thesis
    proof (cases "b64_val c3")
      case None
      with "2.prems" q Some r2 show ?thesis
        by (auto split: if_splits dest!: after_paddingD)
    next
      case (Some v3)
      with "2.prems" q \<open>b64_val c2 = Some v2\<close> r2 obtain bs'
        where d: "decode_quanta n r3 = Inr bs'" "bs = byte0 v0 v1 # byte1 v1 v2 # byte2 v2 v3 # bs'"
        by (auto split: sum.splits)
      have "length bs' \<le> length r3 div 4 * 3"
        using "2.IH" [OF q(1,2) _ q(3,4) _ \<open>b64_val c2 = Some v2\<close> r2 _ Some d(1)] by simp
      moreover have "length ((i0, c0) # r0) div 4 = length r3 div 4 + 1" using q r2 by simp
      moreover have "length bs = length bs' + 3" using d(2) by simp
      ultimately show ?thesis by linarith
    qed
  qed
qed simp

lemma length_significant: "length (significant s) \<le> length s"
  unfolding significant_def by (rule order_trans [OF length_filter_le]) simp

text \<open>\<^verbatim>\<open>DecodedLen\<close> never underestimates what \<^verbatim>\<open>DecodeString\<close> returns.\<close>

lemma DecodeString_length:
  assumes "DecodeString s = Inr bs"
  shows "length bs \<le> DecodedLen (length s)"
proof -
  have "length bs \<le> length (significant s) div 4 * 3"
    using assms by (auto simp: DecodeString_def dest: decode_quanta_length)
  also have "\<dots> \<le> length s div 4 * 3"
    using length_significant [of s] by (simp add: div_le_mono)
  finally show ?thesis by (simp add: DecodedLen_def)
qed

lemma b64_val_char [simp]: "v < 64 \<Longrightarrow> b64_val (b64_char v) = Some v"
  by (auto simp: b64_val_def b64_char_def Let_def)

lemma b64_char_not_newline [simp]: "v < 64 \<Longrightarrow> \<not> is_newline (b64_char v)"
  by (auto simp: is_newline_def b64_char_def)

lemma of_char_parts [simp]:
  "(of_char c :: nat) div 4 < 64" "(of_char c :: nat) mod 4 * 16 < 64"
  "(of_char c :: nat) mod 4 * 16 + (of_char d :: nat) div 16 < 64"
  "(of_char c :: nat) mod 16 * 4 < 64" "(of_char c :: nat) mod 16 * 4 + (of_char d :: nat) div 64 < 64"
  "(of_char c :: nat) mod 64 < 64"
proof -
  have lt: "(of_char c :: nat) < 256" "(of_char d :: nat) < 256" by simp_all
  have m: "(of_char c :: nat) mod 4 < 4" "(of_char c :: nat) mod 16 < 16" by simp_all
  show "(of_char c :: nat) div 4 < 64" "(of_char c :: nat) mod 4 * 16 < 64"
    "(of_char c :: nat) mod 4 * 16 + (of_char d :: nat) div 16 < 64"
    "(of_char c :: nat) mod 16 * 4 < 64" "(of_char c :: nat) mod 16 * 4 + (of_char d :: nat) div 64 < 64"
    using lt m by linarith+
qed simp

lemma mixed_radix:
  fixes x y :: nat
  assumes "x < k" "0 < k"
  shows "(y * k + x) div k = y" "(y * k + x) mod k = x"
  using assms by simp_all

lemma split_parts:
  fixes x y z :: nat
  assumes "y < 256" "z < 256"
  shows "x div 4 * 4 + (x mod 4 * 16 + y div 16) div 16 = x"
    and "(x mod 4 * 16 + y div 16) mod 16 * 16 + (y mod 16 * 4 + z div 64) div 4 = y"
    and "(y mod 16 * 4 + z div 64) mod 4 * 64 + z mod 64 = z"
proof -
  have "y div 16 < 16" "z div 64 < 4" using assms by simp_all
  then have r: "(x mod 4 * 16 + y div 16) div 16 = x mod 4" "(x mod 4 * 16 + y div 16) mod 16 = y div 16"
      "(y mod 16 * 4 + z div 64) div 4 = y mod 16" "(y mod 16 * 4 + z div 64) mod 4 = z div 64"
    by (simp_all add: mixed_radix)
  show "x div 4 * 4 + (x mod 4 * 16 + y div 16) div 16 = x"
    "(x mod 4 * 16 + y div 16) mod 16 * 16 + (y mod 16 * 4 + z div 64) div 4 = y"
    "(y mod 16 * 4 + z div 64) mod 4 * 64 + z mod 64 = z"
    by (simp_all only: r div_mult_mod_eq)
qed

lemma bytes_of_parts:
  "byte0 (of_char a div 4) (of_char a mod 4 * 16 + of_char b div 16) = a"
  "byte0 (of_char a div 4) (of_char a mod 4 * 16) = a"
  "byte1 (of_char a mod 4 * 16 + of_char b div 16) (of_char b mod 16 * 4 + of_char c div 64) = b"
  "byte1 (of_char a mod 4 * 16 + of_char b div 16) (of_char b mod 16 * 4) = b"
  "byte2 (of_char b mod 16 * 4 + of_char c div 64) (of_char c mod 64) = c"
proof -
  have lt: "(of_char b :: nat) < 256" "(of_char c :: nat) < 256" "(0 :: nat) < 256" by simp_all
  note p = split_parts(1,2) [OF lt(1,2), of "of_char a"] split_parts(3) [OF lt(1,2)]
    split_parts(2) [OF lt(1,3), of "of_char a"] split_parts(1) [OF lt(3,3), of "of_char a"]
  show "byte0 (of_char a div 4) (of_char a mod 4 * 16 + of_char b div 16) = a"
    "byte1 (of_char a mod 4 * 16 + of_char b div 16) (of_char b mod 16 * 4 + of_char c div 64) = b"
    "byte2 (of_char b mod 16 * 4 + of_char c div 64) (of_char c mod 64) = c"
    by (simp_all only: byte0_def byte1_def byte2_def p char_of_char)
  show "byte0 (of_char a div 4) (of_char a mod 4 * 16) = a"
    "byte1 (of_char a mod 4 * 16 + of_char b div 16) (of_char b mod 16 * 4) = b"
    using p(4,5) by (simp_all add: byte0_def byte1_def)
qed

lemma b64_val_pad [simp]: "b64_val CHR ''='' = None"
  by (simp add: b64_val_def)

lemma decode_quanta_encode:
  "map snd cs = EncodeToString bs \<Longrightarrow> decode_quanta n cs = Inr bs"
proof (induction bs arbitrary: cs rule: EncodeToString.induct)
  case (2 a)
  then obtain i0 i1 i2 i3 where "cs = zip [i0, i1, i2, i3] (EncodeToString [a])"
    by (auto simp: map_eq_Cons_conv Let_def)
  then show ?case by (simp add: bytes_of_parts Let_def)
next
  case (3 a b)
  then obtain i0 i1 i2 i3 where "cs = zip [i0, i1, i2, i3] (EncodeToString [a, b])"
    by (auto simp: map_eq_Cons_conv Let_def)
  then show ?case by (simp add: bytes_of_parts Let_def)
next
  case (4 a b c bs)
  then obtain i0 c0 i1 c1 i2 c2 i3 c3 r3
    where cs: "cs = (i0, c0) # (i1, c1) # (i2, c2) # (i3, c3) # r3"
      and r3: "map snd r3 = EncodeToString bs"
      and c: "c0 = b64_char (of_char a div 4)" "c1 = b64_char (of_char a mod 4 * 16 + of_char b div 16)"
        "c2 = b64_char (of_char b mod 16 * 4 + of_char c div 64)" "c3 = b64_char (of_char c mod 64)"
    by (auto simp: map_eq_Cons_conv Let_def)
  from "4.IH" [OF refl refl refl r3] have "decode_quanta n r3 = Inr bs" .
  with cs c show ?case by (simp add: bytes_of_parts)
qed simp

lemma EncodeToString_no_newline: "c \<in> set (EncodeToString bs) \<Longrightarrow> \<not> is_newline c"
  by (induction bs rule: EncodeToString.induct) (auto simp: Let_def is_newline_def [of "CHR ''=''"])

lemma DecodeString_EncodeToString: "DecodeString (EncodeToString bs) = Inr bs"
proof -
  let ?s = "EncodeToString bs"
  have "significant ?s = zip [0..<length ?s] ?s"
    unfolding significant_def
    by (rule filter_True) (auto dest: set_zip_rightD EncodeToString_no_newline)
  then have "map snd (significant ?s) = ?s" by simp
  then show ?thesis unfolding DecodeString_def by (rule decode_quanta_encode)
qed

lemma EncodeToString_Nil_iff [simp]: "EncodeToString bs = [] \<longleftrightarrow> bs = []"
  by (cases bs rule: EncodeToString.cases) (simp_all add: Let_def)

end
