(* ===== verification/Civil.thy ===== *)
theory Civil
  imports Din_Prelude
begin

text \<open>
  The calendar of Go's \<^verbatim>\<open>time\<close> package as the program uses it: the year, month and day of an
  instant in UTC, for the layout of blob keys and timestamps, proved inverse to counting the
  days of a date.
\<close>

section \<open>Definitions\<close>

definition is_leap :: "int \<Rightarrow> bool" where
  "is_leap y \<longleftrightarrow> y mod 4 = 0 \<and> (y mod 100 \<noteq> 0 \<or> y mod 400 = 0)"

text \<open>Days before January 1 of year \<open>y\<close>, counted from January 1 of year 1.\<close>

definition year_start :: "int \<Rightarrow> int" where
  "year_start y = (let p = y - 1 in 365 * p + p div 4 - p div 100 + p div 400)"

definition month_lengths :: "int \<Rightarrow> int list" where
  "month_lengths y = [31, if is_leap y then 29 else 28, 31, 30, 31, 30, 31, 31, 30, 31, 30, 31]"

text \<open>The month (from 1) and day (from 1) of a day of the year (from 0).\<close>

fun month_day :: "int \<Rightarrow> int list \<Rightarrow> int \<Rightarrow> int \<times> int" where
  "month_day m [] n = (m, n + 1)"
| "month_day m (l # ls) n = (if n < l then (m, n + 1) else month_day (m + 1) ls (n - l))"

text \<open>The year that holds a day: an estimate from the mean length of a year, corrected.\<close>

definition year_of_day :: "int \<Rightarrow> int" where
  "year_of_day d =
     (let y = (d * 400) div 146097 + 1
      in if d < year_start y then y - 1 else if year_start (y + 1) \<le> d then y + 1 else y)"

definition day_number :: "go_time \<Rightarrow> int" where
  "day_number t = t div (24 * hour)"

definition civil :: "go_time \<Rightarrow> int \<times> int \<times> int" where
  "civil t = (let d = day_number t; y = year_of_day d
              in (y, month_day 1 (month_lengths y) (d - year_start y)))"

section \<open>Lemmas\<close>

lemma leap_count:
  "(c \<longrightarrow> b) \<Longrightarrow> (b \<longrightarrow> a) \<Longrightarrow>
     (if a then 1 else 0) - (if b then 1 else 0) + (if c then 1 else 0) =
     (if a \<and> (\<not> b \<or> c) then 1 else 0 :: int)"
  by (cases a; cases b; cases c) simp_all

lemma year_start_Suc: "year_start (y + 1) = year_start y + (if is_leap y then 366 else 365)"
proof -
  have step: "y div k = (y - 1) div k + (if y mod k = 0 then 1 else 0)" if "1 < k" for k :: int
  proof (cases "y mod k = 0")
    case True
    then obtain q where q: "y = k * q" by auto
    have "(k * q - 1) div k = q - 1"
      using that by (intro int_div_pos_eq [of _ _ _ "k - 1"]) (auto simp: algebra_simps)
    with q that True show ?thesis by simp
  next
    case False
    have "(y - 1) div k = y div k"
    proof (rule int_div_pos_eq [of _ _ _ "y mod k - 1"])
      have "0 \<le> y mod k" "y mod k < k" using that by simp_all
      with False show "0 \<le> y mod k - 1" "y mod k - 1 < k" by linarith+
      show "y - 1 = k * (y div k) + (y mod k - 1)" by simp
    qed
    with False show ?thesis by simp
  qed
  have dvd: "y mod 400 = 0 \<Longrightarrow> y mod 100 = 0" "y mod 100 = 0 \<Longrightarrow> y mod 4 = 0" by presburger+
  define f g i where "f k = y div k" and "g k = (y - 1) div k"
    and "i k = (if y mod k = 0 then 1 else 0 :: int)" for k
  have s: "year_start (y + 1) = 365 * y + f 4 - f 100 + f 400"
    "year_start y = 365 * (y - 1) + g 4 - g 100 + g 400"
    by (simp_all add: year_start_def f_def g_def Let_def)
  have "f 4 = g 4 + i 4" "f 100 = g 100 + i 100" "f 400 = g 400 + i 400"
    unfolding f_def g_def i_def by (rule step, simp)+
  moreover have "i 4 - i 100 + i 400 = (if is_leap y then 1 else 0)"
    unfolding is_leap_def i_def by (rule leap_count) (use dvd in blast)+
  ultimately show ?thesis unfolding s by (auto split: if_splits)
qed

lemma div_bounds: "0 < k \<Longrightarrow> k * (p div k) \<le> p \<and> p < k * (p div k) + k" for p k :: int
  using pos_mod_bound [of k p] pos_mod_sign [of k p] mult_div_mod_eq [of k p] by linarith

lemma year_start_bounds:
  "400 * year_start y \<le> 146097 * (y - 1) + 400 \<and> 146097 * (y - 1) - 800 \<le> 400 * year_start y"
proof -
  define p where "p = y - 1"
  have "year_start y = 365 * p + p div 4 - p div 100 + p div 400"
    by (simp add: year_start_def p_def Let_def)
  with div_bounds [of 4 p] div_bounds [of 100 p] div_bounds [of 400 p]
  show ?thesis unfolding p_def [symmetric] by linarith
qed

lemma year_of_day_bounds: "year_start (year_of_day d) \<le> d \<and> d < year_start (year_of_day d + 1)"
proof -
  define y where "y = (d * 400) div 146097 + 1"
  have e: "146097 * (y - 1) \<le> d * 400" "d * 400 < 146097 * y"
    using div_bounds [of 146097 "d * 400"] by (simp_all add: y_def algebra_simps)
  have "year_start (y - 1) \<le> d" using year_start_bounds [of "y - 1"] e by simp
  moreover have "d < year_start (y + 2)" using year_start_bounds [of "y + 2"] e by simp
  ultimately show ?thesis
    unfolding year_of_day_def y_def [symmetric] Let_def by (auto simp: add.assoc)
qed

lemma month_day_range:
  "0 \<le> n \<Longrightarrow> n < sum_list ls \<Longrightarrow> (\<And>l. l \<in> set ls \<Longrightarrow> 0 < l \<and> l \<le> 31) \<Longrightarrow> month_day m ls n = (m', d) \<Longrightarrow>
     m \<le> m' \<and> m' < m + int (length ls) \<and> 1 \<le> d \<and> d \<le> 31"
proof (induction m ls n rule: month_day.induct)
  case (2 m l ls n)
  show ?case
  proof (cases "n < l")
    case True
    moreover have "l \<le> 31" using "2.prems"(3) by simp
    ultimately show ?thesis using "2.prems"(1,4) by auto
  next
    case False
    with 2 have "m + 1 \<le> m' \<and> m' < m + 1 + int (length ls) \<and> 1 \<le> d \<and> d \<le> 31" by simp
    then show ?thesis by simp
  qed
qed simp

lemma sum_month_lengths: "sum_list (month_lengths y) = (if is_leap y then 366 else 365)"
  by (simp add: month_lengths_def)

lemma civil_range:
  assumes "civil t = (y, m, d)"
  shows "1 \<le> m \<and> m \<le> 12 \<and> 1 \<le> d \<and> d \<le> 31"
proof -
  let ?n = "day_number t - year_start (year_of_day (day_number t))"
  have y: "y = year_of_day (day_number t)" and md: "month_day 1 (month_lengths y) ?n = (m, d)"
    using assms by (auto simp: civil_def Let_def)
  have "0 \<le> ?n" "?n < sum_list (month_lengths y)"
    using year_of_day_bounds [of "day_number t"]
    by (simp_all add: y sum_month_lengths year_start_Suc)
  moreover have "0 < l \<and> l \<le> 31" if "l \<in> set (month_lengths y)" for l
    using that by (auto simp: month_lengths_def split: if_splits)
  ultimately have "1 \<le> m \<and> m < 1 + int (length (month_lengths y)) \<and> 1 \<le> d \<and> d \<le> 31"
    using month_day_range md by blast
  then show ?thesis by (simp add: month_lengths_def)
qed

end
