(* ===== verification/Split.thy ===== *)
theory Split
  imports Base64 Civil Interfaces
begin

text \<open>
  \<^verbatim>\<open>internal/split/split.go\<close>: moving oversized payloads to the object store. The store's
  \<^verbatim>\<open>PutObject\<close> is a field of the splitter, over an opaque store state; the clock and the fresh
  UUID are arguments of \<^verbatim>\<open>MaybeSplit\<close>.
\<close>

section \<open>Definitions\<close>

definition DefaultThreshold :: int where "DefaultThreshold = 2 ^ 20"
definition DefaultPrefix :: string where "DefaultPrefix = ''cloudevent/blobs/''"

record 's splitter =
  sp_put :: "string \<Rightarrow> bytes \<Rightarrow> 's \<Rightarrow> 's \<times> go_error option"
  sp_threshold :: int
  sp_prefix :: string

definition New :: "(string \<Rightarrow> bytes \<Rightarrow> 's \<Rightarrow> 's \<times> go_error option) \<Rightarrow> string \<Rightarrow> int \<Rightarrow> 's splitter" where
  "New put prefix threshold =
     \<lparr>sp_put = put,
      sp_threshold = (if threshold \<le> 0 then DefaultThreshold else threshold),
      sp_prefix = (if prefix = [] then DefaultPrefix else prefix)\<rparr>"

definition dataPayloadLen :: "raw_event \<Rightarrow> nat" where
  "dataPayloadLen ev =
     (if DataBase64 ev \<noteq> [] then DecodedLen (length (DataBase64 ev)) else length (Data ev))"

definition decodePayload :: "raw_event \<Rightarrow> bytes result" where
  "decodePayload ev =
     (if DataBase64 ev \<noteq> [] then DecodeString (DataBase64 ev) else Inr (Data ev))"

definition buildBlobKey :: "string \<Rightarrow> string \<Rightarrow> go_time \<Rightarrow> string \<Rightarrow> string" where
  "buildBlobKey prefix subject t uuid =
     (case civil t of (y, m, d) \<Rightarrow>
        prefix @ subject @ ''/'' @ show_int y @ ''/'' @ pad0 2 (show_int m) @ ''/''
        @ pad0 2 (show_int d) @ ''/'' @ uuid)"

definition inline_event :: "raw_event \<Rightarrow> stored_event" where
  "inline_event ev = \<lparr>RawEvent = ev, DataIndexKey = [], VoidsID = []\<rparr>"

definition MaybeSplit ::
  "'s splitter \<Rightarrow> go_time \<Rightarrow> string \<Rightarrow> raw_event \<Rightarrow> 's \<Rightarrow> 's \<times> stored_event result" where
  "MaybeSplit sp now uuid event s =
     (if int (dataPayloadLen event) \<le> sp_threshold sp then (s, Inr (inline_event event))
      else case decodePayload event of
        Inl e \<Rightarrow>
          (s, Inl (errorf (''decode data_base64 for event '' @ hID (Header event) @ '': '') e ''''))
      | Inr raw \<Rightarrow>
          (let key = buildBlobKey (sp_prefix sp) (hSubject (Header event)) now uuid
           in case sp_put sp key raw s of
                (s1, Some e) \<Rightarrow>
                  (s1, Inl (errorf (''put blob '' @ key @ '' for event '' @ hID (Header event) @ '': '') e ''''))
              | (s1, None) \<Rightarrow>
                  (s1, Inr \<lparr>RawEvent = \<lparr>Header = Header event, Data = [], DataBase64 = []\<rparr>,
                            DataIndexKey = key, VoidsID = []\<rparr>)))"

section \<open>Lemmas\<close>

text \<open>What a reader of the stored event gets as its payload.\<close>

definition resolve :: "(string \<Rightarrow> bytes option) \<Rightarrow> stored_event \<Rightarrow> bytes option" where
  "resolve blobs ev =
     (if DataIndexKey ev = []
      then (case decodePayload (RawEvent ev) of Inr b \<Rightarrow> Some b | Inl _ \<Rightarrow> None)
      else blobs (DataIndexKey ev))"

lemma New_prefix [simp]: "sp_prefix (New put prefix threshold) \<noteq> []"
  by (simp add: New_def DefaultPrefix_def)

lemma New_put [simp]: "sp_put (New put prefix threshold) = put"
  by (simp add: New_def)

lemma New_threshold: "0 < sp_threshold (New put prefix threshold)"
  by (simp add: New_def DefaultThreshold_def)

lemma buildBlobKey_nonempty: "buildBlobKey p s t u \<noteq> []"
  by (simp add: buildBlobKey_def split: prod.splits)

lemma dataPayloadLen_bound:
  "decodePayload ev = Inr b \<Longrightarrow> length b \<le> dataPayloadLen ev"
  by (auto simp: decodePayload_def dataPayloadLen_def DecodeString_length split: if_splits)

lemma MaybeSplit_cases:
  assumes "MaybeSplit sp now uuid ev s = (s', Inr sev)"
  obtains (inline) "int (dataPayloadLen ev) \<le> sp_threshold sp" "s' = s" "sev = inline_event ev"
  | (external) raw where "sp_threshold sp < int (dataPayloadLen ev)" "decodePayload ev = Inr raw"
      "sp_put sp (DataIndexKey sev) raw s = (s', None)"
      "DataIndexKey sev = buildBlobKey (sp_prefix sp) (hSubject (Header ev)) now uuid"
      "RawEvent sev = \<lparr>Header = Header ev, Data = [], DataBase64 = []\<rparr>" "VoidsID sev = []"
  using assms
  by (fastforce simp: MaybeSplit_def Let_def split: if_splits sum.splits prod.splits option.splits)

lemma MaybeSplit_header: "MaybeSplit sp now uuid ev s = (s', Inr sev) \<Longrightarrow> ev_header sev = Header ev"
  by (erule MaybeSplit_cases) (simp_all add: inline_event_def)

lemma MaybeSplit_voids: "MaybeSplit sp now uuid ev s = (s', Inr sev) \<Longrightarrow> VoidsID sev = []"
  by (erule MaybeSplit_cases) (simp_all add: inline_event_def)

text \<open>An event left inline has a payload within the threshold.\<close>

lemma MaybeSplit_inline_small:
  assumes "MaybeSplit sp now uuid ev s = (s', Inr sev)" "DataIndexKey sev = []"
    "decodePayload ev = Inr b"
  shows "sev = inline_event ev \<and> int (length b) \<le> sp_threshold sp"
  using assms(1)
proof (cases rule: MaybeSplit_cases)
  case inline
  then show ?thesis using dataPayloadLen_bound [OF assms(3)] by simp
next
  case (external raw)
  then show ?thesis using assms(2) by (metis buildBlobKey_nonempty)
qed

context object_store
begin

text \<open>Splitting loses no payload: the stored event resolves to what the event carried.\<close>

lemma split_resolves:
  assumes "ok s" "sp_put sp = put" "MaybeSplit sp now uuid ev s = (s', Inr sev)"
    "decodePayload ev = Inr b"
  shows "resolve (stored s') sev = Some b"
  using assms(3)
proof (cases rule: MaybeSplit_cases)
  case inline
  with assms(4) show ?thesis by (simp add: resolve_def inline_event_def)
next
  case (external raw)
  with assms(1,2,4) put_stored [of s "DataIndexKey sev" raw s'] buildBlobKey_nonempty
  show ?thesis by (simp add: resolve_def)
qed

lemma split_ok:
  assumes "ok s" "sp_put sp = put" "MaybeSplit sp now uuid ev s = (s', r)"
  shows "ok s'"
  using assms put_ok [OF assms(1)]
  by (auto simp: MaybeSplit_def Let_def split: if_splits sum.splits prod.splits option.splits)

text \<open>Splitting one event leaves the blobs of the others alone.\<close>

lemma split_keeps:
  assumes "ok s" "sp_put sp = put" "MaybeSplit sp now uuid ev s = (s', r)"
    "loc s k \<noteq> loc s (buildBlobKey (sp_prefix sp) (hSubject (Header ev)) now uuid)"
    "stored s k = Some v"
  shows "stored s' k = Some v"
  using assms put_keeps [OF assms(1) _ assms(4,5)]
  by (auto simp: MaybeSplit_def Let_def split: if_splits sum.splits prod.splits option.splits)

end

end
