(* ===== verification/Blobcrypt.thy ===== *)
theory Blobcrypt
  imports Base64 Interfaces
begin

text \<open>
  \<^verbatim>\<open>internal/blobcrypt\<close>: sealing blobs with AES-256-GCM and the store wrapper. The AEAD of
  Go's \<^verbatim>\<open>crypto/cipher\<close> is the record \<open>aead\<close>, the random source a function on its state.
\<close>

section \<open>The cipher\<close>

definition magic :: bytes where "magic = ''DBE1''"

record aead =
  NonceSize :: nat
  aeadSeal :: "bytes \<Rightarrow> bytes \<Rightarrow> bytes \<Rightarrow> bytes"
  aeadOpen :: "bytes \<Rightarrow> bytes \<Rightarrow> bytes \<Rightarrow> bytes result"

type_synonym 'r rng = "nat \<Rightarrow> 'r \<Rightarrow> 'r \<times> bytes result"

text \<open>\<^verbatim>\<open>NewCipher\<close>: no key is no cipher; the constructors of the block cipher and of GCM are one
  parameter each.\<close>

definition NewCipher ::
  "(bytes \<Rightarrow> 'b result) \<Rightarrow> ('b \<Rightarrow> aead result) \<Rightarrow> string \<Rightarrow> aead option result" where
  "NewCipher aes_NewCipher cipher_NewGCM b64Key =
     (if b64Key = [] then Inr None
      else case DecodeString b64Key of
        Inl e \<Rightarrow> Inl (errorf ''blobcrypt: BLOB_ENCRYPTION_KEY is not valid base64: '' e '''')
      | Inr key \<Rightarrow>
          if length key \<noteq> 32
          then Inl (errors_new (''blobcrypt: BLOB_ENCRYPTION_KEY must decode to 32 bytes (AES-256), got ''
                                @ show_nat (length key)))
          else case aes_NewCipher key of
            Inl e \<Rightarrow> Inl (errorf ''blobcrypt: '' e '''')
          | Inr block \<Rightarrow>
              (case cipher_NewGCM block of
                 Inl e \<Rightarrow> Inl (errorf ''blobcrypt: '' e '''')
               | Inr a \<Rightarrow> Inr (Some a)))"

definition Seal :: "aead \<Rightarrow> 'r rng \<Rightarrow> string \<Rightarrow> bytes \<Rightarrow> 'r \<Rightarrow> 'r \<times> bytes result" where
  "Seal c rng aad plaintext r =
     (case rng (NonceSize c) r of
        (r1, Inl e) \<Rightarrow> (r1, Inl (errorf ''blobcrypt: nonce: '' e ''''))
      | (r1, Inr nonce) \<Rightarrow> (r1, Inr (magic @ nonce @ aeadSeal c nonce plaintext aad)))"

definition IsSealed :: "bytes \<Rightarrow> bool" where
  "IsSealed b \<longleftrightarrow> length magic \<le> length b \<and> take (length magic) b = magic"

definition Open :: "aead \<Rightarrow> string \<Rightarrow> bytes \<Rightarrow> bytes result" where
  "Open c aad blob =
     (if \<not> IsSealed blob then Inr blob
      else let rest = drop (length magic) blob; ns = NonceSize c
           in if length rest < ns then Inl (errors_new ''blobcrypt: sealed blob too short'')
              else case aeadOpen c (take ns rest) (drop ns rest) aad of
                     Inl e \<Rightarrow> Inl (errorf (''blobcrypt: open '' @ fmt_q aad @ '': '') e '''')
                   | Inr pt \<Rightarrow> Inr pt)"

section \<open>The store wrapper\<close>

text \<open>The state of the wrapped store is that of the random source and that of the store below.\<close>

definition enc_PutObject ::
  "aead \<Rightarrow> 'r rng \<Rightarrow> (string \<Rightarrow> bytes \<Rightarrow> 's \<Rightarrow> 's \<times> go_error option)
     \<Rightarrow> string \<Rightarrow> bytes \<Rightarrow> 'r \<times> 's \<Rightarrow> ('r \<times> 's) \<times> go_error option" where
  "enc_PutObject c rng put key body st =
     (case Seal c rng key body (fst st) of
        (r1, Inl e) \<Rightarrow> ((r1, snd st), Some e)
      | (r1, Inr sealed) \<Rightarrow> (case put key sealed (snd st) of (s1, err) \<Rightarrow> ((r1, s1), err)))"

definition WrapStore ::
  "aead option \<Rightarrow> 'r rng \<Rightarrow> (string \<Rightarrow> bytes \<Rightarrow> 's \<Rightarrow> 's \<times> go_error option)
     \<Rightarrow> string \<Rightarrow> bytes \<Rightarrow> 'r \<times> 's \<Rightarrow> ('r \<times> 's) \<times> go_error option" where
  "WrapStore c rng put =
     (case c of
        None \<Rightarrow> (\<lambda>key body st. case put key body (snd st) of (s1, err) \<Rightarrow> ((fst st, s1), err))
      | Some a \<Rightarrow> enc_PutObject a rng put)"

section \<open>Lemmas\<close>

text \<open>The documented contract of an AEAD: opening what was sealed under the same nonce and
  additional data gives the plaintext, and nothing else opens. \<^verbatim>\<open>io.ReadFull\<close> fills its buffer.\<close>

definition aead_correct :: "aead \<Rightarrow> bool" where
  "aead_correct c \<longleftrightarrow>
     (\<forall>n p d. length n = NonceSize c \<longrightarrow> aeadOpen c n (aeadSeal c n p d) d = Inr p) \<and>
     (\<forall>n ct d p. length n = NonceSize c \<longrightarrow> aeadOpen c n ct d = Inr p \<longrightarrow> ct = aeadSeal c n p d)"

definition rng_full :: "'r rng \<Rightarrow> bool" where
  "rng_full rng \<longleftrightarrow> (\<forall>n r r' b. rng n r = (r', Inr b) \<longrightarrow> length b = n)"

lemma IsSealed_append [simp]: "IsSealed (magic @ b)"
  by (simp add: IsSealed_def)

lemma IsSealed_iff: "IsSealed b \<longleftrightarrow> has_prefix b magic"
  by (auto simp: IsSealed_def has_prefix_def magic_def dest: arg_cong [of _ _ length])

lemma Seal_sealed: "Seal c rng aad p r = (r', Inr blob) \<Longrightarrow> IsSealed blob"
  by (auto simp: Seal_def split: prod.splits sum.splits)

lemma Open_Seal:
  assumes "aead_correct c" "rng_full rng" "Seal c rng aad p r = (r', Inr blob)"
  shows "Open c aad blob = Inr p"
proof -
  obtain nonce where "rng (NonceSize c) r = (r', Inr nonce)"
    and b: "blob = magic @ nonce @ aeadSeal c nonce p aad"
    using assms(3) by (auto simp: Seal_def split: prod.splits sum.splits)
  with assms(2) have "length nonce = NonceSize c" by (auto simp: rng_full_def)
  with b assms(1) show ?thesis by (simp add: Open_def aead_correct_def)
qed

lemma Open_plain: "\<not> IsSealed blob \<Longrightarrow> Open c aad blob = Inr blob"
  by (simp add: Open_def)

lemma Open_sealedE:
  assumes "aead_correct c" "IsSealed blob" "Open c aad blob = Inr p"
  obtains nonce where "length nonce = NonceSize c" "blob = magic @ nonce @ aeadSeal c nonce p aad"
proof -
  let ?rest = "drop (length magic) blob"
  have blob: "blob = magic @ ?rest"
    using assms(2) by (auto simp: IsSealed_def intro: append_take_drop_id [symmetric, THEN trans])
  from assms(2,3) have "NonceSize c \<le> length ?rest"
    and o: "aeadOpen c (take (NonceSize c) ?rest) (drop (NonceSize c) ?rest) aad = Inr p"
    by (auto simp: Open_def Let_def split: if_splits sum.splits)
  then have "drop (NonceSize c) ?rest = aeadSeal c (take (NonceSize c) ?rest) p aad"
    and n: "length (take (NonceSize c) ?rest) = NonceSize c"
    using assms(1) by (auto simp: aead_correct_def)
  then have "blob = magic @ take (NonceSize c) ?rest @ aeadSeal c (take (NonceSize c) ?rest) p aad"
    using blob by (metis append_take_drop_id)
  with n show ?thesis by (rule that)
qed

text \<open>What a reader with the same key gets at a key of the wrapped store.\<close>

definition opened :: "aead option \<Rightarrow> ('s \<Rightarrow> string \<Rightarrow> bytes option) \<Rightarrow> 'r \<times> 's \<Rightarrow> string \<Rightarrow> bytes option" where
  "opened c stored st k =
     (case stored (snd st) k of
        None \<Rightarrow> None
      | Some b \<Rightarrow>
          (case c of
             None \<Rightarrow> Some b
           | Some a \<Rightarrow> (case Open a k b of Inl e \<Rightarrow> None | Inr p \<Rightarrow> Some p)))"

definition wrap_ok :: "aead option \<Rightarrow> 'r rng \<Rightarrow> ('s \<Rightarrow> bool) \<Rightarrow> 'r \<times> 's \<Rightarrow> bool" where
  "wrap_ok c rng ok st \<longleftrightarrow>
     ok (snd st) \<and> (case c of None \<Rightarrow> True | Some a \<Rightarrow> aead_correct a \<and> rng_full rng)"

lemma WrapStore_cases:
  assumes "WrapStore c rng put k b st = (st', r)"
  obtains (passthrough) "c = None" "put k b (snd st) = (snd st', r)"
  | (no_nonce) a e where "c = Some a" "Seal a rng k b (fst st) = (fst st', Inl e)" "r = Some e"
      "snd st' = snd st"
  | (sealed) a blob where "c = Some a" "Seal a rng k b (fst st) = (fst st', Inr blob)"
      "put k blob (snd st) = (snd st', r)"
  using assms
  by (fastforce simp: WrapStore_def enc_PutObject_def split: option.splits prod.splits sum.splits)

text \<open>A store wrapped with a cipher is a store again, read through the cipher.\<close>

locale sealable_store = object_store put stored loc ok
  for put :: "string \<Rightarrow> bytes \<Rightarrow> 's \<Rightarrow> 's \<times> go_error option"
    and stored :: "'s \<Rightarrow> string \<Rightarrow> bytes option" and loc :: "'s \<Rightarrow> string \<Rightarrow> 'l" and ok +
  fixes c :: "aead option" and rng :: "'r rng"

sublocale sealable_store \<subseteq> wrapped: object_store "WrapStore c rng put" "opened c stored"
    "\<lambda>st. loc (snd st)" "wrap_ok c rng ok"
proof unfold_locales
  fix st :: "'r \<times> 's" and k b st' r k' v
  assume ok: "wrap_ok c rng ok st"
  then have base: "ok (snd st)" by (simp add: wrap_ok_def)
  show "opened c stored st' k = Some b" if "WrapStore c rng put k b st = (st', None)"
    using that
  proof (cases rule: WrapStore_cases)
    case passthrough
    then show ?thesis using put_stored [OF base] by (simp add: opened_def)
  next
    case (sealed a blob)
    with ok have "Open a k blob = Inr b" by (auto simp: wrap_ok_def intro: Open_Seal)
    with sealed put_stored [OF base sealed(3)] show ?thesis by (simp add: opened_def)
  qed simp
  assume w: "WrapStore c rng put k b st = (st', r)"
  show "opened c stored st' k' = Some v"
    if "loc (snd st) k' \<noteq> loc (snd st) k" "opened c stored st k' = Some v"
  proof -
    from that(2) obtain b' where b': "stored (snd st) k' = Some b'"
      by (auto simp: opened_def split: option.splits)
    have "stored (snd st') k' = Some b'"
      using w by (cases rule: WrapStore_cases) (auto simp: b' dest: put_keeps [OF base _ that(1) b'])
    with b' that(2) show ?thesis by (simp add: opened_def)
  qed
  show "wrap_ok c rng ok st'"
    using w by (cases rule: WrapStore_cases) (use ok in \<open>auto simp: wrap_ok_def dest: put_ok [OF base]\<close>)
  show "loc (snd st') = loc (snd st)"
    using w by (cases rule: WrapStore_cases) (auto dest: put_loc [OF base])
qed

end
