(* ===== verification/Fsstore.thy ===== *)
theory Fsstore
  imports Split Blobcrypt
begin

text \<open>
  \<^verbatim>\<open>internal/fsstore/fsstore.go\<close>: the object store on a local directory. The calls of package
  \<^verbatim>\<open>os\<close> are the record \<open>os_ops\<close> over an opaque state; \<^verbatim>\<open>filepath.Join\<close>, \<^verbatim>\<open>Clean\<close> and \<^verbatim>\<open>Dir\<close> are
  computed, for the absolute paths the store uses.
\<close>

section \<open>Paths\<close>

fun intercalate :: "string \<Rightarrow> string list \<Rightarrow> string" where
  "intercalate sep [] = []"
| "intercalate sep [x] = x"
| "intercalate sep (x # y # ys) = x @ sep @ intercalate sep (y # ys)"

lemma intercalate_append:
  "xs \<noteq> [] \<Longrightarrow> ys \<noteq> [] \<Longrightarrow> intercalate sep (xs @ ys) = intercalate sep xs @ sep @ intercalate sep ys"
  by (induction sep xs rule: intercalate.induct) (auto simp: neq_Nil_conv)

definition clean_step :: "string list \<Rightarrow> string \<Rightarrow> string list" where
  "clean_step acc c =
     (if c = [] \<or> c = ''.'' then acc else if c = ''..'' then butlast acc else acc @ [c])"

text \<open>The components of \<^verbatim>\<open>filepath.Clean\<close> of a rooted path.\<close>

definition clean_comps :: "string \<Rightarrow> string list" where
  "clean_comps p = foldl clean_step [] (split_on CHR ''/'' p)"

definition rooted :: "string list \<Rightarrow> string" where
  "rooted cs = ''/'' @ intercalate ''/'' cs"

definition filepath_Join :: "string \<Rightarrow> string \<Rightarrow> string" where
  "filepath_Join root key =
     rooted (clean_comps (if key = [] then root else root @ ''/'' @ key))"

definition filepath_Dir :: "string \<Rightarrow> string" where
  "filepath_Dir p = rooted (butlast (clean_comps p))"

definition filepath_IsAbs :: "string \<Rightarrow> bool" where
  "filepath_IsAbs p \<longleftrightarrow> has_prefix p ''/''"

section \<open>The store\<close>

definition tempPrefix :: string where "tempPrefix = ''.tmp-''"

record 'o os_ops =
  MkdirAll :: "string \<Rightarrow> 'o \<Rightarrow> 'o \<times> go_error option"
  CreateTemp :: "string \<Rightarrow> string \<Rightarrow> 'o \<Rightarrow> 'o \<times> string result"
  WriteFile :: "string \<Rightarrow> bytes \<Rightarrow> 'o \<Rightarrow> 'o \<times> go_error option"
  SyncFile :: "string \<Rightarrow> 'o \<Rightarrow> 'o \<times> go_error option"
  CloseFile :: "string \<Rightarrow> 'o \<Rightarrow> 'o \<times> go_error option"
  Chmod :: "string \<Rightarrow> 'o \<Rightarrow> 'o \<times> go_error option"
  RenameFile :: "string \<Rightarrow> string \<Rightarrow> 'o \<Rightarrow> 'o \<times> go_error option"
  RemoveFile :: "string \<Rightarrow> 'o \<Rightarrow> 'o \<times> go_error option"
  OpenDir :: "string \<Rightarrow> 'o \<Rightarrow> 'o \<times> go_error option"

record 'o fs_client =
  fs_root :: string
  fs_ops :: "'o os_ops"
  fs_state :: 'o

definition New_fsstore :: "'o os_ops \<Rightarrow> string \<Rightarrow> 'o \<Rightarrow> 'o \<times> 'o fs_client result" where
  "New_fsstore ops root o0 =
     (if \<not> filepath_IsAbs root
      then (o0, Inl (errors_new (''fsstore root must be an absolute path, got '' @ fmt_q root)))
      else case MkdirAll ops root o0 of
             (o1, Some e) \<Rightarrow> (o1, Inl (errorf ''creating fsstore root: '' e ''''))
           | (o1, None) \<Rightarrow> (o1, Inr \<lparr>fs_root = root, fs_ops = ops, fs_state = o1\<rparr>))"

definition fs_path :: "'o fs_client \<Rightarrow> string \<Rightarrow> string" where
  "fs_path c key = filepath_Join (fs_root c) key"

definition cleanup :: "'o os_ops \<Rightarrow> string \<Rightarrow> 'o \<Rightarrow> 'o" where
  "cleanup ops tmpName o0 = fst (RemoveFile ops tmpName (fst (CloseFile ops tmpName o0)))"

text \<open>\<^verbatim>\<open>PutObject\<close> from the temporary file on: write, sync, close, chmod, rename. The directory
  sync at the end is best effort.\<close>

definition put_steps ::
  "'o os_ops \<Rightarrow> string \<Rightarrow> string \<Rightarrow> string \<Rightarrow> string \<Rightarrow> bytes \<Rightarrow> 'o \<Rightarrow> 'o \<times> go_error option" where
  "put_steps ops key dir target tmpName body o2 =
     (case WriteFile ops tmpName body o2 of
        (o3, Some e) \<Rightarrow> (cleanup ops tmpName o3, Some (errorf (''writing '' @ key @ '': '') e ''''))
      | (o3, None) \<Rightarrow>
     (case SyncFile ops tmpName o3 of
        (o4, Some e) \<Rightarrow> (cleanup ops tmpName o4, Some (errorf (''syncing '' @ key @ '': '') e ''''))
      | (o4, None) \<Rightarrow>
     (case CloseFile ops tmpName o4 of
        (o5, Some e) \<Rightarrow> (fst (RemoveFile ops tmpName o5), Some (errorf (''closing '' @ key @ '': '') e ''''))
      | (o5, None) \<Rightarrow>
     (case Chmod ops tmpName o5 of
        (o6, Some e) \<Rightarrow> (fst (RemoveFile ops tmpName o6), Some (errorf (''setting mode for '' @ key @ '': '') e ''''))
      | (o6, None) \<Rightarrow>
     (case RenameFile ops tmpName target o6 of
        (o7, Some e) \<Rightarrow> (fst (RemoveFile ops tmpName o7), Some (errorf (''publishing '' @ key @ '': '') e ''''))
      | (o7, None) \<Rightarrow> (fst (OpenDir ops dir o7), None))))))"

definition PutObject ::
  "string \<Rightarrow> bytes \<Rightarrow> 'o fs_client \<Rightarrow> 'o fs_client \<times> go_error option" where
  "PutObject key body c =
     (let ops = fs_ops c; target = fs_path c key; dir = filepath_Dir target
      in case MkdirAll ops dir (fs_state c) of
           (o1, Some e) \<Rightarrow>
             (c\<lparr>fs_state := o1\<rparr>, Some (errorf (''creating directories for '' @ key @ '': '') e ''''))
         | (o1, None) \<Rightarrow>
             (case CreateTemp ops dir (tempPrefix @ ''*'') o1 of
                (o2, Inl e) \<Rightarrow>
                  (c\<lparr>fs_state := o2\<rparr>, Some (errorf (''creating temp file for '' @ key @ '': '') e ''''))
              | (o2, Inr tmpName) \<Rightarrow>
                  (case put_steps ops key dir target tmpName body o2 of
                     (o3, err) \<Rightarrow> (c\<lparr>fs_state := o3\<rparr>, err))))"

section \<open>The file system\<close>

text \<open>The documented behaviour of the calls, on the view \<open>file\<close> of the contents of files: a
  temporary file is new and its name is made from the pattern, a write appends to its file, a
  rename moves it in one step or not at all, the rest changes no contents. A call that fails
  may only have touched the file it was given.\<close>

definition is_temp :: "string \<Rightarrow> bool" where
  "is_temp p \<longleftrightarrow> (\<exists>d r. p = d @ ''/'' @ tempPrefix @ r \<and> CHR ''/'' \<notin> set r)"

definition quiet :: "('o \<Rightarrow> string \<Rightarrow> bytes option) \<Rightarrow> ('o \<Rightarrow> 'o \<times> 'r) \<Rightarrow> bool" where
  "quiet file f \<longleftrightarrow> (\<forall>s. file (fst (f s)) = file s)"

definition only_at :: "('o \<Rightarrow> string \<Rightarrow> bytes option) \<Rightarrow> string \<Rightarrow> ('o \<Rightarrow> 'o \<times> 'r) \<Rightarrow> bool" where
  "only_at file t f \<longleftrightarrow> (\<forall>s p. p \<noteq> t \<longrightarrow> file (fst (f s)) p = file s p)"

definition posix_files :: "'o os_ops \<Rightarrow> ('o \<Rightarrow> string \<Rightarrow> bytes option) \<Rightarrow> bool" where
  "posix_files ops file \<longleftrightarrow>
     (\<forall>p. quiet file (MkdirAll ops p) \<and> quiet file (SyncFile ops p) \<and> quiet file (CloseFile ops p)
        \<and> quiet file (Chmod ops p) \<and> quiet file (OpenDir ops p)
        \<and> only_at file p (RemoveFile ops p) \<and> (\<forall>b. only_at file p (WriteFile ops p b))) \<and>
     (\<forall>d s s' e. CreateTemp ops d (tempPrefix @ ''*'') s = (s', Inl e) \<longrightarrow> file s' = file s) \<and>
     (\<forall>d s s' t. CreateTemp ops d (tempPrefix @ ''*'') s = (s', Inr t) \<longrightarrow>
        is_temp t \<and> file s t = None \<and> file s' = (file s)(t \<mapsto> [])) \<and>
     (\<forall>t b s s'. WriteFile ops t b s = (s', None) \<longrightarrow>
        file s' t = map_option (\<lambda>x. x @ b) (file s t)) \<and>
     (\<forall>t u s s'. RenameFile ops t u s = (s', None) \<longrightarrow>
        file s' = (file s)(t := None, u := file s t)) \<and>
     (\<forall>t u s s' e. RenameFile ops t u s = (s', Some e) \<longrightarrow> file s' = file s)"

lemma quietD: "quiet file f \<Longrightarrow> f s = (s', r) \<Longrightarrow> file s' = file s"
  by (metis fst_conv quiet_def)

lemma only_atD: "only_at file t f \<Longrightarrow> f s = (s', r) \<Longrightarrow> p \<noteq> t \<Longrightarrow> file s' p = file s p"
  by (metis fst_conv only_at_def)

lemma posix_quiet:
  assumes "posix_files ops file"
  shows "MkdirAll ops d s = (s', r) \<Longrightarrow> file s' = file s"
    and "SyncFile ops t s = (s', r) \<Longrightarrow> file s' = file s"
    and "CloseFile ops t s = (s', r) \<Longrightarrow> file s' = file s"
    and "Chmod ops t s = (s', r) \<Longrightarrow> file s' = file s"
    and "OpenDir ops d s = (s', r) \<Longrightarrow> file s' = file s"
    and "CreateTemp ops d (tempPrefix @ ''*'') s = (s', Inl e) \<Longrightarrow> file s' = file s"
    and "RenameFile ops t u s = (s', Some e) \<Longrightarrow> file s' = file s"
  using assms unfolding posix_files_def by (metis quietD)+

lemma posix_change:
  assumes "posix_files ops file"
  shows "CreateTemp ops d (tempPrefix @ ''*'') s = (s', Inr t) \<Longrightarrow>
      is_temp t \<and> file s t = None \<and> file s' = (file s)(t \<mapsto> [])"
    and "WriteFile ops t b s = (s', None) \<Longrightarrow> file s' t = map_option (\<lambda>x. x @ b) (file s t)"
    and "WriteFile ops t b s = (s', q) \<Longrightarrow> p \<noteq> t \<Longrightarrow> file s' p = file s p"
    and "RenameFile ops t u s = (s', None) \<Longrightarrow> file s' = (file s)(t := None, u := file s t)"
    and "RemoveFile ops t s = (s', r) \<Longrightarrow> p \<noteq> t \<Longrightarrow> file s' p = file s p"
  using assms unfolding posix_files_def by (metis only_atD)+

lemma posix_fst:
  assumes "posix_files ops file"
  shows "file (fst (OpenDir ops d s)) = file s" "file (fst (CloseFile ops t s)) = file s"
    "p \<noteq> t \<Longrightarrow> file (fst (RemoveFile ops t s)) p = file s p"
    "p \<noteq> t \<Longrightarrow> file (cleanup ops t s) p = file s p"
proof -
  show d: "file (fst (OpenDir ops d s)) = file s" "file (fst (CloseFile ops t s)) = file s" for s
    using posix_quiet(3,5) [OF assms] by (metis prod.collapse)+
  show r: "p \<noteq> t \<Longrightarrow> file (fst (RemoveFile ops t s)) p = file s p" for s
    using posix_change(5) [OF assms] by (metis prod.collapse)
  show "p \<noteq> t \<Longrightarrow> file (cleanup ops t s) p = file s p"
    by (simp add: cleanup_def r d)
qed

lemma put_steps_success:
  assumes P: "posix_files ops file" and "file s t = Some []"
    "put_steps ops key dir target t body s = (s', None)"
  shows "file s' = (file s)(t := None, target \<mapsto> body)"
proof -
  from assms(3) obtain s3 s4 s5 s6 s7 where
    "WriteFile ops t body s = (s3, None)" "SyncFile ops t s3 = (s4, None)"
    "CloseFile ops t s4 = (s5, None)" "Chmod ops t s5 = (s6, None)"
    "RenameFile ops t target s6 = (s7, None)" "s' = fst (OpenDir ops dir s7)"
    by (auto simp: put_steps_def split: prod.splits option.splits)
  then show ?thesis
    using assms(2) posix_change(2,3,4) [OF P] posix_quiet(2,3,4) [OF P] posix_fst(1) [OF P]
    by (fastforce simp: fun_eq_iff)
qed

lemma put_steps_failure:
  assumes P: "posix_files ops file" and "put_steps ops key dir target t body s = (s', Some e)" "p \<noteq> t"
  shows "file s' p = file s p"
proof -
  have w: "file s3 p = file s p" if "WriteFile ops t body s = (s3, r)" for s3 r
    using that posix_change(3) [OF P] assms(3) by blast
  show ?thesis using assms(2,3)
    by (auto simp: put_steps_def posix_fst [OF P] dest!: w posix_quiet(2,3,4,7) [OF P]
        split: prod.splits option.splits)
qed

lemma PutObject_config:
  "PutObject k b c = (c', r) \<Longrightarrow> fs_root c' = fs_root c \<and> fs_ops c' = fs_ops c"
  by (auto simp: PutObject_def Let_def split: prod.splits option.splits sum.splits)

lemma PutObject_success:
  assumes P: "posix_files (fs_ops c) file" and "PutObject k b c = (c', None)"
  shows "file (fs_state c') = (file (fs_state c))(fs_path c k \<mapsto> b)"
proof -
  from assms(2) obtain o1 o2 t o3 dir where
    o: "MkdirAll (fs_ops c) dir (fs_state c) = (o1, None)"
      "CreateTemp (fs_ops c) dir (tempPrefix @ ''*'') o1 = (o2, Inr t)"
      "put_steps (fs_ops c) k dir (fs_path c k) t b o2 = (o3, None)" "fs_state c' = o3"
    by (auto simp: PutObject_def Let_def split: prod.splits option.splits sum.splits)
  then have "file o1 t = None" "file o2 = (file o1)(t \<mapsto> [])" "file o1 = file (fs_state c)"
    using posix_change(1) [OF P] posix_quiet(1) [OF P] by blast+
  with put_steps_success [OF P _ o(3)] o(4) show ?thesis by (auto simp: fun_eq_iff)
qed

text \<open>A failed put leaves every file but a temporary one as it was: no partial object.\<close>

lemma PutObject_failure:
  assumes P: "posix_files (fs_ops c) file" and "PutObject k b c = (c', Some e)" "\<not> is_temp p"
  shows "file (fs_state c') p = file (fs_state c) p"
proof -
  have t: "is_temp t \<and> file o2 p = file o1 p"
    if "CreateTemp (fs_ops c) dir (tempPrefix @ ''*'') o1 = (o2, Inr t)" for dir o1 o2 t
    using posix_change(1) [OF P that] assms(3) by auto
  show ?thesis using assms(2,3)
    by (auto simp: PutObject_def Let_def dest!: t posix_quiet(1,6) [OF P]
        put_steps_failure [OF P, where p = p] split: prod.splits option.splits sum.splits)
qed

definition fs_stored :: "('o \<Rightarrow> string \<Rightarrow> bytes option) \<Rightarrow> 'o fs_client \<Rightarrow> string \<Rightarrow> bytes option" where
  "fs_stored file c k = file (fs_state c) (fs_path c k)"

text \<open>A put touches the target and one fresh temporary file, so whatever was stored elsewhere
  is still there.\<close>

lemma PutObject_keeps:
  assumes P: "posix_files (fs_ops c) file" and "PutObject k b c = (c', r)" "p \<noteq> fs_path c k"
    "file (fs_state c) p = Some v"
  shows "file (fs_state c') p = Some v"
proof (cases r)
  case None
  with PutObject_success [OF P] assms show ?thesis by simp
next
  case (Some e)
  obtain o1 m where m: "MkdirAll (fs_ops c) (filepath_Dir (fs_path c k)) (fs_state c) = (o1, m)"
    by (cases "MkdirAll (fs_ops c) (filepath_Dir (fs_path c k)) (fs_state c)")
  obtain o2 x where x: "CreateTemp (fs_ops c) (filepath_Dir (fs_path c k)) (tempPrefix @ ''*'') o1 = (o2, x)"
    by (cases "CreateTemp (fs_ops c) (filepath_Dir (fs_path c k)) (tempPrefix @ ''*'') o1")
  have o1: "file o1 p = Some v" using posix_quiet(1) [OF P m] assms(4) by simp
  show ?thesis
  proof (cases x)
    case (Inl e')
    with posix_quiet(6) [OF P x [unfolded Inl]] o1 m x assms(2) show ?thesis
      using posix_quiet(1) [OF P m] assms(4)
      by (auto simp: PutObject_def Let_def split: option.splits)
  next
    case (Inr t)
    from posix_change(1) [OF P x [unfolded Inr]] o1 have "p \<noteq> t" "file o2 p = Some v" by auto
    with m x Inr assms(2) Some o1 show ?thesis
      by (auto simp: PutObject_def Let_def dest!: put_steps_failure [OF P, where p = p]
          split: prod.splits option.splits)
  qed
qed

interpretation fs_store: object_store PutObject "fs_stored view" fs_path
    "\<lambda>c. posix_files (fs_ops c) view" for view
proof unfold_locales
  fix c :: "'a fs_client" and k b c' r k' v
  assume P: "posix_files (fs_ops c) view"
  show "fs_stored view c' k = Some b" if "PutObject k b c = (c', None)"
    using PutObject_success [OF P that] PutObject_config [OF that]
    by (simp add: fs_stored_def fs_path_def)
  assume w: "PutObject k b c = (c', r)"
  then show "posix_files (fs_ops c') view" "fs_path c' = fs_path c"
    using P PutObject_config [OF w] by (simp_all add: fs_path_def fun_eq_iff)
  then show "fs_stored view c' k' = Some v"
    if "fs_path c k' \<noteq> fs_path c k" "fs_stored view c k' = Some v"
    using PutObject_keeps [OF P w that(1)] that(2) by (simp add: fs_stored_def)
qed

text \<open>The store the program wires: the filesystem, sealed when a key is configured.\<close>

interpretation fs_sealable: sealable_store PutObject "fs_stored view" fs_path
    "\<lambda>c. posix_files (fs_ops c) view" c rng for view c rng
  by unfold_locales

section \<open>Paths stay below the root\<close>

lemma foldl_clean_no_dotdot:
  "''..'' \<notin> set cs \<Longrightarrow> foldl clean_step acc cs = acc @ filter (\<lambda>c. c \<noteq> [] \<and> c \<noteq> ''.'') cs"
  by (induction cs arbitrary: acc) (auto simp: clean_step_def)

lemma split_on_append_slash:
  "split_on c (a @ c # b) = split_on c a @ split_on c b"
  by (induction a) (auto split: list.splits)

lemma fs_path_contained:
  assumes "''..'' \<notin> set (split_on CHR ''/'' key)"
  shows "\<exists>below. fs_path c key = rooted (clean_comps (fs_root c) @ below)"
proof (cases "key = []")
  case False
  have "clean_comps (fs_root c @ ''/'' @ key) =
      foldl clean_step (clean_comps (fs_root c)) (split_on CHR ''/'' key)"
    using split_on_append_slash [of "CHR ''/''" "fs_root c" key] by (simp add: clean_comps_def)
  then show ?thesis using False foldl_clean_no_dotdot [OF assms]
    by (auto simp: fs_path_def filepath_Join_def)
qed (auto simp: fs_path_def filepath_Join_def intro: exI [of _ "[]"])

end
