(* ===== verification/Convert.thy ===== *)
theory Convert
  imports CloudEvent "HOL-Library.AList"
begin

text \<open>
  \<^verbatim>\<open>internal/convert\<close> (\<^verbatim>\<open>convert.go\<close>, \<^verbatim>\<open>connection.go\<close>) and \<^verbatim>\<open>internal/fpvalidate\<close>: validating
  connection payloads and rewriting their headers to canonical form. The clock is an argument:
  one reading stands for the readings of one call. The package variable
  \<^verbatim>\<open>allowableTimeSkew\<close> is an argument too, set once by \<^verbatim>\<open>SetAllowableTimeSkew\<close>. The Go code
  mutates the header it is given; the model returns it, and only where there is no error, since
  every caller discards the header with the error.
\<close>

section \<open>convert.go\<close>

definition MaxHeaderBytes :: nat where "MaxHeaderBytes = 8 * 1024"
definition defaultSkew :: duration where "defaultSkew = minute * 5"

definition allowedContentTypes :: "string list" where
  "allowedContentTypes = [''application/json'', ''image/png'', ''image/jpeg'', ''application/pdf'']"

definition SetAllowableTimeSkew :: "duration \<Rightarrow> duration \<Rightarrow> duration" where
  "SetAllowableTimeSkew d allowableTimeSkew = (if 0 < d then d else allowableTimeSkew)"

definition identifier_byte :: "nat \<Rightarrow> bool" where
  "identifier_byte c \<longleftrightarrow> (97 \<le> c \<and> c \<le> 122) \<or> (65 \<le> c \<and> c \<le> 90) \<or> (48 \<le> c \<and> c \<le> 57)
     \<or> c = 45 \<or> c = 95 \<or> c = 47 \<or> c = 44 \<or> c = 46 \<or> c = 32 \<or> c = 58"

fun scan_identifier :: "string \<Rightarrow> bool" where
  "scan_identifier [] = True"
| "scan_identifier (c # s) = (if identifier_byte (of_char c) then scan_identifier s else False)"

definition ValidIdentifier :: "string \<Rightarrow> bool" where
  "ValidIdentifier str = (if str = [] then False else scan_identifier str)"

definition IsFutureTimestamp :: "duration \<Rightarrow> go_time \<Rightarrow> go_time \<Rightarrow> bool" where
  "IsFutureTimestamp allowableTimeSkew now ts \<longleftrightarrow> now + allowableTimeSkew < ts"

text \<open>\<open>validation_error m\<close> is \<^verbatim>\<open>fmt.Errorf("%w: ...", ErrValidation, ...)\<close>.\<close>

definition validation_error :: "string \<Rightarrow> go_error" where
  "validation_error m = errorf '''' (sentinel_error ErrValidation) ('': '' @ m)"

definition validateAndSetContentType :: "ce_header \<Rightarrow> bool \<Rightarrow> ce_header result" where
  "validateAndSetContentType event isBase64 =
     (let listed = (\<lambda>ev. if hDataContentType ev \<in> set allowedContentTypes then Inr ev
            else Inl (validation_error (''datacontenttype '' @ fmt_q (hDataContentType ev)
                                        @ '' is not in the allowed list'')))
      in if isBase64 then
           (if hDataContentType event = []
            then Inl (validation_error ''datacontenttype is required for data_base64 events'')
            else listed event)
         else
           (let ev1 = (if hDataContentType event = []
                       then event\<lparr>hDataContentType := ''application/json''\<rparr> else event)
            in if hDataContentType ev1 \<noteq> ''application/json''
               then Inl (validation_error (''datacontenttype '' @ fmt_q (hDataContentType ev1)
                      @ '' is not allowed for data events: must be application/json''))
               else listed ev1))"

definition set_defaults :: "ce_header \<Rightarrow> string \<Rightarrow> string \<Rightarrow> go_time \<Rightarrow> ce_header" where
  "set_defaults event source defaultID now =
     (let e1 = event\<lparr>hSource := source\<rparr>;
          e2 = (if hSubject e1 = [] then e1\<lparr>hSubject := hProducer e1\<rparr> else e1);
          e3 = (if hTime e2 = 0 then e2\<lparr>hTime := now\<rparr> else e2);
          e4 = (if hID e3 = [] then e3\<lparr>hID := defaultID\<rparr> else e3)
      in if hSpecVersion e4 = [] then e4\<lparr>hSpecVersion := ''1.0''\<rparr> else e4)"

text \<open>The identifier checks in their order: \<open>None\<close> when all pass.\<close>

definition check_identifiers :: "ce_header \<Rightarrow> go_error option" where
  "check_identifiers ev =
     (if \<not> ValidIdentifier (hID ev) then Some (validation_error (''invalid id: '' @ hID ev))
      else if \<not> ValidIdentifier (hSpecVersion ev)
        then Some (validation_error (''invalid specversion: '' @ hSpecVersion ev))
      else if \<not> ValidIdentifier (hDataContentType ev)
        then Some (validation_error (''invalid data content type: '' @ hDataContentType ev))
      else if hDataSchema ev \<noteq> [] \<and> \<not> ValidIdentifier (hDataSchema ev)
        then Some (validation_error (''invalid data schema: '' @ hDataSchema ev))
      else if hDataVersion ev \<noteq> [] \<and> \<not> ValidIdentifier (hDataVersion ev)
        then Some (validation_error (''invalid data version: '' @ hDataVersion ev))
      else if hType ev \<noteq> [] \<and> \<not> ValidIdentifier (hType ev)
        then Some (validation_error (''invalid data type: '' @ hType ev))
      else if hSubject ev \<noteq> [] \<and> \<not> ValidIdentifier (hSubject ev)
        then Some (validation_error (''invalid subject: '' @ hSubject ev))
      else if hProducer ev \<noteq> [] \<and> \<not> ValidIdentifier (hProducer ev)
        then Some (validation_error (''invalid producer: '' @ hProducer ev))
      else None)"

definition ValidateHeadersAndSetDefaults ::
  "ce_lib \<Rightarrow> go_time \<Rightarrow> ce_header \<Rightarrow> string \<Rightarrow> string \<Rightarrow> bool \<Rightarrow> ce_header result" where
  "ValidateHeadersAndSetDefaults L now event source defaultID isBase64 =
     (case validateAndSetContentType (set_defaults event source defaultID now) isBase64 of
        Inl e \<Rightarrow> Inl e
      | Inr ev \<Rightarrow>
         (case check_identifiers ev of
            Some e \<Rightarrow> Inl e
          | None \<Rightarrow>
             (case HeaderJSON L ev of
                Inl e \<Rightarrow> Inl (errorf ''failed to marshal header for size check: '' e '''')
              | Inr b \<Rightarrow>
                 if MaxHeaderBytes < length b
                 then Inl (validation_error (''header size '' @ show_nat (length b) @ '' exceeds max ''
                                             @ show_nat MaxHeaderBytes))
                 else Inr ev)))"

section \<open>connection.go\<close>

definition futureWarnInterval :: duration where "futureWarnInterval = hour"
definition maxFutureWarnProducers :: nat where "maxFutureWarnProducers = 100000"

text \<open>The converter's mutable state: the times of the last warnings by producer, and the
  producers warned about, newest first.\<close>

record converter =
  lastFutureWarn :: "(string \<times> go_time) list"
  warnings :: "(string \<times> go_time) list"

definition NewConverter :: converter where
  "NewConverter = \<lparr>lastFutureWarn = [], warnings = []\<rparr>"

definition warnFutureTimestamp :: "go_time \<Rightarrow> ce_header \<Rightarrow> converter \<Rightarrow> converter" where
  "warnFutureTimestamp now hdr c =
     (let recent = (case map_of (lastFutureWarn c) (hProducer hdr) of
                      Some prev \<Rightarrow> time_sub now prev < futureWarnInterval | None \<Rightarrow> False)
      in if recent then c
         else let m = (if maxFutureWarnProducers \<le> length (lastFutureWarn c) then [] else lastFutureWarn c)
              in c\<lparr>lastFutureWarn := AList.update (hProducer hdr) now m,
                   warnings := (hProducer hdr, now) # warnings c\<rparr>)"

definition isValidConnectionType :: "ce_lib \<Rightarrow> ce_header \<Rightarrow> bool" where
  "isValidConnectionType L hdr \<longleftrightarrow>
     hType hdr = TypeStatus L \<or> hType hdr = TypeFingerprint L \<or> hType hdr = TypeEvents L
     \<or> hType hdr = TypeSignals L \<or> hType hdr = TypeRawStatus L"

definition canonicalizeDID :: "ce_lib \<Rightarrow> string \<Rightarrow> string option" where
  "canonicalizeDID L field =
     (case DecodeERC721DID L field of
        Inr did \<Rightarrow> Some (ERC721String L did)
      | Inl _ \<Rightarrow>
         (case DecodeLegacyNFTDID L field of
            Inl _ \<Rightarrow> None
          | Inr did \<Rightarrow> Some (ERC721String L did)))"

definition canonicalizeConnectionHeader :: "ce_lib \<Rightarrow> ce_header \<Rightarrow> ce_header option" where
  "canonicalizeConnectionHeader L hdr =
     (case canonicalizeDID L (hSubject hdr) of
        None \<Rightarrow> None
      | Some subj \<Rightarrow>
         (case canonicalizeDID L (hProducer hdr) of
            None \<Rightarrow> None
          | Some producer \<Rightarrow>
             if \<not> IsHexAddress L (hSource hdr) then None
             else Some (hdr\<lparr>hSubject := subj, hProducer := producer,
                            hSource := AddressHex L (HexToAddress L (hSource hdr))\<rparr>)))"

fun convert_loop ::
  "ce_lib \<Rightarrow> duration \<Rightarrow> go_time \<Rightarrow> string \<Rightarrow> string \<Rightarrow> bytes \<Rightarrow> ce_header list \<Rightarrow> converter
     \<Rightarrow> converter \<times> raw_event list result" where
  "convert_loop L skew now source defaultID eventData [] c = (c, Inr [])"
| "convert_loop L skew now source defaultID eventData (hdr # hdrs) c =
     (let c1 = (if IsFutureTimestamp skew now (hTime hdr) then warnFutureTimestamp now hdr c else c)
      in case ValidateHeadersAndSetDefaults L now hdr source defaultID False of
           Inl e \<Rightarrow> (c1, Inl (errorf ''invalid cloud event header string: '' e ''''))
         | Inr h1 \<Rightarrow>
             if \<not> isValidConnectionType L h1
             then (c1, Inl (validation_error (''unsupported cloud event type: '' @ hType h1)))
             else case canonicalizeConnectionHeader L h1 of
                    None \<Rightarrow> (c1, Inl (validation_error
                      (''invalid cloud event header (subject/producer must be a DID, source a hex address): ''
                       @ FormatHeader L h1)))
                  | Some h2 \<Rightarrow>
                      (case convert_loop L skew now source defaultID eventData hdrs c1 of
                         (c2, Inl e) \<Rightarrow> (c2, Inl e)
                       | (c2, Inr evs) \<Rightarrow>
                           (c2, Inr (\<lparr>Header = h2, Data = eventData, DataBase64 = []\<rparr> # evs))))"

definition Convert ::
  "ce_lib \<Rightarrow> garage_lib \<Rightarrow> duration \<Rightarrow> go_time \<Rightarrow> string \<Rightarrow> string \<Rightarrow> bytes \<Rightarrow> converter
     \<Rightarrow> converter \<times> raw_event list result" where
  "Convert L G skew now defaultID sourceAddr body c =
     (case ConvertToCloudEvents G sourceAddr body of
        Inl e \<Rightarrow> (c, Inl (errorf2 '''' (sentinel_error ErrValidation) '': failed to convert to cloud event: '' e ''''))
      | Inr (hdrs, eventData) \<Rightarrow>
          if hdrs = [] then (c, Inl (validation_error ''no cloud events headers returned''))
          else convert_loop L skew now sourceAddr defaultID
                 (if eventData = [] then body else eventData) hdrs c)"

section \<open>fpvalidate.go\<close>

definition Validate :: "ce_lib \<Rightarrow> garage_lib \<Rightarrow> raw_event \<Rightarrow> go_error option" where
  "Validate L G event =
     (if hType (Header event) \<noteq> TypeFingerprint L then None
      else case ConvertToFingerprint G (hSource (Header event)) event of
        Inl e \<Rightarrow> Some (errorf ''failed to convert to fingerprint: '' e '''')
      | Inr vin \<Rightarrow>
          if \<not> IsValidVIN G vin \<and> \<not> IsValidJapanChassis G vin
          then Some (errorf '''' (sentinel_error ErrInvalidVIN)
                 ('': invalid VIN format in fingerprint: subject='' @ hSubject (Header event)
                  @ '' source='' @ hSource (Header event) @ '' vin='' @ vin))
          else None)"

section \<open>Identifiers and headers\<close>

lemma scan_identifier_iff: "scan_identifier s \<longleftrightarrow> (\<forall>c\<in>set s. identifier_byte (of_char c))"
  by (induction s) auto

lemma ValidIdentifier_iff:
  "ValidIdentifier s \<longleftrightarrow> s \<noteq> [] \<and> (\<forall>c\<in>set s. identifier_byte (of_char c))"
  by (simp add: ValidIdentifier_def scan_identifier_iff)

lemma validation_error_is [simp]: "errors_is (validation_error m) t \<longleftrightarrow> t = ErrValidation"
  by (simp add: validation_error_def)

lemma set_defaults_fields:
  "hSource (set_defaults ev src i now) = src"
  "hSubject (set_defaults ev src i now) = (if hSubject ev = [] then hProducer ev else hSubject ev)"
  "hTime (set_defaults ev src i now) = (if hTime ev = 0 then now else hTime ev)"
  "hID (set_defaults ev src i now) = (if hID ev = [] then i else hID ev)"
  "hType (set_defaults ev src i now) = hType ev"
  "hProducer (set_defaults ev src i now) = hProducer ev"
  "hDataContentType (set_defaults ev src i now) = hDataContentType ev"
  "hSignature (set_defaults ev src i now) = hSignature ev"
  by (simp_all add: set_defaults_def Let_def)

lemma validateAndSetContentType_ok:
  "validateAndSetContentType ev b64 = Inr ev' \<Longrightarrow>
     ev' = ev\<lparr>hDataContentType := hDataContentType ev'\<rparr> \<and>
     hDataContentType ev' \<in> set allowedContentTypes \<and>
     (if b64 then hDataContentType ev' = hDataContentType ev
      else hDataContentType ev' = ''application/json'')"
  by (auto simp: validateAndSetContentType_def Let_def split: if_splits)

lemma validateAndSetContentType_error:
  "validateAndSetContentType ev b64 = Inl e \<Longrightarrow> errors_is e ErrValidation"
  by (auto simp: validateAndSetContentType_def Let_def split: if_splits)

lemma check_identifiers_error: "check_identifiers ev = Some e \<Longrightarrow> errors_is e ErrValidation"
  by (auto simp: check_identifiers_def split: if_splits)

text \<open>What a header that passed validation satisfies.\<close>

definition opt_identifier :: "string \<Rightarrow> bool" where
  "opt_identifier s \<longleftrightarrow> s = [] \<or> ValidIdentifier s"

definition valid_header :: "ce_lib \<Rightarrow> ce_header \<Rightarrow> bool" where
  "valid_header L h \<longleftrightarrow>
     ValidIdentifier (hID h) \<and> ValidIdentifier (hSpecVersion h) \<and>
     hDataContentType h \<in> set allowedContentTypes \<and>
     opt_identifier (hDataSchema h) \<and> opt_identifier (hDataVersion h) \<and> opt_identifier (hType h) \<and>
     opt_identifier (hSubject h) \<and> opt_identifier (hProducer h) \<and>
     (\<exists>b. HeaderJSON L h = Inr b \<and> length b \<le> MaxHeaderBytes)"

lemma ValidateHeaders_success:
  assumes "ValidateHeadersAndSetDefaults L now ev src i b64 = Inr h"
  shows "valid_header L h" "h = (set_defaults ev src i now)\<lparr>hDataContentType := hDataContentType h\<rparr>"
    "if b64 then hDataContentType h = hDataContentType ev
     else hDataContentType h = ''application/json''"
proof -
  from assms obtain b where v: "validateAndSetContentType (set_defaults ev src i now) b64 = Inr h"
    and c: "check_identifiers h = None" and b: "HeaderJSON L h = Inr b" "length b \<le> MaxHeaderBytes"
    by (auto simp: ValidateHeadersAndSetDefaults_def split: sum.splits option.splits if_splits)
  note ok = validateAndSetContentType_ok [OF v]
  from c have "ValidIdentifier (hID h)" "ValidIdentifier (hSpecVersion h)"
    "opt_identifier (hDataSchema h)" "opt_identifier (hDataVersion h)" "opt_identifier (hType h)"
    "opt_identifier (hSubject h)" "opt_identifier (hProducer h)"
    by (auto simp: check_identifiers_def opt_identifier_def split: if_splits)
  with ok b show "valid_header L h" by (simp add: valid_header_def)
  show "h = (set_defaults ev src i now)\<lparr>hDataContentType := hDataContentType h\<rparr>"
    using ok by blast
  show "if b64 then hDataContentType h = hDataContentType ev
     else hDataContentType h = ''application/json''"
    using ok by (simp add: set_defaults_fields)
qed

lemma ValidateHeaders_fields:
  assumes "ValidateHeadersAndSetDefaults L now ev src i b64 = Inr h"
  shows "hSource h = src" "hType h = hType ev" "hProducer h = hProducer ev"
    "hSubject h = (if hSubject ev = [] then hProducer ev else hSubject ev)"
    "hSignature h = hSignature ev"
  by (subst ValidateHeaders_success(2) [OF assms], simp add: set_defaults_fields)+

lemma ValidateHeaders_error:
  "ValidateHeadersAndSetDefaults L now ev src i b64 = Inl e \<Longrightarrow> \<not> errors_is e ErrValidation \<Longrightarrow>
     \<exists>h e0. HeaderJSON L h = Inl e0 \<and> e = errorf ''failed to marshal header for size check: '' e0 ''''"
  by (auto simp: ValidateHeadersAndSetDefaults_def
      dest: validateAndSetContentType_error check_identifiers_error
      split: sum.splits option.splits if_splits)

section \<open>Connection events\<close>

definition canonical_did :: "ce_lib \<Rightarrow> string \<Rightarrow> bool" where
  "canonical_did L s \<longleftrightarrow> (\<exists>d. s = ERC721String L d)"

definition canonical_address :: "ce_lib \<Rightarrow> string \<Rightarrow> bool" where
  "canonical_address L s \<longleftrightarrow> (\<exists>a. s = AddressHex L a)"

lemma canonicalizeDID_canonical: "canonicalizeDID L f = Some s \<Longrightarrow> canonical_did L s"
  by (auto simp: canonicalizeDID_def canonical_did_def split: sum.splits)

definition connection_event :: "ce_lib \<Rightarrow> raw_event \<Rightarrow> bool" where
  "connection_event L ev \<longleftrightarrow>
     canonical_did L (hSubject (Header ev)) \<and> canonical_did L (hProducer (Header ev)) \<and>
     canonical_address L (hSource (Header ev)) \<and> isValidConnectionType L (Header ev) \<and>
     hDataContentType (Header ev) = ''application/json'' \<and>
     ValidIdentifier (hID (Header ev)) \<and> DataBase64 ev = []"

lemma canonicalizeConnectionHeader_ok:
  assumes "canonicalizeConnectionHeader L h = Some h'"
  shows "canonical_did L (hSubject h')" "canonical_did L (hProducer h')"
    "canonical_address L (hSource h')"
    "hType h' = hType h" "hDataContentType h' = hDataContentType h" "hID h' = hID h"
    "hSource h' = AddressHex L (HexToAddress L (hSource h))" "IsHexAddress L (hSource h)"
  using assms
  by (auto simp: canonicalizeConnectionHeader_def canonical_address_def canonicalizeDID_canonical
      split: option.splits if_splits)

lemma convert_loop_success:
  "convert_loop L skew now src i d hdrs c = (c', Inr evs) \<Longrightarrow>
     length evs = length hdrs \<and>
     (\<forall>ev\<in>set evs. connection_event L ev \<and> Data ev = d \<and>
        hSource (Header ev) = AddressHex L (HexToAddress L src) \<and> IsHexAddress L src)"
proof (induction hdrs arbitrary: c evs)
  case (Cons hdr hdrs)
  from Cons.prems obtain h1 h2 c1 evs' where
    h: "ValidateHeadersAndSetDefaults L now hdr src i False = Inr h1" "isValidConnectionType L h1"
      "canonicalizeConnectionHeader L h1 = Some h2"
      "convert_loop L skew now src i d hdrs c1 = (c', Inr evs')"
      "evs = \<lparr>Header = h2, Data = d, DataBase64 = []\<rparr> # evs'"
    by (auto simp: Let_def split: sum.splits if_splits option.splits prod.splits)
  note v = ValidateHeaders_success [OF h(1)] ValidateHeaders_fields [OF h(1)]
  note k = canonicalizeConnectionHeader_ok [OF h(3)]
  have "connection_event L \<lparr>Header = h2, Data = d, DataBase64 = []\<rparr>"
    using h(2) k v by (simp add: connection_event_def isValidConnectionType_def valid_header_def)
  moreover have "hSource h2 = AddressHex L (HexToAddress L src)" "IsHexAddress L src"
    using k v by simp_all
  ultimately show ?case using Cons.IH [OF h(4)] h(5) by simp
qed simp

lemma convert_loop_error:
  "convert_loop L skew now src i d hdrs c = (c', Inl e) \<Longrightarrow> (\<And>h. \<exists>b. HeaderJSON L h = Inr b) \<Longrightarrow>
     errors_is e ErrValidation"
proof (induction hdrs arbitrary: c)
  case (Cons hdr hdrs)
  have "errors_is e1 ErrValidation"
    if "ValidateHeadersAndSetDefaults L now hdr src i False = Inl e1" for e1
    using ValidateHeaders_error [OF that] Cons.prems(2) by (metis Inl_Inr_False)
  with Cons show ?case
    by (auto simp: Let_def split: sum.splits if_splits option.splits prod.splits)
qed simp

text \<open>The warning map stays within its bound, with one entry per producer.\<close>

definition warn_inv :: "converter \<Rightarrow> bool" where
  "warn_inv c \<longleftrightarrow> distinct (map fst (lastFutureWarn c)) \<and>
     length (lastFutureWarn c) \<le> maxFutureWarnProducers"

lemma length_AList_update: "length (AList.update k v xs) \<le> Suc (length xs)"
  by (induction xs) auto

lemma warn_inv_new: "warn_inv NewConverter"
  by (simp add: warn_inv_def NewConverter_def)

lemma warn_inv_warn:
  assumes "warn_inv c"
  shows "warn_inv (warnFutureTimestamp now hdr c)"
proof -
  have "length (AList.update k now (lastFutureWarn c)) \<le> maxFutureWarnProducers"
    if "\<not> maxFutureWarnProducers \<le> length (lastFutureWarn c)" for k
    using that length_AList_update [of k now "lastFutureWarn c"] by simp
  with assms show ?thesis
    by (auto simp: warn_inv_def warnFutureTimestamp_def Let_def distinct_update
        maxFutureWarnProducers_def split: option.splits)
qed

lemma warn_inv_loop: "convert_loop L skew now src i d hdrs c = (c', r) \<Longrightarrow> warn_inv c \<Longrightarrow> warn_inv c'"
proof (induction hdrs arbitrary: c r)
  case (Cons hdr hdrs)
  have "warn_inv (if IsFutureTimestamp skew now (hTime hdr) then warnFutureTimestamp now hdr c else c)"
    using Cons.prems(2) warn_inv_warn by simp
  with Cons show ?case
    by (fastforce simp: Let_def split: sum.splits if_splits option.splits prod.splits)
qed simp

lemma warn_inv_Convert: "Convert L G skew now i src body c = (c', r) \<Longrightarrow> warn_inv c \<Longrightarrow> warn_inv c'"
  by (auto simp: Convert_def dest: warn_inv_loop split: sum.splits if_splits)

lemma Convert_success:
  assumes "Convert L G skew now i src body c = (c', Inr evs)"
  shows "evs \<noteq> [] \<and> (\<forall>ev\<in>set evs. connection_event L ev \<and>
     hSource (Header ev) = AddressHex L (HexToAddress L src) \<and> IsHexAddress L src)"
proof -
  from assms obtain hdrs d where h: "hdrs \<noteq> []" "convert_loop L skew now src i d hdrs c = (c', Inr evs)"
    by (auto simp: Convert_def split: sum.splits if_splits)
  from convert_loop_success [OF h(2)] h(1) show ?thesis by auto
qed

lemma Convert_error:
  assumes "Convert L G skew now i src body c = (c', Inl e)" "\<And>h. \<exists>b. HeaderJSON L h = Inr b"
  shows "errors_is e ErrValidation"
  using assms convert_loop_error by (fastforce simp: Convert_def split: sum.splits if_splits)

lemma Validate_error:
  "Validate L G ev = Some e \<Longrightarrow> hType (Header ev) = TypeFingerprint L \<and>
     (errors_is e ErrInvalidVIN \<or>
      (\<exists>e0. ConvertToFingerprint G (hSource (Header ev)) ev = Inl e0 \<and>
         e = errorf ''failed to convert to fingerprint: '' e0 ''''))"
  by (auto simp: Validate_def split: if_splits sum.splits)

end
