(* ===== verification/Erc1271.thy ===== *)
theory Erc1271
  imports CloudEvent
begin

text \<open>
  \<^verbatim>\<open>internal/web3/contract_login.go\<close>: the generated binding of the ERC-1271 contract, as far as the program calls it:
  binding an address, the read-only call of \<^verbatim>\<open>isValidSignature\<close>, directly and through a session. The
  contract machinery of go-ethereum is the record \<open>eth_bind\<close>: parsing an ABI, and a call of a method at an
  address with its arguments, whose results are byte strings here.
\<close>

record eth_bind =
  GetAbi :: "string \<Rightarrow> string result"
  ContractCall :: "address \<Rightarrow> string \<Rightarrow> string \<Rightarrow> bytes list \<Rightarrow> bytes list result"

definition Erc1271ABI :: string where
  "Erc1271ABI = ''[{\"inputs\":[{\"internalType\":\"bytes32\",\"name\":\"hash\",\"type\":\"bytes32\"},{\"internalType\":\"bytes\",\"name\":\"signature\",\"type\":\"bytes\"}],\"name\":\"isValidSignature\",\"outputs\":[{\"internalType\":\"bytes4\",\"name\":\"magicValue\",\"type\":\"bytes4\"}],\"stateMutability\":\"view\",\"type\":\"function\"}]''"

record bound_contract =
  boundAddress :: address
  boundABI :: string

definition bindErc1271 :: "'a eth_bind_scheme \<Rightarrow> address \<Rightarrow> bound_contract result" where
  "bindErc1271 E address =
     (case GetAbi E Erc1271ABI of
        Inl e \<Rightarrow> Inl e
      | Inr parsed \<Rightarrow> Inr \<lparr>boundAddress = address, boundABI = parsed\<rparr>)"

definition NewErc1271 :: "'a eth_bind_scheme \<Rightarrow> address \<Rightarrow> bound_contract result" where
  "NewErc1271 E address = (case bindErc1271 E address of Inl e \<Rightarrow> Inl e | Inr contract \<Rightarrow> Inr contract)"

definition NewErc1271Caller :: "'a eth_bind_scheme \<Rightarrow> address \<Rightarrow> bound_contract result" where
  "NewErc1271Caller E address = (case bindErc1271 E address of Inl e \<Rightarrow> Inl e | Inr contract \<Rightarrow> Inr contract)"

definition Erc1271_Call :: "'a eth_bind_scheme \<Rightarrow> bound_contract \<Rightarrow> string \<Rightarrow> bytes list \<Rightarrow> bytes list result" where
  "Erc1271_Call E c meth params = ContractCall E (boundAddress c) (boundABI c) meth params"

text \<open>The conversion to four bytes, like the access to a missing first result, panics when it does not fit.\<close>

definition IsValidSignature :: "'a eth_bind_scheme \<Rightarrow> bound_contract \<Rightarrow> bytes \<Rightarrow> bytes \<Rightarrow> bytes result" where
  "IsValidSignature E c hash signature =
     (case Erc1271_Call E c ''isValidSignature'' [hash, signature] of
        Inl err \<Rightarrow> Inl err
      | Inr [] \<Rightarrow> Inl (sentinel_error RuntimePanic)
      | Inr (out0 # _) \<Rightarrow> if length out0 = 4 then Inr out0 else Inl (sentinel_error RuntimePanic))"

definition Session_IsValidSignature :: "'a eth_bind_scheme \<Rightarrow> bound_contract \<Rightarrow> bytes \<Rightarrow> bytes \<Rightarrow> bytes result" where
  "Session_IsValidSignature E session hash signature = IsValidSignature E session hash signature"

text \<open>An answer of the binding is the contract's first result, of four bytes.\<close>

lemma IsValidSignature_iff:
  "IsValidSignature E c hash signature = Inr v \<longleftrightarrow>
     length v = 4 \<and> (\<exists>rest. ContractCall E (boundAddress c) (boundABI c) ''isValidSignature'' [hash, signature] = Inr (v # rest))"
  by (auto simp: IsValidSignature_def Erc1271_Call_def split: sum.splits list.splits)

lemma NewErc1271_iff: "NewErc1271 E a = Inr c \<longleftrightarrow> (\<exists>parsed. GetAbi E Erc1271ABI = Inr parsed \<and> c = \<lparr>boundAddress = a, boundABI = parsed\<rparr>)"
  by (auto simp: NewErc1271_def bindErc1271_def split: sum.splits)

end
