(* ===== verification/Attest.thy ===== *)
theory Attest
  imports Convert Erc1271
begin

text \<open>
  \<^verbatim>\<open>internal/attest/attest.go\<close>: parsing attestations and verifying their signatures, against the
  account (EOA) or the contract (ERC-1271) the event names as its source. The cryptographic
  functions of go-ethereum are the record \<open>eth_lib\<close>, which extends the contract machinery of the theory \<open>Erc1271\<close>;
  decoding a tombstone's JSON object into its two fields is a field of it too.
\<close>

section \<open>Definitions\<close>

definition MaxTombstoneReasonBytes :: nat where "MaxTombstoneReasonBytes = 512"

definition erc1271magicValue :: bytes where
  "erc1271magicValue = [ch 0x16, ch 0x26, ch 0xba, ch 0x7e]"

record attestation =
  attEvent :: raw_event
  attVoidsID :: string

record eth_lib = eth_bind +
  FromHex :: "string \<Rightarrow> bytes"
  TextHash :: "bytes \<Rightarrow> bytes"
  BytesToHash :: "bytes \<Rightarrow> bytes"
  SigToPub :: "bytes \<Rightarrow> bytes \<Rightarrow> bytes result"
  PubkeyToAddress :: "bytes \<Rightarrow> address"
  UnmarshalTombstone :: "bytes \<Rightarrow> (string \<times> string) result"

definition parseTombstoneData :: "eth_lib \<Rightarrow> bytes \<Rightarrow> string result" where
  "parseTombstoneData E data =
     (if data = [] then Inl (errors_new ''data payload is required for tombstones'')
      else case UnmarshalTombstone E data of
        Inl e \<Rightarrow> Inl (errorf ''data payload is not a tombstone object: '' e '''')
      | Inr (voidsID, reason) \<Rightarrow>
          if voidsID = [] then Inl (errors_new ''voidsId is required and must be non-empty'')
          else if \<not> ValidIdentifier voidsID then Inl (errors_new (''invalid voidsId: '' @ voidsID))
          else if MaxTombstoneReasonBytes < length reason
            then Inl (errors_new (''reason length '' @ show_nat (length reason) @ '' exceeds max ''
                                  @ show_nat MaxTombstoneReasonBytes))
          else Inr voidsID)"

definition isValidAttestationType :: "ce_lib \<Rightarrow> string \<Rightarrow> bool" where
  "isValidAttestationType L t \<longleftrightarrow>
     t = TypeAttestation L \<or> t = TypeAttestationTombstone L
     \<or> (has_prefix t ''dimo.raw.'' \<and> length ''dimo.raw.'' < length t)
     \<or> (has_prefix t ''dimo.document.'' \<and> length ''dimo.document.'' < length t)"

text \<open>The subject as a DID of either form, in canonical text.\<close>

definition canonical_subject :: "ce_lib \<Rightarrow> string \<Rightarrow> string result" where
  "canonical_subject L s =
     (case DecodeERC721DID L s of
        Inr did \<Rightarrow> Inr (ERC721String L did)
      | Inl _ \<Rightarrow>
         (case DecodeEthrDID L s of
            Inr did \<Rightarrow> Inr did
          | Inl e \<Rightarrow> Inl (errorf2 '''' (sentinel_error ErrValidation)
                           '': invalid attestation subject format: '' e '''')))"

definition parseAndValidateAttestation ::
  "ce_lib \<Rightarrow> duration \<Rightarrow> go_time \<Rightarrow> string \<Rightarrow> bytes \<Rightarrow> string \<Rightarrow> raw_event result" where
  "parseAndValidateAttestation L skew now newID msgBytes source =
     (case UnmarshalEvent L msgBytes of
        Inl e \<Rightarrow> Inl (errorf2 '''' (sentinel_error ErrValidation)
                       '': failed to unmarshal attestation cloud event: '' e '''')
      | Inr event \<Rightarrow>
          if IsFutureTimestamp skew now (hTime (Header event))
          then Inl (validation_error (''event timestamp '' @ FormatTime L (hTime (Header event))
                                      @ '' exceeds valid range''))
          else case canonical_subject L (hSubject (Header event)) of
            Inl e \<Rightarrow> Inl e
          | Inr subj \<Rightarrow>
              (let resolved = (if hSource (Header event) \<noteq> [] then hSource (Header event) else source)
               in if \<not> IsHexAddress L resolved
                  then Inl (validation_error (''invalid source address: '' @ resolved))
                  else case ValidateHeadersAndSetDefaults L now ((Header event)\<lparr>hSubject := subj\<rparr>)
                              (AddressHex L (HexToAddress L resolved)) newID (DataBase64 event \<noteq> []) of
                         Inl e \<Rightarrow> Inl (errorf ''failed to validate headers: '' e '''')
                       | Inr h \<Rightarrow>
                           (let h1 = (if hType h = [] then h\<lparr>hType := TypeAttestation L\<rparr> else h)
                            in if \<not> isValidAttestationType L (hType h1)
                               then Inl (validation_error (''invalid attestation type '' @ fmt_q (hType h1)
                                 @ '': must be dimo.attestation, dimo.tombstone, dimo.raw.*, or dimo.document.*''))
                               else Inr (event\<lparr>Header := h1\<rparr>))))"

text \<open>The last byte of the signature at its width: \<^verbatim>\<open>sigCopy[64] -= 27\<close> wraps.\<close>

definition v_byte :: "char \<Rightarrow> 8 word" where
  "v_byte c = word_of_nat (of_char c) - 27"

definition verifyEOASignature :: "eth_lib \<Rightarrow> bytes \<Rightarrow> bytes \<Rightarrow> address \<Rightarrow> bool result" where
  "verifyEOASignature E signature msgHash source =
     (if length signature \<noteq> 65
      then Inl (errors_new (''signature has length '' @ show_nat (length signature) @ '' != 65''))
      else let v = v_byte (signature ! 64)
           in if v \<noteq> 0 \<and> v \<noteq> 1
              then Inl (errors_new (''invalid v byte: '' @ show_nat (of_char (signature ! 64))
                                    @ ''; accepted values 27 or 28''))
              else case SigToPub E msgHash (signature[64 := ch (unat v)]) of
                     Inl e \<Rightarrow> Inl (errorf ''failed to unmarshal public key: '' e '''')
                   | Inr pubKey \<Rightarrow> Inr (source = PubkeyToAddress E pubKey))"

definition verifyERC1271Signature :: "ce_lib \<Rightarrow> eth_lib \<Rightarrow> bytes \<Rightarrow> bytes \<Rightarrow> address \<Rightarrow> bool result" where
  "verifyERC1271Signature L E signature msgHash source =
     (case NewErc1271 E source of
        Inl e \<Rightarrow> Inl (errorf (''failed to connect to address: '' @ AddressHex L source @ '': '') e '''')
      | Inr contract \<Rightarrow>
         (case IsValidSignature E contract msgHash signature of
            Inl e \<Rightarrow> Inl (errorf ''failed to validate signature with contract: '' e '''')
          | Inr res \<Rightarrow> Inr (res = erc1271magicValue)))"

definition error_of :: "'a result \<Rightarrow> go_error option" where
  "error_of r = (case r of Inl e \<Rightarrow> Some e | Inr _ \<Rightarrow> None)"

definition verifySignature :: "ce_lib \<Rightarrow> eth_lib \<Rightarrow> raw_event \<Rightarrow> address \<Rightarrow> bool result" where
  "verifySignature L E event source =
     (let signature = FromHex E (hSignature (Header event));
          msgHash = TextHash E (BytesForSignature L event);
          eoa = verifyEOASignature E signature msgHash source
      in if eoa = Inr True then Inr True
         else case verifyERC1271Signature L E signature (BytesToHash E msgHash) source of
                Inl e \<Rightarrow> Inl (the (errors_join (error_of eoa) (Some e)))
              | Inr ok \<Rightarrow> Inr ok)"

definition Parse ::
  "ce_lib \<Rightarrow> eth_lib \<Rightarrow> duration \<Rightarrow> go_time \<Rightarrow> string \<Rightarrow> address \<Rightarrow> bytes \<Rightarrow> attestation result" where
  "Parse L E skew now newID jwtAddress body =
     (case parseAndValidateAttestation L skew now newID body (AddressHex L jwtAddress) of
        Inl e \<Rightarrow> Inl (errorf ''failed to process attestation: '' e '''')
      | Inr event \<Rightarrow>
         (case verifySignature L E event (HexToAddress L (hSource (Header event))) of
            Inl e \<Rightarrow> Inl (errorf ''failed to check message signature: '' e '''')
          | Inr valid \<Rightarrow>
             if \<not> valid then Inl (validation_error ''message signature invalid'')
             else if hType (Header event) = TypeAttestationTombstone L then
               (case parseTombstoneData E (Data event) of
                  Inl e \<Rightarrow> Inl (errorf2 '''' (sentinel_error ErrValidation)
                                 '': invalid tombstone payload: '' e '''')
                | Inr voidsID \<Rightarrow> Inr \<lparr>attEvent = event, attVoidsID = voidsID\<rparr>)
             else Inr \<lparr>attEvent = event, attVoidsID = []\<rparr>))"

section \<open>Lemmas\<close>

lemma v_byte_iff: "v_byte c = 0 \<or> v_byte c = 1 \<longleftrightarrow> of_char c = (27 :: nat) \<or> of_char c = (28 :: nat)"
proof -
  have eq: "(word_of_nat (of_char c) :: 8 word) = word_of_nat k \<longleftrightarrow> of_char c = k" if "k < 256" for k :: nat
    using that by (simp add: word_of_nat_eq_iff take_bit_nat_eq_self)
  have "v_byte c = 0 \<longleftrightarrow> (word_of_nat (of_char c) :: 8 word) = word_of_nat 27"
    by (simp add: v_byte_def)
  moreover have "v_byte c = 1 \<longleftrightarrow> (word_of_nat (of_char c) :: 8 word) = word_of_nat 28"
    by (simp add: v_byte_def diff_eq_eq)
  ultimately show ?thesis using eq [of 27] eq [of 28] by simp
qed

text \<open>Who signed the event, as the code accepts it.\<close>

definition signed_by_account :: "ce_lib \<Rightarrow> eth_lib \<Rightarrow> raw_event \<Rightarrow> address \<Rightarrow> bool" where
  "signed_by_account L E ev a \<longleftrightarrow>
     (let sig = FromHex E (hSignature (Header ev)) in
      length sig = 65 \<and> (of_char (sig ! 64) = (27 :: nat) \<or> of_char (sig ! 64) = (28 :: nat)) \<and>
      (\<exists>pk. SigToPub E (TextHash E (BytesForSignature L ev)) (sig[64 := ch (of_char (sig ! 64) - 27)]) = Inr pk
            \<and> PubkeyToAddress E pk = a))"

definition signed_by_contract :: "ce_lib \<Rightarrow> eth_lib \<Rightarrow> raw_event \<Rightarrow> address \<Rightarrow> bool" where
  "signed_by_contract L E ev a \<longleftrightarrow>
     (\<exists>parsed rest. GetAbi E Erc1271ABI = Inr parsed \<and>
        ContractCall E a parsed ''isValidSignature''
          [BytesToHash E (TextHash E (BytesForSignature L ev)), FromHex E (hSignature (Header ev))] = Inr (erc1271magicValue # rest))"

lemma unat_v_byte: "of_char c = (27 :: nat) \<or> of_char c = (28 :: nat) \<Longrightarrow> unat (v_byte c) = of_char c - 27"
  by (auto simp: v_byte_def)

lemma verifyEOASignature_True_iff:
  "verifyEOASignature E (FromHex E (hSignature (Header ev))) (TextHash E (BytesForSignature L ev)) a = Inr True
     \<longleftrightarrow> signed_by_account L E ev a"
  using v_byte_iff [of "FromHex E (hSignature (Header ev)) ! 64"]
    unat_v_byte [of "FromHex E (hSignature (Header ev)) ! 64"]
  by (auto simp: verifyEOASignature_def signed_by_account_def Let_def split: if_splits sum.splits)

lemma verifySignature_True_iff:
  "verifySignature L E ev a = Inr True \<longleftrightarrow> signed_by_account L E ev a \<or> signed_by_contract L E ev a"
proof -
  have len: "length erc1271magicValue = 4" by (simp add: erc1271magicValue_def)
  have "verifyERC1271Signature L E sig h a = Inr True \<longleftrightarrow>
      (\<exists>c. NewErc1271 E a = Inr c \<and> IsValidSignature E c h sig = Inr erc1271magicValue)" for sig h
    by (auto simp: verifyERC1271Signature_def split: sum.splits)
  then have "verifyERC1271Signature L E sig h a = Inr True \<longleftrightarrow>
      (\<exists>parsed rest. GetAbi E Erc1271ABI = Inr parsed \<and> ContractCall E a parsed ''isValidSignature'' [h, sig] = Inr (erc1271magicValue # rest))"
    for sig h
    unfolding NewErc1271_iff IsValidSignature_iff by (auto simp: len)
  then have "verifyERC1271Signature L E (FromHex E (hSignature (Header ev))) (BytesToHash E (TextHash E (BytesForSignature L ev))) a = Inr True
      \<longleftrightarrow> signed_by_contract L E ev a"
    by (simp add: signed_by_contract_def)
  moreover have "verifySignature L E ev a = Inr True \<longleftrightarrow>
      verifyEOASignature E (FromHex E (hSignature (Header ev))) (TextHash E (BytesForSignature L ev)) a = Inr True \<or>
      verifyERC1271Signature L E (FromHex E (hSignature (Header ev))) (BytesToHash E (TextHash E (BytesForSignature L ev))) a = Inr True"
    by (auto simp: verifySignature_def Let_def split: sum.splits)
  ultimately show ?thesis by (simp only: verifyEOASignature_True_iff)
qed

lemma parseAndValidateAttestation_ok:
  assumes "parseAndValidateAttestation L skew now newID body src = Inr ev"
  shows "isValidAttestationType L (hType (Header ev))"
    "canonical_address L (hSource (Header ev))"
    "\<exists>raw. UnmarshalEvent L body = Inr raw \<and> \<not> IsFutureTimestamp skew now (hTime (Header raw)) \<and>
       hSource (Header ev) = AddressHex L (HexToAddress L
         (if hSource (Header raw) \<noteq> [] then hSource (Header raw) else src)) \<and>
       hSignature (Header ev) = hSignature (Header raw) \<and>
       Data ev = Data raw \<and> DataBase64 ev = DataBase64 raw"
    "(\<exists>d. hSubject (Header ev) = ERC721String L d) \<or>
     (\<exists>s. DecodeEthrDID L s = Inr (hSubject (Header ev))) \<or> hSubject (Header ev) = hProducer (Header ev)"
proof -
  from assms obtain raw subj res h where
    r: "UnmarshalEvent L body = Inr raw" "\<not> IsFutureTimestamp skew now (hTime (Header raw))"
      "canonical_subject L (hSubject (Header raw)) = Inr subj"
      "res = (if hSource (Header raw) \<noteq> [] then hSource (Header raw) else src)"
    and v: "ValidateHeadersAndSetDefaults L now ((Header raw)\<lparr>hSubject := subj\<rparr>)
        (AddressHex L (HexToAddress L res)) newID (DataBase64 raw \<noteq> []) = Inr h"
    and ev: "ev = raw\<lparr>Header := (if hType h = [] then h\<lparr>hType := TypeAttestation L\<rparr> else h)\<rparr>"
    and t: "isValidAttestationType L (hType (if hType h = [] then h\<lparr>hType := TypeAttestation L\<rparr> else h))"
    by (auto simp: parseAndValidateAttestation_def Let_def simp del: if_split_asm
        split: sum.splits if_splits)
  note f = ValidateHeaders_fields [OF v]
  show "isValidAttestationType L (hType (Header ev))" using t ev by simp
  show "canonical_address L (hSource (Header ev))"
    using f(1) by (auto simp: ev canonical_address_def)
  show "\<exists>raw. UnmarshalEvent L body = Inr raw \<and> \<not> IsFutureTimestamp skew now (hTime (Header raw)) \<and>
       hSource (Header ev) = AddressHex L (HexToAddress L
         (if hSource (Header raw) \<noteq> [] then hSource (Header raw) else src)) \<and>
       hSignature (Header ev) = hSignature (Header raw) \<and>
       Data ev = Data raw \<and> DataBase64 ev = DataBase64 raw"
    using r f(1,5) by (intro exI [of _ raw]) (simp add: ev)
  show "(\<exists>d. hSubject (Header ev) = ERC721String L d) \<or>
     (\<exists>s. DecodeEthrDID L s = Inr (hSubject (Header ev))) \<or> hSubject (Header ev) = hProducer (Header ev)"
    using r(3) f(3,4) by (auto simp: ev canonical_subject_def split: sum.splits)
qed

lemma parseTombstoneData_ok:
  "parseTombstoneData E d = Inr v \<Longrightarrow> ValidIdentifier v \<and>
     (\<exists>r. UnmarshalTombstone E d = Inr (v, r) \<and> length r \<le> MaxTombstoneReasonBytes)"
  by (auto simp: parseTombstoneData_def split: if_splits sum.splits prod.splits)

lemma Parse_success:
  assumes "Parse L E skew now newID jwt body = Inr att"
  shows "parseAndValidateAttestation L skew now newID body (AddressHex L jwt) = Inr (attEvent att)"
    "verifySignature L E (attEvent att) (HexToAddress L (hSource (Header (attEvent att)))) = Inr True"
    "if hType (Header (attEvent att)) = TypeAttestationTombstone L
     then parseTombstoneData E (Data (attEvent att)) = Inr (attVoidsID att) else attVoidsID att = []"
  using assms by (auto simp: Parse_def split: sum.splits if_splits)

end
