(* ===== verification/Handler.thy ===== *)
theory Handler
  imports Publisher Fsstore Attest
begin

text \<open>
  \<^verbatim>\<open>internal/handler/handler.go\<close>: the two ingest handlers. As in the Go struct, the converter,
  the attestation parser, the splitter and the publisher are functions the handler is given,
  each over its own state; \<open>din_handlers\<close> puts in the program's own. A request is the
  identity the middleware put into its context and the outcome of reading its body. A panic of
  a component aborts the request without a response, the value \<open>None\<close>.
\<close>

section \<open>Definitions\<close>

record http_request =
  reqSource :: "string option"
  reqBody :: "bytes result"

record http_response =
  status :: nat
  respBody :: string
  respHeaders :: "(string \<times> string) list"

record ('c, 'o, 'p) handlers =
  hConvert :: "string \<Rightarrow> bytes \<Rightarrow> 'c \<Rightarrow> 'c \<times> raw_event list result"
  hParse :: "address \<Rightarrow> bytes \<Rightarrow> attestation result"
  hMaybeSplit :: "raw_event \<Rightarrow> 'o \<Rightarrow> 'o \<times> stored_event result"
  hPublish :: "stored_event \<Rightarrow> 'p \<Rightarrow> 'p \<times> go_error option"
  hPublishBatch :: "stored_event list \<Rightarrow> 'p \<Rightarrow> 'p \<times> go_error option"
  ValidateFingerprint :: bool
  hLib :: ce_lib
  hGarage :: garage_lib

record ('c, 'o, 'p) hstate =
  hsConv :: 'c
  hsStore :: 'o
  hsPub :: 'p

definition http_Error :: "string \<Rightarrow> nat \<Rightarrow> http_response" where
  "http_Error m code = \<lparr>status = code, respBody = m @ [CHR 0x0A], respHeaders = []\<rparr>"

definition writeError :: "go_error \<Rightarrow> http_response" where
  "writeError err =
     (if errors_is err MaxBytesError then http_Error ''payload too large'' 413
      else if errors_is err ErrPayloadTooLarge then http_Error ''event exceeds maximum payload size'' 413
      else if errors_is err ErrValidation then http_Error (err_text err) 400
      else if errors_is err ErrUnavailable
        then (http_Error ''ingest temporarily unavailable'' 503)\<lparr>respHeaders := [(''Retry-After'', ''5'')]\<rparr>
      else http_Error ''internal error'' 500)"

text \<open>What the server sends when a component returned an error: nothing if it panicked.\<close>

definition fail :: "go_error \<Rightarrow> http_response option" where
  "fail err = (if errors_is err RuntimePanic then None else Some (writeError err))"

definition status_ok :: http_response where
  "status_ok = \<lparr>status = 200, respBody = [], respHeaders = []\<rparr>"

definition split :: "('c, 'o, 'p) handlers \<Rightarrow> raw_event \<Rightarrow> string \<Rightarrow> 'o \<Rightarrow> 'o \<times> stored_event result" where
  "split h event voidsID s =
     (case hMaybeSplit h event s of
        (s1, Inl e) \<Rightarrow> (s1, Inl (errorf (''splitting event '' @ hID (Header event) @ '': '') e ''''))
      | (s1, Inr sev) \<Rightarrow> (s1, Inr (sev\<lparr>VoidsID := voidsID\<rparr>)))"

definition publishOne ::
  "('c, 'o, 'p) handlers \<Rightarrow> raw_event \<Rightarrow> string \<Rightarrow> ('c, 'o, 'p) hstate
     \<Rightarrow> ('c, 'o, 'p) hstate \<times> go_error option" where
  "publishOne h event voidsID st =
     (case split h event voidsID (hsStore st) of
        (s1, Inl e) \<Rightarrow> (st\<lparr>hsStore := s1\<rparr>, Some e)
      | (s1, Inr sev) \<Rightarrow>
          (case hPublish h sev (hsPub st) of
             (p1, r) \<Rightarrow> (st\<lparr>hsStore := s1, hsPub := p1\<rparr>, r)))"

text \<open>The loop of \<^verbatim>\<open>Connection\<close>: validate, split and collect, joining the faults.\<close>

fun collect ::
  "('c, 'o, 'p) handlers \<Rightarrow> raw_event list \<Rightarrow> go_error option \<Rightarrow> go_error option
     \<Rightarrow> stored_event list \<Rightarrow> 'o
     \<Rightarrow> 'o \<times> go_error option \<times> go_error option \<times> stored_event list" where
  "collect h [] validationErr splitErr toPublish s = (s, validationErr, splitErr, toPublish)"
| "collect h (ev # evs) validationErr splitErr toPublish s =
     (case (if ValidateFingerprint h then Validate (hLib h) (hGarage h) ev else None) of
        Some err \<Rightarrow>
          collect h evs
            (if errors_is err ErrInvalidVIN then validationErr
             else errors_join validationErr
               (Some (errorf2 '''' (sentinel_error ErrValidation)
                  ('': validating fingerprint '' @ hID (Header ev) @ '': '') err '''')))
            splitErr toPublish s
      | None \<Rightarrow>
          (case split h ev [] s of
             (s1, Inl err) \<Rightarrow> collect h evs validationErr (errors_join splitErr (Some err)) toPublish s1
           | (s1, Inr sev) \<Rightarrow> collect h evs validationErr splitErr (toPublish @ [sev]) s1))"

definition Connection ::
  "('c, 'o, 'p) handlers \<Rightarrow> http_request \<Rightarrow> ('c, 'o, 'p) hstate
     \<Rightarrow> ('c, 'o, 'p) hstate \<times> http_response option" where
  "Connection h r st =
     (case reqSource r of
        None \<Rightarrow> (st, Some (http_Error ''missing client identity'' 401))
      | Some source \<Rightarrow>
     (case reqBody r of
        Inl e \<Rightarrow> (st, fail e)
      | Inr body \<Rightarrow>
     (case hConvert h source body (hsConv st) of
        (c1, Inl e) \<Rightarrow> (st\<lparr>hsConv := c1\<rparr>, fail e)
      | (c1, Inr events) \<Rightarrow>
     (case collect h events None None [] (hsStore st) of
        (s1, validationErr, splitErr, toPublish) \<Rightarrow>
     (case hPublishBatch h toPublish (hsPub st) of
        (p1, perr) \<Rightarrow>
          (\<lparr>hsConv = c1, hsStore = s1, hsPub = p1\<rparr>,
           (case perr of
              Some e \<Rightarrow> fail e
            | None \<Rightarrow>
               (case splitErr of
                  Some e \<Rightarrow> fail e
                | None \<Rightarrow>
                   (case validationErr of
                      Some e \<Rightarrow> fail e
                    | None \<Rightarrow> Some status_ok))))))))) "

definition Attestation ::
  "('c, 'o, 'p) handlers \<Rightarrow> http_request \<Rightarrow> ('c, 'o, 'p) hstate
     \<Rightarrow> ('c, 'o, 'p) hstate \<times> http_response option" where
  "Attestation h r st =
     (case reqSource r of
        None \<Rightarrow> (st, Some (http_Error ''missing client identity'' 401))
      | Some source \<Rightarrow>
     (case reqBody r of
        Inl e \<Rightarrow> (st, fail e)
      | Inr body \<Rightarrow>
     (case hParse h (HexToAddress (hLib h) source) body of
        Inl e \<Rightarrow> (st, fail e)
      | Inr att \<Rightarrow>
     (case publishOne h (attEvent att) (attVoidsID att) st of
        (st1, Some e) \<Rightarrow> (st1, fail e)
      | (st1, None) \<Rightarrow> (st1, Some status_ok)))))"

section \<open>The wiring\<close>

text \<open>The splitter's environment: the clock and the UUID generator, by the number of the call,
  and the store.\<close>

record 'o split_env =
  seNow :: "nat \<Rightarrow> go_time"
  seUUID :: "nat \<Rightarrow> string"
  seCalls :: nat
  seStore :: 'o

definition env_MaybeSplit :: "'o splitter \<Rightarrow> raw_event \<Rightarrow> 'o split_env \<Rightarrow> 'o split_env \<times> stored_event result" where
  "env_MaybeSplit sp ev env =
     (case MaybeSplit sp (seNow env (seCalls env)) (seUUID env (seCalls env)) ev (seStore env) of
        (s1, r) \<Rightarrow> (env\<lparr>seCalls := Suc (seCalls env), seStore := s1\<rparr>, r))"

definition din_handlers ::
  "ce_lib \<Rightarrow> garage_lib \<Rightarrow> eth_lib \<Rightarrow> duration \<Rightarrow> go_time \<Rightarrow> string \<Rightarrow> 'o splitter \<Rightarrow> bool
     \<Rightarrow> (converter, 'o split_env, ('s, 'f) publisher) handlers" where
  "din_handlers L G E skew now newID sp vf =
     \<lparr>hConvert = Convert L G skew now newID, hParse = Parse L E skew now newID,
      hMaybeSplit = env_MaybeSplit sp, hPublish = Publish, hPublishBatch = PublishBatch,
      ValidateFingerprint = vf, hLib = L, hGarage = G\<rparr>"

section \<open>Responses\<close>

lemma writeError_status: "status (writeError e) \<in> {400, 413, 500, 503}"
  by (simp add: writeError_def http_Error_def)

lemma fail_not_ok: "fail e = Some r \<Longrightarrow> status r \<noteq> 200"
  using writeError_status [of e] by (auto simp: fail_def split: if_splits)

lemma status_ok_200 [simp]: "status status_ok = 200"
  by (simp add: status_ok_def)

lemma http_Error_status [simp]: "status (http_Error m c) = c"
  by (simp add: http_Error_def)

lemma writeError_503_iff:
  "status (writeError e) = 503 \<longleftrightarrow> errors_is e ErrUnavailable \<and> \<not> errors_is e ErrValidation \<and>
     \<not> errors_is e ErrPayloadTooLarge \<and> \<not> errors_is e MaxBytesError"
  by (simp add: writeError_def)

section \<open>Collecting\<close>

text \<open>A fingerprint the program drops silently.\<close>

definition dropped :: "('c, 'o, 'p) handlers \<Rightarrow> raw_event \<Rightarrow> bool" where
  "dropped h ev \<longleftrightarrow> ValidateFingerprint h \<and>
     (\<exists>e. Validate (hLib h) (hGarage h) ev = Some e \<and> errors_is e ErrInvalidVIN)"

definition header_keeping :: "('c, 'o, 'p) handlers \<Rightarrow> bool" where
  "header_keeping h \<longleftrightarrow> (\<forall>ev s s1 sev. hMaybeSplit h ev s = (s1, Inr sev) \<longrightarrow> ev_header sev = Header ev)"

lemma header_keeping_din [simp]: "header_keeping (din_handlers L G E skew now i sp vf)"
  by (auto simp: header_keeping_def din_handlers_def env_MaybeSplit_def
      dest: MaybeSplit_header split: prod.splits)

lemma split_header:
  "header_keeping h \<Longrightarrow> split h ev v s = (s1, Inr sev) \<Longrightarrow> ev_header sev = Header ev \<and> VoidsID sev = v"
  by (auto simp: split_def header_keeping_def split: prod.splits sum.splits)

lemma errors_join_Some [simp]: "errors_join e (Some f) \<noteq> None"
  by simp

lemma collect_faults_grow:
  "collect h evs v se acc s = (s', v', se', acc') \<Longrightarrow>
     (v \<noteq> None \<longrightarrow> v' \<noteq> None) \<and> (se \<noteq> None \<longrightarrow> se' \<noteq> None)"
proof (induction evs arbitrary: v se acc s)
  case (Cons ev evs)
  then show ?case
    by (fastforce split: option.splits prod.splits sum.splits if_splits)
qed simp

lemma collect_covers:
  assumes "header_keeping h"
  shows "collect h evs v se acc s = (s', v', se', acc') \<Longrightarrow>
     \<exists>kept. acc' = acc @ kept \<and>
       (\<forall>ev\<in>set evs. dropped h ev \<or> v' \<noteq> None \<or> se' \<noteq> None \<or> (\<exists>sev\<in>set kept. ev_header sev = Header ev))"
proof (induction evs arbitrary: v se acc s)
  case (Cons ev evs)
  let ?val = "if ValidateFingerprint h then Validate (hLib h) (hGarage h) ev else None"
  show ?case
  proof (cases ?val)
    case (Some err)
    let ?v = "if errors_is err ErrInvalidVIN then v
      else errors_join v (Some (errorf2 '''' (sentinel_error ErrValidation)
        ('': validating fingerprint '' @ hID (Header ev) @ '': '') err ''''))"
    from Cons.prems Some have c: "collect h evs ?v se acc s = (s', v', se', acc')"
      by (simp only: collect.simps option.case)
    have "dropped h ev \<or> v' \<noteq> None"
    proof (cases "errors_is err ErrInvalidVIN")
      case True
      with Some show ?thesis by (auto simp: dropped_def split: if_splits)
    next
      case False
      then have "?v \<noteq> None" by simp
      with collect_faults_grow [OF c] show ?thesis by blast
    qed
    with Cons.IH [OF c] show ?thesis by auto
  next
    case None
    obtain s1 r where r: "split h ev [] s = (s1, r)" by (cases "split h ev [] s")
    show ?thesis
    proof (cases r)
      case (Inl err)
      with Cons.prems None r have c: "collect h evs v (errors_join se (Some err)) acc s1 = (s', v', se', acc')"
        by (simp only: collect.simps option.case prod.case sum.case)
      with collect_faults_grow [OF c] have "se' \<noteq> None" by simp
      with Cons.IH [OF c] show ?thesis by auto
    next
      case (Inr sev)
      with Cons.prems None r have c: "collect h evs v se (acc @ [sev]) s1 = (s', v', se', acc')"
        by (simp only: collect.simps option.case prod.case sum.case)
      from split_header [OF assms r [unfolded Inr]] have "ev_header sev = Header ev" by simp
      with Cons.IH [OF c] show ?thesis by fastforce
    qed
  qed
qed simp

text \<open>The stages of a request that reached the publisher.\<close>

lemma Connection_published:
  assumes "Connection h r st = (st', resp)" "reqSource r = Some src" "reqBody r = Inr body"
    "hConvert h src body (hsConv st) = (c1, Inr evs)"
  obtains v se acc perr where
    "collect h evs None None [] (hsStore st) = (hsStore st', v, se, acc)"
    "hPublishBatch h acc (hsPub st) = (hsPub st', perr)" "hsConv st' = c1"
    "resp = (case perr of Some e \<Rightarrow> fail e
       | None \<Rightarrow> (case se of Some e \<Rightarrow> fail e
          | None \<Rightarrow> (case v of Some e \<Rightarrow> fail e | None \<Rightarrow> Some status_ok)))"
proof -
  obtain s1 v se acc where c: "collect h evs None None [] (hsStore st) = (s1, v, se, acc)"
    by (cases "collect h evs None None [] (hsStore st)")
  obtain p1 perr where p: "hPublishBatch h acc (hsPub st) = (p1, perr)"
    by (cases "hPublishBatch h acc (hsPub st)")
  from assms c p have "st' = \<lparr>hsConv = c1, hsStore = s1, hsPub = p1\<rparr>"
    "resp = (case perr of Some e \<Rightarrow> fail e
       | None \<Rightarrow> (case se of Some e \<Rightarrow> fail e
          | None \<Rightarrow> (case v of Some e \<Rightarrow> fail e | None \<Rightarrow> Some status_ok)))"
    by (simp_all add: Connection_def)
  with c p show ?thesis by (intro that [of v se acc perr]) simp_all
qed

lemma Connection_200E:
  assumes "Connection h r st = (st', Some resp)" "status resp = 200"
  obtains src body c1 evs acc where "reqSource r = Some src" "reqBody r = Inr body"
    "hConvert h src body (hsConv st) = (c1, Inr evs)"
    "collect h evs None None [] (hsStore st) = (hsStore st', None, None, acc)"
    "hPublishBatch h acc (hsPub st) = (hsPub st', None)"
proof -
  from assms obtain src where src: "reqSource r = Some src"
    by (auto simp: Connection_def split: option.splits)
  from assms src obtain body where body: "reqBody r = Inr body"
    using fail_not_ok by (auto simp: Connection_def split: sum.splits)
  from assms src body obtain c1 evs where evs: "hConvert h src body (hsConv st) = (c1, Inr evs)"
    using fail_not_ok by (auto simp: Connection_def split: sum.splits prod.splits)
  from Connection_published [OF assms(1) src body evs] obtain v se acc perr where
    p: "collect h evs None None [] (hsStore st) = (hsStore st', v, se, acc)"
      "hPublishBatch h acc (hsPub st) = (hsPub st', perr)"
      "Some resp = (case perr of Some e \<Rightarrow> fail e
        | None \<Rightarrow> (case se of Some e \<Rightarrow> fail e
          | None \<Rightarrow> (case v of Some e \<Rightarrow> fail e | None \<Rightarrow> Some status_ok)))"
    by metis
  with fail_not_ok assms(2) have "perr = None" "se = None" "v = None"
    by (auto split: option.splits)
  with p src body evs that show ?thesis by blast
qed

section \<open>Durability\<close>

context wal_publisher
begin

text \<open>Once the publisher returned nil, every event of the request that was not dropped and met
  no fault is in the log, whatever the response says about its siblings.\<close>

lemma connection_siblings_durable:
  assumes "ok (hsPub st)" "hPublishBatch h = publish_batch" "header_keeping h"
    "collect h evs None None [] (hsStore st) = (s', v, se, acc)"
    "publish_batch acc (hsPub st) = (p', None)" "ev \<in> set evs"
  shows "dropped h ev \<or> v \<noteq> None \<or> se \<noteq> None \<or>
     (\<exists>sev. ev_header sev = Header ev \<and> msg_id (hsPub st) sev \<in> wal p')"
proof -
  from collect_covers [OF assms(3,4)] obtain kept where k: "acc = kept"
    "dropped h ev \<or> v \<noteq> None \<or> se \<noteq> None \<or> (\<exists>sev\<in>set kept. ev_header sev = Header ev)"
    using assms(6) by auto
  from publish_batch_durable [OF assms(1,5)] k show ?thesis by blast
qed

lemma connection_durable:
  assumes "ok (hsPub st)" "hPublishBatch h = publish_batch" "header_keeping h"
    "Connection h r st = (st', Some resp)" "status resp = 200"
  shows "\<exists>src body c1 evs. reqSource r = Some src \<and> reqBody r = Inr body \<and>
     hConvert h src body (hsConv st) = (c1, Inr evs) \<and>
     (\<forall>ev\<in>set evs. dropped h ev \<or>
        (\<exists>sev. ev_header sev = Header ev \<and> msg_id (hsPub st) sev \<in> wal (hsPub st')))"
proof -
  from Connection_200E [OF assms(4,5)] obtain src body c1 evs acc where
    s: "reqSource r = Some src" "reqBody r = Inr body"
      "hConvert h src body (hsConv st) = (c1, Inr evs)"
      "collect h evs None None [] (hsStore st) = (hsStore st', None, None, acc)"
      "hPublishBatch h acc (hsPub st) = (hsPub st', None)" .
  have "dropped h ev \<or> (\<exists>sev. ev_header sev = Header ev \<and> msg_id (hsPub st) sev \<in> wal (hsPub st'))"
    if "ev \<in> set evs" for ev
    using connection_siblings_durable [OF assms(1-3) s(4) _ that] s(5) assms(2) by simp
  with s(1-3) show ?thesis by blast
qed

lemma attestation_durable:
  assumes "ok (hsPub st)" "hPublish h = publish" "header_keeping h"
    "Attestation h r st = (st', Some resp)" "status resp = 200"
  shows "\<exists>src body att sev. reqSource r = Some src \<and> reqBody r = Inr body \<and>
     hParse h (HexToAddress (hLib h) src) body = Inr att \<and>
     ev_header sev = Header (attEvent att) \<and> VoidsID sev = attVoidsID att \<and>
     msg_id (hsPub st) sev \<in> wal (hsPub st')"
proof -
  from assms(4,5) obtain src body att st1 where
    s: "reqSource r = Some src" "reqBody r = Inr body"
      "hParse h (HexToAddress (hLib h) src) body = Inr att"
    and p: "publishOne h (attEvent att) (attVoidsID att) st = (st', None)"
    using fail_not_ok
    by (auto simp: Attestation_def split: option.splits sum.splits prod.splits)
  from p obtain s1 sev p1 where v: "split h (attEvent att) (attVoidsID att) (hsStore st) = (s1, Inr sev)"
    and q: "hPublish h sev (hsPub st) = (p1, None)" "hsPub st' = p1"
    by (auto simp: publishOne_def split: prod.splits sum.splits)
  from publish_durable [OF assms(1)] q assms(2) have "msg_id (hsPub st) sev \<in> wal (hsPub st')" by simp
  with split_header [OF assms(3) v] s show ?thesis by blast
qed

end

end
