(* ===== verification/Lake_Writer.thy ===== *)
theory Lake_Writer
  imports Interfaces
begin

text \<open>
  \<^verbatim>\<open>internal/lake/row.go\<close>, \<^verbatim>\<open>internal/lake/writer.go\<close> and the retry loop of
  \<^verbatim>\<open>internal/lake/lake.go\<close>: appending bundles of events to the lake. DuckDB is the record
  \<open>duck_ops\<close> over an opaque database state, each call on one of the pinned connections;
  whether the context of a call can be cancelled is an argument, since the code runs its
  rollbacks on one that cannot.
\<close>

section \<open>Retrying\<close>

text \<open>\<^verbatim>\<open>retryCatalogIf\<close>: \<open>wait d\<close> is the \<^verbatim>\<open>select\<close> between the timer and the context, \<open>None\<close> when
  the timer fired and the context's error otherwise.\<close>

function retry_loop ::
  "nat \<Rightarrow> (duration \<Rightarrow> 'd \<Rightarrow> 'd \<times> go_error option) \<Rightarrow> ('d \<Rightarrow> 'd \<times> go_error option)
     \<Rightarrow> (go_error \<Rightarrow> bool) \<Rightarrow> 'd \<Rightarrow> 'd \<times> go_error option" where
  "retry_loop attempt wait fn shouldRetry d =
     (case fn d of
        (d1, None) \<Rightarrow> (d1, None)
      | (d1, Some err) \<Rightarrow>
          if \<not> shouldRetry err then (d1, Some err)
          else if 3 \<le> attempt + 1 then (d1, Some err)
          else case wait (int (attempt + 1) * 500 * millisecond) d1 of
                 (d2, None) \<Rightarrow> retry_loop (attempt + 1) wait fn shouldRetry d2
               | (d2, Some ctxErr) \<Rightarrow> (d2, Some ctxErr))"
  by pat_completeness auto
termination by (relation "measure (\<lambda>(attempt, _). 3 - attempt)") auto

declare retry_loop.simps [simp del]

definition retryCatalogIf ::
  "(duration \<Rightarrow> 'd \<Rightarrow> 'd \<times> go_error option) \<Rightarrow> ('d \<Rightarrow> 'd \<times> go_error option)
     \<Rightarrow> (go_error \<Rightarrow> bool) \<Rightarrow> 'd \<Rightarrow> 'd \<times> go_error option" where
  "retryCatalogIf = retry_loop 0"

definition retryCatalog ::
  "(duration \<Rightarrow> 'd \<Rightarrow> 'd \<times> go_error option) \<Rightarrow> ('d \<Rightarrow> 'd \<times> go_error option)
     \<Rightarrow> 'd \<Rightarrow> 'd \<times> go_error option" where
  "retryCatalog wait fn = retryCatalogIf wait fn (\<lambda>_. True)"

section \<open>Rows\<close>

datatype dvalue = DNull | DText string | DBytes bytes | DTime go_time

type_synonym row = "dvalue list"

definition emptyExtrasJSON :: string where "emptyExtrasJSON = ''{}''"
definition rawEventColumnCount :: nat where "rawEventColumnCount = 13"

definition truncate_ms :: "go_time \<Rightarrow> go_time" where
  "truncate_ms t = t - t mod millisecond"

definition extras_value :: "ce_lib \<Rightarrow> ce_header \<Rightarrow> dvalue result" where
  "extras_value L hdr =
     (case NonColumnExtras L hdr of
        None \<Rightarrow> Inr (DText emptyExtrasJSON)
      | Some extras \<Rightarrow>
         (case MarshalExtras L extras of
            Inl e \<Rightarrow> Inl (errorf ''marshaling extras: '' e '''')
          | Inr b \<Rightarrow> Inr (DBytes b)))"

definition fillRowArgs :: "ce_lib \<Rightarrow> stored_event \<Rightarrow> row result" where
  "fillRowArgs L event =
     (let hdr = ev_header event; raw = RawEvent event;
          dataBase64 = (if DataBase64 raw \<noteq> [] then DBytes (DataBase64 raw) else DNull);
          data = (if DataBase64 raw = [] \<and> 0 < length (Data raw) then DBytes (Data raw) else DNull);
          dataIndexKey = (if DataIndexKey event \<noteq> [] then DText (DataIndexKey event) else DNull);
          voidsID = (if VoidsID event \<noteq> [] then DText (VoidsID event) else DNull)
      in case extras_value L hdr of
           Inl e \<Rightarrow> Inl e
         | Inr extrasJSON \<Rightarrow>
             Inr [DText (hSubject hdr), DTime (truncate_ms (hTime hdr)), DText (hType hdr),
                  DText (hID hdr), DText (hSource hdr), DText (hProducer hdr),
                  DText (hDataContentType hdr), DText (hDataVersion hdr), extrasJSON, data,
                  dataBase64, dataIndexKey, voidsID])"

definition rowArgs :: "ce_lib \<Rightarrow> stored_event \<Rightarrow> row result" where
  "rowArgs L event = fillRowArgs L event"

section \<open>The writer\<close>

datatype ctx_kind = RequestCtx | WithoutCancel

record 'd duck_ops =
  OpenConn :: "'d \<Rightarrow> 'd \<times> nat result"
  CloseConn :: "nat \<Rightarrow> 'd \<Rightarrow> 'd \<times> go_error option"
  ExecContext :: "ctx_kind \<Rightarrow> string \<Rightarrow> nat \<Rightarrow> 'd \<Rightarrow> 'd \<times> go_error option"
  DriverIsDuckDB :: "nat \<Rightarrow> bool"
  NewAppender :: "string \<Rightarrow> nat \<Rightarrow> 'd \<Rightarrow> 'd \<times> go_error option"
  AppendRow :: "row \<Rightarrow> nat \<Rightarrow> 'd \<Rightarrow> 'd \<times> go_error option"
  CloseWithCancel :: "nat \<Rightarrow> 'd \<Rightarrow> 'd \<times> go_error option"
  RetryWait :: "duration \<Rightarrow> 'd \<Rightarrow> 'd \<times> go_error option"

record 'd writer =
  wTable :: string
  wConns :: "nat list"
  wNext :: "64 word"
  wDB :: 'd
  wOps :: "'d duck_ops"
  wLib :: ce_lib

fun close_conns :: "'d duck_ops \<Rightarrow> nat list \<Rightarrow> 'd \<Rightarrow> 'd \<times> go_error option" where
  "close_conns ops [] d = (d, None)"
| "close_conns ops (c # cs) d =
     (case CloseConn ops c d of
        (d1, e1) \<Rightarrow> (case close_conns ops cs d1 of
                     (d2, e2) \<Rightarrow> (d2, case e1 of Some e \<Rightarrow> Some e | None \<Rightarrow> e2)))"

definition Close :: "'d writer \<Rightarrow> 'd writer \<times> go_error option" where
  "Close w = (case close_conns (wOps w) (wConns w) (wDB w) of (d, e) \<Rightarrow> (w\<lparr>wDB := d\<rparr>, e))"

fun pin_conns :: "'d duck_ops \<Rightarrow> nat \<Rightarrow> nat list \<Rightarrow> 'd \<Rightarrow> 'd \<times> nat list result" where
  "pin_conns ops 0 conns d = (d, Inr conns)"
| "pin_conns ops (Suc n) conns d =
     (case OpenConn ops d of
        (d1, Inl e) \<Rightarrow> (fst (close_conns ops conns d1), Inl (errorf ''lake writer: '' e ''''))
      | (d1, Inr c) \<Rightarrow> pin_conns ops n (conns @ [c]) d1)"

definition NewWriterN ::
  "'d duck_ops \<Rightarrow> ce_lib \<Rightarrow> string \<Rightarrow> int \<Rightarrow> 'd \<Rightarrow> 'd \<times> 'd writer result" where
  "NewWriterN ops L table n d =
     (case pin_conns ops (if n < 1 then 1 else nat n) [] d of
        (d1, Inl e) \<Rightarrow> (d1, Inl e)
      | (d1, Inr cs) \<Rightarrow>
          (d1, Inr \<lparr>wTable = table, wConns = cs, wNext = 0, wDB = d1, wOps = ops, wLib = L\<rparr>))"

text \<open>The loop of \<^verbatim>\<open>appendAll\<close> over the rows, with the index its errors name.\<close>

fun append_rows :: "'d duck_ops \<Rightarrow> ce_lib \<Rightarrow> nat \<Rightarrow> nat \<Rightarrow> stored_event list \<Rightarrow> 'd \<Rightarrow> 'd \<times> go_error option" where
  "append_rows ops L c i [] d = (d, None)"
| "append_rows ops L c i (ev # evs) d =
     (case fillRowArgs L ev of
        Inl e \<Rightarrow>
          (fst (CloseWithCancel ops c d),
           Some (errorf2 (''lake row '' @ show_nat i @ '': '') (sentinel_error ErrPoisonRow) '': '' e ''''))
      | Inr args \<Rightarrow>
          (case AppendRow ops args c d of
             (d1, Some e) \<Rightarrow>
               (fst (CloseWithCancel ops c d1),
                Some (errorf2 (''lake append row '' @ show_nat i @ '': '') (sentinel_error ErrPoisonRow) '': '' e ''''))
           | (d1, None) \<Rightarrow> append_rows ops L c (Suc i) evs d1))"

definition appendAll :: "'d duck_ops \<Rightarrow> ce_lib \<Rightarrow> nat \<Rightarrow> string \<Rightarrow> stored_event list \<Rightarrow> 'd \<Rightarrow> 'd \<times> go_error option" where
  "appendAll ops L c table events d =
     (if \<not> DriverIsDuckDB ops c then (d, Some (errors_new ''lake appender: unexpected driver conn type''))
      else case NewAppender ops table c d of
        (d1, Some e) \<Rightarrow> (d1, Some (errorf ''lake appender: '' e ''''))
      | (d1, None) \<Rightarrow>
          (case append_rows ops L c 0 events d1 of
             (d2, Some e) \<Rightarrow> (d2, Some e)
           | (d2, None) \<Rightarrow>
               (case CloseWithCancel ops c d2 of
                  (d3, Some e) \<Rightarrow> (d3, Some (errorf ''lake appender close: '' e ''''))
                | (d3, None) \<Rightarrow> (d3, None))))"

definition writeBundleOnce ::
  "'d duck_ops \<Rightarrow> ce_lib \<Rightarrow> nat \<Rightarrow> string \<Rightarrow> stored_event list \<Rightarrow> 'd \<Rightarrow> 'd \<times> go_error option" where
  "writeBundleOnce ops L c table events d =
     (case ExecContext ops RequestCtx ''BEGIN'' c d of
        (d1, Some e) \<Rightarrow> (d1, Some (errorf ''lake write begin: '' e ''''))
      | (d1, None) \<Rightarrow>
          (case appendAll ops L c table events d1 of
             (d2, Some e) \<Rightarrow>
               (case ExecContext ops WithoutCancel ''ROLLBACK'' c d2 of
                  (d3, Some rbErr) \<Rightarrow> (d3, Some (errorf2 '''' e '' (rollback also failed: '' rbErr '')''))
                | (d3, None) \<Rightarrow> (d3, Some e))
           | (d2, None) \<Rightarrow>
               (case ExecContext ops RequestCtx ''COMMIT'' c d2 of
                  (d3, Some e) \<Rightarrow>
                    (fst (ExecContext ops WithoutCancel ''ROLLBACK'' c d3),
                     Some (errorf ''lake write commit: '' e ''''))
                | (d3, None) \<Rightarrow> (d3, None))))"

text \<open>\<^verbatim>\<open>strings.ToLower\<close>, exact on ASCII text; other bytes are left alone.\<close>

definition to_lower :: "string \<Rightarrow> string" where
  "to_lower s = map (\<lambda>c. let n = (of_char c :: nat) in if 65 \<le> n \<and> n \<le> 90 then ch (n + 32) else c) s"

definition isCommitConflict :: "go_error \<Rightarrow> bool" where
  "isCommitConflict err =
     (if errors_is err ErrPoisonRow then False
      else let msg = to_lower (err_text err)
           in contains msg ''transactioncontext error'' \<or> contains msg ''conflict'')"

text \<open>\<^verbatim>\<open>WriteBundle\<close>: the counter is a 64-bit word, incremented before it is read; a writer without
  connections divides by zero.\<close>

definition WriteBundle :: "stored_event list \<Rightarrow> 'd writer \<Rightarrow> 'd writer \<times> go_error option" where
  "WriteBundle events w =
     (if events = [] then (w, None)
      else if wConns w = [] then (w\<lparr>wNext := wNext w + 1\<rparr>, Some (sentinel_error RuntimePanic))
      else let next = wNext w + 1;
               c = wConns w ! unat (next mod word_of_nat (length (wConns w)))
           in case retryCatalogIf (RetryWait (wOps w))
                     (writeBundleOnce (wOps w) (wLib w) c (wTable w) events) isCommitConflict (wDB w) of
                (d, r) \<Rightarrow> (w\<lparr>wNext := next, wDB := d\<rparr>, r))"

section \<open>Lemmas: retrying\<close>

text \<open>A property of the state that both the step and the wait keep is kept by the loop; a
  quantity a step raises by at most one, and the wait not at all, is raised by at most three.\<close>

lemma retry_loop_inv:
  assumes fn: "\<And>d d' r. I d \<Longrightarrow> fn d = (d', r) \<Longrightarrow> I d'"
    and wait: "\<And>t d d' r. I d \<Longrightarrow> wait t d = (d', r) \<Longrightarrow> I d'"
  shows "I d \<Longrightarrow> retry_loop a wait fn sr d = (d', r) \<Longrightarrow> I d'"
proof (induction "3 - a" arbitrary: a d rule: less_induct)
  case less
  obtain d1 r1 where f: "fn d = (d1, r1)" by (cases "fn d")
  have i1: "I d1" using fn [OF less.prems(1) f] .
  show ?case
  proof (cases "\<exists>e. r1 = Some e \<and> sr e \<and> a + 1 < 3")
    case False
    with less.prems(2) f i1 show ?thesis
      by (auto simp: retry_loop.simps [of a] split: option.splits if_splits)
  next
    case True
    then obtain e where e: "r1 = Some e" "sr e" "a + 1 < 3" by blast
    obtain d2 r2 where w: "wait (int (a + 1) * 500 * millisecond) d1 = (d2, r2)"
      by (cases "wait (int (a + 1) * 500 * millisecond) d1")
    have i2: "I d2" using wait [OF i1 w] .
    show ?thesis
    proof (cases r2)
      case None
      with less.prems(2) f e w have "retry_loop (a + 1) wait fn sr d2 = (d', r)"
        by (simp add: retry_loop.simps [of a])
      moreover have "3 - (a + 1) < 3 - a" using e(3) by simp
      ultimately show ?thesis using less.hyps i2 by blast
    next
      case (Some x)
      with less.prems(2) f e w i2 show ?thesis by (simp add: retry_loop.simps [of a])
    qed
  qed
qed

lemma retry_loop_success:
  assumes fn: "\<And>d d' e. I d \<Longrightarrow> fn d = (d', Some e) \<Longrightarrow> I d'"
    and wait: "\<And>t d d' r. I d \<Longrightarrow> wait t d = (d', r) \<Longrightarrow> I d'"
  shows "I d \<Longrightarrow> retry_loop a wait fn sr d = (d', None) \<Longrightarrow> \<exists>d0. I d0 \<and> fn d0 = (d', None)"
proof (induction "3 - a" arbitrary: a d rule: less_induct)
  case less
  obtain d1 r1 where f: "fn d = (d1, r1)" by (cases "fn d")
  show ?case
  proof (cases r1)
    case None
    with less.prems f show ?thesis by (auto simp: retry_loop.simps [of a])
  next
    case (Some e)
    have i1: "I d1" using fn [OF less.prems(1) f [unfolded Some]] .
    from less.prems(2) f Some have e: "sr e" "a + 1 < 3"
      by (auto simp: retry_loop.simps [of a] split: if_splits)
    with less.prems(2) f Some obtain d2 where
      w: "wait (int (a + 1) * 500 * millisecond) d1 = (d2, None)"
      and rest: "retry_loop (a + 1) wait fn sr d2 = (d', None)"
      by (auto simp: retry_loop.simps [of a] split: prod.splits option.splits)
    moreover have "3 - (a + 1) < 3 - a" using e(2) by simp
    ultimately show ?thesis using less.hyps wait [OF i1 w] by blast
  qed
qed

text \<open>Counting: the step runs at most three times.\<close>

lemma retry_loop_count:
  assumes fn: "\<And>d d' r. fn d = (d', r) \<Longrightarrow> m d' \<le> m d + (1 :: nat)"
    and wait: "\<And>t d d' r. wait t d = (d', r) \<Longrightarrow> m d' \<le> m d"
  shows "a < 3 \<Longrightarrow> retry_loop a wait fn sr d = (d', r) \<Longrightarrow> m d' \<le> m d + (3 - a)"
proof (induction "3 - a" arbitrary: a d rule: less_induct)
  case less
  obtain d1 r1 where f: "fn d = (d1, r1)" by (cases "fn d")
  have m1: "m d1 \<le> m d + 1" using fn [OF f] .
  show ?case
  proof (cases "\<exists>e. r1 = Some e \<and> sr e \<and> a + 1 < 3")
    case False
    with less.prems f m1 show ?thesis
      by (auto simp: retry_loop.simps [of a] split: option.splits if_splits)
  next
    case True
    then obtain e where e: "r1 = Some e" "sr e" "a + 1 < 3" by blast
    obtain d2 r2 where w: "wait (int (a + 1) * 500 * millisecond) d1 = (d2, r2)"
      by (cases "wait (int (a + 1) * 500 * millisecond) d1")
    have m2: "m d2 \<le> m d + 1" using wait [OF w] m1 by simp
    show ?thesis
    proof (cases r2)
      case None
      with less.prems(2) f e w have "retry_loop (a + 1) wait fn sr d2 = (d', r)"
        by (simp add: retry_loop.simps [of a])
      moreover have "3 - (a + 1) < 3 - a" using e(3) by simp
      ultimately have "m d' \<le> m d2 + (3 - (a + 1))" using less.hyps e(3) by blast
      with m2 e(3) show ?thesis by simp
    next
      case (Some x)
      with less.prems f e w m2 show ?thesis by (simp add: retry_loop.simps [of a])
    qed
  qed
qed

section \<open>Lemmas: rows\<close>

lemma fillRowArgs_length: "fillRowArgs L ev = Inr r \<Longrightarrow> length r = rawEventColumnCount"
  by (auto simp: fillRowArgs_def rawEventColumnCount_def Let_def split: sum.splits)

lemma fillRowArgs_error: "fillRowArgs L ev = Inl e \<Longrightarrow>
    \<exists>x e0. NonColumnExtras L (ev_header ev) = Some x \<and> MarshalExtras L x = Inl e0"
  by (auto simp: fillRowArgs_def extras_value_def Let_def split: sum.splits option.splits)

text \<open>At most one of the payload columns is set, and it holds the payload the event carries.\<close>

lemma fillRowArgs_payload:
  assumes "fillRowArgs L ev = Inr r"
  shows "r ! 9 = DNull \<or> r ! 10 = DNull"
    "r ! 10 = (if DataBase64 (RawEvent ev) \<noteq> [] then DBytes (DataBase64 (RawEvent ev)) else DNull)"
    "DataBase64 (RawEvent ev) = [] \<Longrightarrow> Data (RawEvent ev) \<noteq> [] \<Longrightarrow> r ! 9 = DBytes (Data (RawEvent ev))"
    "r ! 1 = DTime (truncate_ms (hTime (ev_header ev)))"
  using assms by (auto simp: fillRowArgs_def Let_def split: sum.splits)

lemma truncate_ms_bounds: "truncate_ms t \<le> t \<and> t - truncate_ms t < millisecond \<and> truncate_ms t mod millisecond = 0"
proof -
  have "0 \<le> t mod 1000000" "t mod 1000000 < 1000000" by simp_all
  then show ?thesis by (simp add: truncate_ms_def millisecond_def mod_diff_left_eq)
qed

section \<open>What DuckDB promises\<close>

text \<open>The transactional behaviour the writer relies on, on three views of the database state:
  the rows committed to the table, the rows of the transaction open on a connection and the
  rows its appender holds. Committed rows stay. A failed commit may have committed or not.\<close>

definition grows :: "('d \<Rightarrow> 'r multiset) \<Rightarrow> ('d \<Rightarrow> 'd \<times> 'x) \<Rightarrow> bool" where
  "grows committed f \<longleftrightarrow> (\<forall>d. committed d \<subseteq># committed (fst (f d)))"

definition duck_txn ::
  "'d duck_ops \<Rightarrow> ('d \<Rightarrow> row multiset) \<Rightarrow> ('d \<Rightarrow> nat \<Rightarrow> row list) \<Rightarrow> ('d \<Rightarrow> nat \<Rightarrow> row list) \<Rightarrow> bool" where
  "duck_txn ops committed pend app \<longleftrightarrow>
     (\<forall>k q c. grows committed (ExecContext ops k q c)) \<and>
     (\<forall>t c. grows committed (NewAppender ops t c)) \<and>
     (\<forall>r c. grows committed (AppendRow ops r c)) \<and>
     (\<forall>c. grows committed (CloseWithCancel ops c)) \<and>
     (\<forall>t. grows committed (RetryWait ops t)) \<and>
     (\<forall>k c d d'. ExecContext ops k ''BEGIN'' c d = (d', None) \<longrightarrow> pend d' c = []) \<and>
     (\<forall>t c d d'. NewAppender ops t c d = (d', None) \<longrightarrow> app d' c = [] \<and> pend d' c = pend d c) \<and>
     (\<forall>r c d d'. AppendRow ops r c d = (d', None) \<longrightarrow> app d' c = app d c @ [r] \<and> pend d' c = pend d c) \<and>
     (\<forall>c d d'. CloseWithCancel ops c d = (d', None) \<longrightarrow> pend d' c = pend d c @ app d c) \<and>
     (\<forall>k c d d'. ExecContext ops k ''COMMIT'' c d = (d', None) \<longrightarrow>
        committed d + mset (pend d c) \<subseteq># committed d')"

lemma growsD: "grows cm f \<Longrightarrow> f d = (d', r) \<Longrightarrow> cm d \<subseteq># cm d'"
  by (metis fst_conv grows_def)

lemma duck_grows:
  assumes "duck_txn ops cm pend app"
  shows "ExecContext ops k q c d = (d', x) \<Longrightarrow> cm d \<subseteq># cm d'"
    and "NewAppender ops t c d = (d', x) \<Longrightarrow> cm d \<subseteq># cm d'"
    and "AppendRow ops r c d = (d', x) \<Longrightarrow> cm d \<subseteq># cm d'"
    and "CloseWithCancel ops c d = (d', x) \<Longrightarrow> cm d \<subseteq># cm d'"
    and "RetryWait ops w d = (d', x) \<Longrightarrow> cm d \<subseteq># cm d'"
  using assms unfolding duck_txn_def by (metis growsD)+

lemma duck_steps:
  assumes "duck_txn ops cm pend app"
  shows "ExecContext ops k ''BEGIN'' c d = (d', None) \<Longrightarrow> pend d' c = []"
    and "NewAppender ops t c d = (d', None) \<Longrightarrow> app d' c = [] \<and> pend d' c = pend d c"
    and "AppendRow ops r c d = (d', None) \<Longrightarrow> app d' c = app d c @ [r] \<and> pend d' c = pend d c"
    and "CloseWithCancel ops c d = (d', None) \<Longrightarrow> pend d' c = pend d c @ app d c"
    and "ExecContext ops k ''COMMIT'' c d = (d', None) \<Longrightarrow> cm d + mset (pend d c) \<subseteq># cm d'"
  using assms unfolding duck_txn_def by metis+

definition event_row :: "ce_lib \<Rightarrow> stored_event \<Rightarrow> row" where
  "event_row L ev = (case fillRowArgs L ev of Inr r \<Rightarrow> r | Inl _ \<Rightarrow> [])"

lemma append_rows_grows:
  assumes D: "duck_txn ops cm pend app"
  shows "append_rows ops L c i evs d = (d', r) \<Longrightarrow> cm d \<subseteq># cm d'"
proof (induction evs arbitrary: i d)
  case (Cons ev evs)
  have close: "cm x \<subseteq># cm (fst (CloseWithCancel ops c x))" for x
    using duck_grows(4) [OF D] by (metis prod.collapse)
  show ?case
  proof (cases "fillRowArgs L ev")
    case (Inl e)
    with Cons.prems close show ?thesis by auto
  next
    case (Inr args)
    obtain d1 r1 where a: "AppendRow ops args c d = (d1, r1)" by (cases "AppendRow ops args c d")
    note g = duck_grows(3) [OF D a]
    show ?thesis
    proof (cases r1)
      case None
      with Cons.prems Inr a have "append_rows ops L c (Suc i) evs d1 = (d', r)" by simp
      from Cons.IH [OF this] g show ?thesis by (rule subset_mset.order_trans [rotated])
    next
      case (Some e)
      with Cons.prems Inr a have "d' = fst (CloseWithCancel ops c d1)" by simp
      with g close [of d1] show ?thesis by (simp add: subset_mset.order_trans)
    qed
  qed
qed simp

lemma append_rows_success:
  assumes D: "duck_txn ops cm pend app"
  shows "append_rows ops L c i evs d = (d', None) \<Longrightarrow>
     app d' c = app d c @ map (event_row L) evs \<and> pend d' c = pend d c"
proof (induction evs arbitrary: i d)
  case (Cons ev evs)
  then obtain args d1 where "fillRowArgs L ev = Inr args" and a: "AppendRow ops args c d = (d1, None)"
    and r: "append_rows ops L c (Suc i) evs d1 = (d', None)"
    by (auto split: sum.splits prod.splits option.splits)
  with Cons.IH [OF r] duck_steps(3) [OF D a] show ?case by (simp add: event_row_def)
qed simp

lemma appendAll_grows:
  assumes D: "duck_txn ops cm pend app" and "appendAll ops L c t evs d = (d', r)"
  shows "cm d \<subseteq># cm d'"
  using assms(2) unfolding appendAll_def
  by (auto split: if_splits prod.splits option.splits
      dest!: duck_grows(2,4) [OF D] append_rows_grows [OF D] intro: subset_mset.order_trans)

lemma appendAll_success:
  assumes D: "duck_txn ops cm pend app" and "appendAll ops L c t evs d = (d', None)"
  shows "pend d' c = pend d c @ map (event_row L) evs"
proof -
  from assms(2) obtain d1 d2 where
    s: "NewAppender ops t c d = (d1, None)" "append_rows ops L c 0 evs d1 = (d2, None)"
      "CloseWithCancel ops c d2 = (d', None)"
    by (auto simp: appendAll_def split: if_splits prod.splits option.splits)
  with duck_steps(2) [OF D s(1)] append_rows_success [OF D s(2)] duck_steps(4) [OF D s(3)]
  show ?thesis by simp
qed

lemma writeBundleOnce_grows:
  assumes D: "duck_txn ops cm pend app" and "writeBundleOnce ops L c t evs d = (d', r)"
  shows "cm d \<subseteq># cm d'"
proof -
  have rb: "cm x \<subseteq># cm (fst (ExecContext ops WithoutCancel ''ROLLBACK'' c x))" for x
    using duck_grows(1) [OF D] by (metis prod.collapse)
  show ?thesis using assms(2) unfolding writeBundleOnce_def
    by (auto split: prod.splits option.splits dest!: duck_grows(1) [OF D] appendAll_grows [OF D]
        intro: subset_mset.order_trans subset_mset.order_trans [OF _ rb])
qed

lemma writeBundleOnce_success:
  assumes D: "duck_txn ops cm pend app" and "writeBundleOnce ops L c t evs d = (d', None)"
  shows "cm d + mset (map (event_row L) evs) \<subseteq># cm d'"
proof -
  from assms(2) obtain d1 d2 where
    s: "ExecContext ops RequestCtx ''BEGIN'' c d = (d1, None)" "appendAll ops L c t evs d1 = (d2, None)"
      "ExecContext ops RequestCtx ''COMMIT'' c d2 = (d', None)"
    by (auto simp: writeBundleOnce_def split: prod.splits option.splits)
  have "cm d \<subseteq># cm d2"
    using duck_grows(1) [OF D s(1)] appendAll_grows [OF D s(2)] by (rule subset_mset.order_trans)
  moreover have "pend d2 c = map (event_row L) evs"
    using duck_steps(1) [OF D s(1)] appendAll_success [OF D s(2)] by simp
  ultimately show ?thesis
    using duck_steps(5) [OF D s(3)]
    by (metis subset_mset.add_right_mono subset_mset.order_trans)
qed

lemma WriteBundle_config:
  "WriteBundle evs w = (w', r) \<Longrightarrow> wOps w' = wOps w \<and> wLib w' = wLib w \<and> wConns w' = wConns w \<and> wTable w' = wTable w"
  by (auto simp: WriteBundle_def Let_def split: if_splits prod.splits)

lemma WriteBundle_grows:
  assumes D: "duck_txn (wOps w) cm pend app" and "WriteBundle evs w = (w', r)"
  shows "cm (wDB w) \<subseteq># cm (wDB w')"
proof -
  let ?I = "\<lambda>d. cm (wDB w) \<subseteq># cm d"
  have "?I d'" if "retryCatalogIf (RetryWait (wOps w))
      (writeBundleOnce (wOps w) (wLib w) c (wTable w) evs) isCommitConflict (wDB w) = (d', q)" for c d' q
    using that unfolding retryCatalogIf_def
    by (rule retry_loop_inv [where I = ?I, rotated -1])
      (auto dest: writeBundleOnce_grows [OF D] duck_grows(5) [OF D] intro: subset_mset.order_trans)
  with assms(2) show ?thesis
    by (auto simp: WriteBundle_def Let_def split: if_splits prod.splits)
qed

lemma WriteBundle_commits:
  assumes D: "duck_txn (wOps w) cm pend app" and "WriteBundle evs w = (w', None)"
  shows "cm (wDB w) + mset (map (event_row (wLib w)) evs) \<subseteq># cm (wDB w')"
proof (cases "evs = []")
  case True
  with assms(2) show ?thesis by (simp add: WriteBundle_def)
next
  case False
  let ?I = "\<lambda>d. cm (wDB w) \<subseteq># cm d"
  from False assms(2) obtain c where r: "retry_loop 0 (RetryWait (wOps w))
      (writeBundleOnce (wOps w) (wLib w) c (wTable w) evs) isCommitConflict (wDB w) = (wDB w', None)"
    by (auto simp: WriteBundle_def Let_def retryCatalogIf_def split: if_splits prod.splits)
  have "\<exists>d0. ?I d0 \<and> writeBundleOnce (wOps w) (wLib w) c (wTable w) evs d0 = (wDB w', None)"
    using r by (rule retry_loop_success [where I = ?I, rotated -1])
      (auto dest: writeBundleOnce_grows [OF D] duck_grows(5) [OF D] intro: subset_mset.order_trans)
  then obtain d0 where "?I d0" "writeBundleOnce (wOps w) (wLib w) c (wTable w) evs d0 = (wDB w', None)"
    by blast
  with writeBundleOnce_success [OF D, of "wLib w" c "wTable w" evs d0 "wDB w'"] show ?thesis
    by (metis subset_mset.add_right_mono subset_mset.order_trans)
qed

text \<open>\<^verbatim>\<open>lake.Writer\<close> implements the sink's \<^verbatim>\<open>BundleWriter\<close>.\<close>

interpretation lake_writer: bundle_writer WriteBundle "\<lambda>w. cm (wDB w)" "\<lambda>w. event_row (wLib w)"
    "\<lambda>w. duck_txn (wOps w) cm pend app" for cm pend app
proof unfold_locales
  fix w :: "'a writer" and evs w' r
  assume D: "duck_txn (wOps w) cm pend app"
  show "cm (wDB w) + mset (map (event_row (wLib w)) evs) \<subseteq># cm (wDB w')"
    if "WriteBundle evs w = (w', None)" using D that by (rule WriteBundle_commits)
  assume r: "WriteBundle evs w = (w', r)"
  show "cm (wDB w) \<subseteq># cm (wDB w')" using D r by (rule WriteBundle_grows)
  show "duck_txn (wOps w') cm pend app \<and> event_row (wLib w') = event_row (wLib w)"
    using D WriteBundle_config [OF r] by simp
qed

section \<open>Connections\<close>

text \<open>No attempt leaves a transaction open on the pinned connection: a rollback on a context
  that cannot be cancelled always ends it.\<close>

definition rollback_resets :: "'d duck_ops \<Rightarrow> ('d \<Rightarrow> nat \<Rightarrow> bool) \<Rightarrow> bool" where
  "rollback_resets ops open_txn \<longleftrightarrow>
     (\<forall>c d d' r. ExecContext ops WithoutCancel ''ROLLBACK'' c d = (d', r) \<longrightarrow> \<not> open_txn d' c) \<and>
     (\<forall>k c d d'. ExecContext ops k ''COMMIT'' c d = (d', None) \<longrightarrow> \<not> open_txn d' c) \<and>
     (\<forall>k c d d' e. ExecContext ops k ''BEGIN'' c d = (d', Some e) \<longrightarrow> \<not> open_txn d c \<longrightarrow> \<not> open_txn d' c)"

lemma writeBundleOnce_closed:
  assumes R: "rollback_resets ops open_txn" and "writeBundleOnce ops L c t evs d = (d', r)" "\<not> open_txn d c"
  shows "\<not> open_txn d' c"
proof -
  have rb: "\<not> open_txn (fst (ExecContext ops WithoutCancel ''ROLLBACK'' c x)) c" for x
    using R unfolding rollback_resets_def by (metis prod.collapse)
  have steps: "ExecContext ops WithoutCancel ''ROLLBACK'' c x = (y, q) \<Longrightarrow> \<not> open_txn y c"
    "ExecContext ops RequestCtx ''COMMIT'' c x = (y, None) \<Longrightarrow> \<not> open_txn y c"
    "ExecContext ops RequestCtx ''BEGIN'' c d = (y, Some e) \<Longrightarrow> \<not> open_txn y c" for x y q e
    using R assms(3) unfolding rollback_resets_def by metis+
  from assms(2) show ?thesis
    unfolding writeBundleOnce_def
    by (auto split: prod.splits option.splits simp: rb dest: steps)
qed

lemma pin_conns_length: "pin_conns ops n cs d = (d', Inr cs') \<Longrightarrow> length cs' = length cs + n"
  by (induction ops n cs d rule: pin_conns.induct) (auto split: prod.splits sum.splits)

lemma NewWriterN_conns:
  "NewWriterN ops L t n d = (d', Inr w) \<Longrightarrow> length (wConns w) = max 1 (nat n)"
  by (auto simp: NewWriterN_def dest!: pin_conns_length split: prod.splits sum.splits if_splits)

text \<open>The round robin stays within the pool, across the wrap-around of the counter.\<close>

lemma round_robin_index:
  assumes "0 < n" "n < 2 ^ 64"
  shows "unat (k mod word_of_nat n :: 64 word) < n"
proof -
  have u: "unat (word_of_nat n :: 64 word) = n"
    using assms(2) by (simp add: unat_of_nat take_bit_nat_eq_self)
  then show ?thesis using assms(1) by (simp add: unat_mod)
qed

lemma isCommitConflict_not_poison: "errors_is e ErrPoisonRow \<Longrightarrow> \<not> isCommitConflict e"
  by (simp add: isCommitConflict_def)

lemma append_rows_poison:
  "append_rows ops L c i evs d = (d', Some e) \<Longrightarrow> errors_is e ErrPoisonRow"
  by (induction evs arbitrary: i d) (auto split: sum.splits prod.splits option.splits)

end
