(* ===== verification/Sink.thy ===== *)
theory Sink
  imports Publisher Lake_Writer
begin

text \<open>
  \<^verbatim>\<open>internal/sink/sink.go\<close>, the operations of the sink: its configuration, the buffer, the
  hand-off to the workers, and what a worker does with a bundle. The goroutines and their
  interleaving are in the theory \<open>Sink_Run\<close>. Acknowledging and terminating a message only
  sends to the broker, and a failure of either is only logged: the model records them as
  actions.
\<close>

section \<open>Configuration\<close>

definition poisonRedeliveryThreshold :: nat where "poisonRedeliveryThreshold = 10"
definition isolateProbeLimit :: nat where "isolateProbeLimit = 8"
definition maxConsecutiveFetchErrs :: nat where "maxConsecutiveFetchErrs = 30"
definition fetchRetryBackoff :: duration where "fetchRetryBackoff = 2 * second"
definition DefaultMaxAgeHard :: duration where "DefaultMaxAgeHard = 5 * minute"
definition bufferedMsgOverhead :: nat where "bufferedMsgOverhead = 512"

record sink_config =
  MaxRowsPerFlush :: int
  MaxBytesPerFlush :: int
  MaxBufferedBytes :: int
  PodSinks :: int
  cfgMaxAge :: duration
  MinFlushBytes :: int
  MaxAgeHard :: duration
  Workers :: int
  FetchBatch :: int
  DrainTimeout :: duration
  sinkName :: string
  FlushTimeout :: duration
  CommitFailureWindow :: duration

text \<open>The default of the buffer ceiling, in the 64-bit arithmetic of Go's \<^verbatim>\<open>int\<close>.\<close>

definition default_ceiling :: "int \<Rightarrow> int \<Rightarrow> int" where
  "default_ceiling maxBytes podSinks =
     (let b0 = wrap64 (4 * maxBytes);
          b1 = (if 1 < podSinks then quot b0 podSinks else b0);
          floor = wrap64 (3 * maxBytes)
      in if b1 < floor then floor else b1)"

definition or_default :: "int \<Rightarrow> int \<Rightarrow> int" where
  "or_default v d = (if v = 0 then d else v)"

definition applyDefaults :: "sink_config \<Rightarrow> sink_config" where
  "applyDefaults c =
     (let bytes = or_default (MaxBytesPerFlush c) (128 * 2 ^ 20)
      in \<lparr>MaxRowsPerFlush = or_default (MaxRowsPerFlush c) 100000,
          MaxBytesPerFlush = bytes,
          MaxBufferedBytes = (if MaxBufferedBytes c = 0 then default_ceiling bytes (PodSinks c)
                              else MaxBufferedBytes c),
          PodSinks = PodSinks c,
          cfgMaxAge = or_default (cfgMaxAge c) minute,
          MinFlushBytes = or_default (MinFlushBytes c) (16 * 2 ^ 20),
          MaxAgeHard = or_default (MaxAgeHard c) DefaultMaxAgeHard,
          Workers = or_default (Workers c) 2,
          FetchBatch = or_default (FetchBatch c) 1000,
          DrainTimeout = or_default (DrainTimeout c) (30 * second),
          sinkName = (if sinkName c = [] then ''sink'' else sinkName c),
          FlushTimeout = or_default (FlushTimeout c) (5 * minute),
          CommitFailureWindow = or_default (CommitFailureWindow c) (10 * minute)\<rparr>)"

section \<open>Messages and the buffer\<close>

text \<open>A delivered message; \<open>jmSeq\<close> is its stream sequence, \<open>jmDelivered\<close> the outcome of
  reading its metadata.\<close>

record jmsg =
  jmSeq :: nat
  jmSubject :: string
  jmHeaders :: nats_header
  jmData :: bytes
  jmDelivered :: "nat result"

datatype broker_action = AckMsg jmsg | TermMsg jmsg

record event_buffer =
  bufEvents :: "stored_event list"
  bufMsgs :: "jmsg list"
  bufBytes :: int
  bufFootprint :: int
  firstAt :: go_time

record flush_job =
  jobEvents :: "stored_event list"
  jobMsgs :: "jmsg list"
  jobBytes :: int
  jobFootprint :: int

definition bufferedFootprint :: "stored_event \<Rightarrow> nat \<Rightarrow> int" where
  "bufferedFootprint ev msgLen =
     int (msgLen + length (Data (RawEvent ev)) + length (DataBase64 (RawEvent ev)) + bufferedMsgOverhead)"

definition redeliveryCount :: "jmsg \<Rightarrow> nat" where
  "redeliveryCount m = (case jmDelivered m of Inl _ \<Rightarrow> 0 | Inr n \<Rightarrow> n)"

text \<open>\<^verbatim>\<open>add\<close>: the buffer, the actions and the redelivery counter after one message.\<close>

definition add_msg ::
  "ce_lib \<Rightarrow> go_time \<Rightarrow> jmsg \<Rightarrow> event_buffer option
     \<Rightarrow> event_buffer option \<times> broker_action list \<times> nat" where
  "add_msg L now msg buffer =
     (case ParseMsg L (jmHeaders msg) (jmData msg) of
        Inl e \<Rightarrow> (buffer, [TermMsg msg], 0)
      | Inr event \<Rightarrow>
         (let redelivered = (case jmDelivered msg of Inl _ \<Rightarrow> 0 | Inr n \<Rightarrow> if 1 < n then 1 else 0);
              buf = (case buffer of
                       Some b \<Rightarrow> b
                     | None \<Rightarrow> \<lparr>bufEvents = [], bufMsgs = [], bufBytes = 0, bufFootprint = 0, firstAt = now\<rparr>)
          in (Some (buf\<lparr>bufEvents := bufEvents buf @ [event], bufMsgs := bufMsgs buf @ [msg],
                        bufBytes := bufBytes buf + int (length (jmData msg)),
                        bufFootprint := bufFootprint buf + bufferedFootprint event (length (jmData msg))\<rparr>),
              [], redelivered)))"

text \<open>The trigger of \<^verbatim>\<open>flushReady\<close>.\<close>

definition flush_due :: "sink_config \<Rightarrow> bool \<Rightarrow> go_time \<Rightarrow> event_buffer option \<Rightarrow> bool" where
  "flush_due cfg force now buffer =
     (case buffer of
        None \<Rightarrow> False
      | Some buf \<Rightarrow>
          bufEvents buf \<noteq> [] \<and>
          (let age = time_sub now (firstAt buf)
           in force \<or> MaxRowsPerFlush cfg \<le> int (length (bufEvents buf))
              \<or> MaxBytesPerFlush cfg \<le> bufBytes buf
              \<or> (cfgMaxAge cfg \<le> age \<and> MinFlushBytes cfg \<le> bufBytes buf)
              \<or> MaxAgeHard cfg \<le> age))"

definition job_of :: "event_buffer \<Rightarrow> flush_job" where
  "job_of buf = \<lparr>jobEvents = bufEvents buf, jobMsgs = bufMsgs buf, jobBytes = bufBytes buf,
                 jobFootprint = bufFootprint buf\<rparr>"

section \<open>Flushing a bundle\<close>

text \<open>What a worker uses: the writer, whether the bundle's context is done, the clock.\<close>

record 'w flush_env =
  feWrite :: "stored_event list \<Rightarrow> 'w \<Rightarrow> 'w \<times> go_error option"
  feCtxErr :: "'w \<Rightarrow> bool"
  feNow :: "'w \<Rightarrow> int"
  feWindow :: duration

record 'w flush_st =
  fsW :: 'w
  commitFailFirst :: int
  fsFatal :: "go_error option"
  fsActions :: "broker_action list"
  commitsTotal :: nat
  commitFailuresTotal :: nat
  poisonRows :: nat
  isoCommitted :: nat
  isoAttempts :: nat

text \<open>The error of a writer that committed nothing; its text names the window, which is left out.\<close>

definition durably_broken :: go_error where
  "durably_broken = errors_new ''sink committed nothing: writer/catalog durably broken (restart re-pins connections)''"

text \<open>\<^verbatim>\<open>recordCommitFailure\<close>: the streak starts at the first failure and is fatal once it spans the
  window; the channel holds one error.\<close>

definition recordCommitFailure :: "'w flush_env \<Rightarrow> 'w flush_st \<Rightarrow> 'w flush_st" where
  "recordCommitFailure env st =
     (let now = feNow env (fsW st); first = commitFailFirst st
      in if first = 0 then st\<lparr>commitFailFirst := now\<rparr>
         else if feWindow env \<le> wrap64 (now - first)
           then (case fsFatal st of None \<Rightarrow> st\<lparr>fsFatal := Some durably_broken\<rparr> | Some _ \<Rightarrow> st)
         else st)"

definition ackAll :: "jmsg list \<Rightarrow> 'w flush_st \<Rightarrow> 'w flush_st" where
  "ackAll msgs st = st\<lparr>fsActions := fsActions st @ map AckMsg msgs\<rparr>"

definition terminatePoison :: "jmsg \<Rightarrow> 'w flush_st \<Rightarrow> 'w flush_st" where
  "terminatePoison msg st =
     st\<lparr>poisonRows := Suc (poisonRows st), fsActions := fsActions st @ [TermMsg msg]\<rparr>"

definition slice :: "nat \<Rightarrow> nat \<Rightarrow> 'a list \<Rightarrow> 'a list" where
  "slice lo hi xs = take (hi - lo) (drop lo xs)"

function isolateRange :: "'w flush_env \<Rightarrow> flush_job \<Rightarrow> nat \<Rightarrow> nat \<Rightarrow> 'w flush_st \<Rightarrow> 'w flush_st" where
  "isolateRange env job lo hi st =
     (if hi \<le> lo \<or> feCtxErr env (fsW st) then st
      else if isoCommitted st = 0 \<and> isolateProbeLimit \<le> isoAttempts st then st
      else case feWrite env (slice lo hi (jobEvents job)) (fsW st) of
        (w1, None) \<Rightarrow>
          ackAll (slice lo hi (jobMsgs job))
            (st\<lparr>fsW := w1, isoAttempts := Suc (isoAttempts st),
                isoCommitted := isoCommitted st + (hi - lo), commitFailFirst := 0\<rparr>)
      | (w1, Some err) \<Rightarrow>
          (let st1 = st\<lparr>fsW := w1, isoAttempts := Suc (isoAttempts st)\<rparr>
           in if hi - lo = 1 then
                (if errors_is err ErrPoisonRow
                    \<or> (0 < isoCommitted st1 \<and> poisonRedeliveryThreshold \<le> redeliveryCount (jobMsgs job ! lo))
                 then terminatePoison (jobMsgs job ! lo) st1 else st1)
              else let mid = lo + (hi - lo) div 2
                   in isolateRange env job mid hi (isolateRange env job lo mid st1)))"
  by pat_completeness auto
termination by (relation "measure (\<lambda>(env, job, lo, hi, st). hi - lo)") auto

declare isolateRange.simps [simp del]

definition isolate :: "'w flush_env \<Rightarrow> flush_job \<Rightarrow> 'w flush_st \<Rightarrow> 'w flush_st" where
  "isolate env job st =
     isolateRange env job 0 (length (jobEvents job)) (st\<lparr>isoCommitted := 0, isoAttempts := 0\<rparr>)"

definition flush :: "'w flush_env \<Rightarrow> flush_job \<Rightarrow> 'w flush_st \<Rightarrow> 'w flush_st" where
  "flush env job st =
     (case feWrite env (jobEvents job) (fsW st) of
        (w1, Some err) \<Rightarrow>
          isolate env job
            (recordCommitFailure env
               (st\<lparr>fsW := w1, commitFailuresTotal := Suc (commitFailuresTotal st)\<rparr>))
      | (w1, None) \<Rightarrow>
          ackAll (jobMsgs job)
            (st\<lparr>fsW := w1, commitsTotal := Suc (commitsTotal st), commitFailFirst := 0\<rparr>))"

section \<open>Fetching\<close>

text \<open>What \<^verbatim>\<open>fetchLoop\<close> calls: the context's error, a fetch, and the two \<^verbatim>\<open>select\<close> statements between the context and a
  send or a timer, true when the context was not the one that fired.\<close>

record 's fetch_ops =
  foCtxErr :: "'s \<Rightarrow> go_error option"
  foFetch :: "int \<Rightarrow> duration \<Rightarrow> 's \<Rightarrow> 's \<times> jmsg list result"
  foSend :: "jmsg \<Rightarrow> 's \<Rightarrow> 's \<times> bool"
  foBackoff :: "duration \<Rightarrow> 's \<Rightarrow> 's \<times> bool"

fun send_batch :: "'s fetch_ops \<Rightarrow> jmsg list \<Rightarrow> 's \<Rightarrow> jmsg list \<Rightarrow> 's \<times> jmsg list \<times> bool" where
  "send_batch ops [] s out = (s, out, True)"
| "send_batch ops (msg # msgs) s out =
     (case foSend ops msg s of
        (s1, True) \<Rightarrow> send_batch ops msgs s1 (out @ [msg])
      | (s1, False) \<Rightarrow> (s1, out, False))"

text \<open>The messages sent to the channel and the error sent to \<^verbatim>\<open>done\<close>; \<open>None\<close> while the loop is still going after \<open>fuel\<close>
  turns.\<close>

fun fetchLoop ::
  "nat \<Rightarrow> 's fetch_ops \<Rightarrow> sink_config \<Rightarrow> nat \<Rightarrow> 's \<Rightarrow> jmsg list \<Rightarrow> ('s \<times> jmsg list \<times> go_error option) option" where
  "fetchLoop 0 ops cfg consecutiveErrs s out = None"
| "fetchLoop (Suc fuel) ops cfg consecutiveErrs s out =
     (if foCtxErr ops s \<noteq> None then Some (s, out, foCtxErr ops s)
      else case foFetch ops (FetchBatch cfg) (5 * second) s of
        (s1, Inl err) \<Rightarrow>
          if errors_is err CtxCanceled \<or> errors_is err CtxDeadlineExceeded
          then fetchLoop fuel ops cfg consecutiveErrs s1 out
          else let n = consecutiveErrs + 1
               in if maxConsecutiveFetchErrs \<le> n
                  then Some (s1, out, Some (errorf (''sink fetch failed '' @ show_nat n @ ''x consecutively: '') err ''''))
                  else (case foBackoff ops fetchRetryBackoff s1 of
                          (s2, False) \<Rightarrow> Some (s2, out, foCtxErr ops s2)
                        | (s2, True) \<Rightarrow> fetchLoop fuel ops cfg n s2 out)
      | (s1, Inr batch) \<Rightarrow>
          (case send_batch ops batch s1 out of
             (s2, out1, False) \<Rightarrow> Some (s2, out1, foCtxErr ops s2)
           | (s2, out1, True) \<Rightarrow> fetchLoop fuel ops cfg 0 s2 out1))"

text \<open>The backstop: a consumer that answers nothing but errors ends the loop after as many fetches as are left to the limit,
  with an error and nothing sent.\<close>

lemma fetchLoop_gives_up:
  assumes "\<And>s. foCtxErr ops s = None" "\<And>t s. snd (foBackoff ops t s)"
    "\<And>k t s. \<exists>e. snd (foFetch ops k t s) = Inl e \<and> \<not> errors_is e CtxCanceled \<and> \<not> errors_is e CtxDeadlineExceeded"
  shows "n < maxConsecutiveFetchErrs \<Longrightarrow> maxConsecutiveFetchErrs - n \<le> fuel \<Longrightarrow>
    \<exists>s' e. fetchLoop fuel ops cfg n s out = Some (s', out, Some e)"
proof (induction fuel arbitrary: n s)
  case (Suc fuel)
  obtain s1 e where f: "foFetch ops (FetchBatch cfg) (5 * second) s = (s1, Inl e)"
    "\<not> errors_is e CtxCanceled" "\<not> errors_is e CtxDeadlineExceeded"
    using assms(3) [of "FetchBatch cfg" "5 * second" s] by (cases "foFetch ops (FetchBatch cfg) (5 * second) s") auto
  obtain s2 where b: "foBackoff ops fetchRetryBackoff s1 = (s2, True)"
    using assms(2) [of fetchRetryBackoff s1] by (cases "foBackoff ops fetchRetryBackoff s1") auto
  show ?case
  proof (cases "maxConsecutiveFetchErrs \<le> n + 1")
    case True
    with f assms(1) show ?thesis by (simp add: Let_def)
  next
    case False
    with Suc.prems have "\<exists>s' e. fetchLoop fuel ops cfg (n + 1) s2 out = Some (s', out, Some e)" by (intro Suc.IH) simp_all
    with False f b assms(1) show ?thesis by (simp add: Let_def)
  qed
qed simp

text \<open>What was sent before is never taken back.\<close>

lemma send_batch_prefix: "send_batch ops msgs s out = (s', out', b) \<Longrightarrow> \<exists>n. out' = out @ take n msgs \<and> (b \<longrightarrow> n = length msgs)"
proof (induction msgs arbitrary: s out)
  case (Cons m msgs)
  obtain s1 c where f: "foSend ops m s = (s1, c)" by (cases "foSend ops m s")
  show ?case
  proof (cases c)
    case True
    with Cons.prems f have "send_batch ops msgs s1 (out @ [m]) = (s', out', b)" by simp
    from Cons.IH [OF this] obtain n where "out' = (out @ [m]) @ take n msgs" "b \<longrightarrow> n = length msgs" by blast
    then show ?thesis by (intro exI [of _ "Suc n"]) simp
  next
    case False
    with Cons.prems f show ?thesis by (intro exI [of _ 0]) simp
  qed
qed simp

section \<open>Lemmas: configuration\<close>

lemma default_ceiling_bounds:
  assumes "0 < b" "4 * b < 2 ^ 63"
  shows "3 * b \<le> default_ceiling b p \<and> default_ceiling b p \<le> 4 * b"
proof -
  have w: "wrap64 (4 * b) = 4 * b" "wrap64 (3 * b) = 3 * b"
    using assms by (simp_all add: wrap64_id in_int64_def)
  have "quot (4 * b) p \<le> 4 * b" if "1 < p"
  proof -
    have "quot (4 * b) p = 4 * b div p" using assms that by (intro quot_nonneg) simp_all
    also have "\<dots> \<le> 4 * b" using assms that by (intro less_imp_le [OF int_div_less_self]) simp_all
    finally show ?thesis .
  qed
  then show ?thesis using assms by (simp add: default_ceiling_def w Let_def)
qed

lemma bufferedFootprint_pos: "0 < bufferedFootprint ev n"
  by (simp add: bufferedFootprint_def bufferedMsgOverhead_def)

lemma add_msg_footprint:
  assumes "add_msg L now msg buffer = (Some buf, acts, r)" "ParseMsg L (jmHeaders msg) (jmData msg) = Inr ev"
  shows "bufFootprint buf = (case buffer of None \<Rightarrow> 0 | Some b \<Rightarrow> bufFootprint b)
    + bufferedFootprint ev (length (jmData msg))"
  using assms by (auto simp: add_msg_def Let_def split: option.splits)

section \<open>Lemmas: isolation\<close>

fun acked :: "broker_action list \<Rightarrow> jmsg list" where
  "acked [] = []"
| "acked (AckMsg m # as) = m # acked as"
| "acked (TermMsg m # as) = acked as"

fun termed :: "broker_action list \<Rightarrow> jmsg list" where
  "termed [] = []"
| "termed (AckMsg m # as) = termed as"
| "termed (TermMsg m # as) = m # termed as"

lemma acked_append [simp]: "acked (a @ b) = acked a @ acked b"
  by (induction a rule: acked.induct) simp_all

lemma termed_append [simp]: "termed (a @ b) = termed a @ termed b"
  by (induction a rule: termed.induct) simp_all

lemma acked_map_Ack [simp]: "acked (map AckMsg ms) = ms" "termed (map AckMsg ms) = []"
  by (induction ms) simp_all

lemma acked_map_Ack_o [simp]: "acked (map (AckMsg \<circ> f) xs) = map f xs" "termed (map (AckMsg \<circ> f) xs) = []"
  by (induction xs) simp_all

lemma slice_nth: "hi \<le> length xs \<Longrightarrow> slice lo hi xs = map ((!) xs) [lo..<hi]"
  by (rule nth_equalityI) (auto simp: slice_def)

text \<open>Why a message may be terminated: the writer rejected its row alone as poison, or it kept
  failing alone while the writer committed others.\<close>

definition evidence :: "'w flush_env \<Rightarrow> flush_job \<Rightarrow> nat \<Rightarrow> nat \<Rightarrow> bool" where
  "evidence env job others i \<longleftrightarrow>
     (\<exists>w w' e. feWrite env [jobEvents job ! i] w = (w', Some e) \<and> errors_is e ErrPoisonRow) \<or>
     (0 < others \<and> poisonRedeliveryThreshold \<le> redeliveryCount (jobMsgs job ! i))"

lemma evidence_mono: "evidence env job a i \<Longrightarrow> a \<le> b \<Longrightarrow> evidence env job b i"
  by (auto simp: evidence_def)

text \<open>What a pass over a range did: which positions it acknowledged and which it terminated.\<close>

definition pass_ok ::
  "'w flush_env \<Rightarrow> flush_job \<Rightarrow> nat \<Rightarrow> nat \<Rightarrow> 'w flush_st \<Rightarrow> 'w flush_st \<Rightarrow> nat list \<Rightarrow> nat list \<Rightarrow> bool" where
  "pass_ok env job lo hi st st' as ts \<longleftrightarrow>
     (\<exists>acts. fsActions st' = fsActions st @ acts \<and>
        acked acts = map ((!) (jobMsgs job)) as \<and> termed acts = map ((!) (jobMsgs job)) ts) \<and>
     distinct (as @ ts) \<and> set (as @ ts) \<subseteq> {lo..<hi} \<and>
     isoCommitted st' = isoCommitted st + length as \<and>
     (\<forall>t\<in>set ts. evidence env job (isoCommitted st') t)"

lemma pass_ok_refl: "fsActions st' = fsActions st \<Longrightarrow> isoCommitted st' = isoCommitted st \<Longrightarrow>
    pass_ok env job lo hi st st' [] []"
  by (auto simp: pass_ok_def)

lemma pass_ok_trans:
  assumes "pass_ok env job lo mid st st1 as1 ts1" "pass_ok env job mid hi st1 st2 as2 ts2" "lo \<le> mid" "mid \<le> hi"
  shows "pass_ok env job lo hi st st2 (as1 @ as2) (ts1 @ ts2)"
proof -
  have disj: "set (as1 @ ts1) \<inter> set (as2 @ ts2) = {}"
    using assms(1,2) unfolding pass_ok_def by fastforce
  have "evidence env job (isoCommitted st2) t" if "t \<in> set ts1" for t
    using assms(1,2) that unfolding pass_ok_def by (auto intro: evidence_mono)
  with assms disj show ?thesis unfolding pass_ok_def by auto
qed

lemma pass_ok_cong:
  "pass_ok env job lo hi st0 st' as ts \<Longrightarrow> fsActions st0 = fsActions st \<Longrightarrow> isoCommitted st0 = isoCommitted st \<Longrightarrow>
     pass_ok env job lo hi st st' as ts"
  unfolding pass_ok_def by metis

text \<open>The way a call of \<open>isolateRange\<close> takes.\<close>

lemma isolateRange_cases [case_names stop commit leaf split]:
  assumes "isolateRange env job lo hi st = st'"
  obtains
    "st' = st" "hi \<le> lo \<or> feCtxErr env (fsW st) \<or> (isoCommitted st = 0 \<and> isolateProbeLimit \<le> isoAttempts st)"
  | w1 where "lo < hi" "feWrite env (slice lo hi (jobEvents job)) (fsW st) = (w1, None)"
      "st' = ackAll (slice lo hi (jobMsgs job))
         (st\<lparr>fsW := w1, isoAttempts := Suc (isoAttempts st),
             isoCommitted := isoCommitted st + (hi - lo), commitFailFirst := 0\<rparr>)"
  | w1 err where "hi = Suc lo" "feWrite env (slice lo hi (jobEvents job)) (fsW st) = (w1, Some err)"
      "st' = (if errors_is err ErrPoisonRow
                \<or> (0 < isoCommitted st \<and> poisonRedeliveryThreshold \<le> redeliveryCount (jobMsgs job ! lo))
              then terminatePoison (jobMsgs job ! lo) (st\<lparr>fsW := w1, isoAttempts := Suc (isoAttempts st)\<rparr>)
              else st\<lparr>fsW := w1, isoAttempts := Suc (isoAttempts st)\<rparr>)"
  | w1 err mid where "lo < mid" "mid < hi" "mid = lo + (hi - lo) div 2"
      "feWrite env (slice lo hi (jobEvents job)) (fsW st) = (w1, Some err)"
      "st' = isolateRange env job mid hi (isolateRange env job lo mid
               (st\<lparr>fsW := w1, isoAttempts := Suc (isoAttempts st)\<rparr>))"
proof (cases "hi \<le> lo \<or> feCtxErr env (fsW st) \<or> (isoCommitted st = 0 \<and> isolateProbeLimit \<le> isoAttempts st)")
  case True
  with assms that(1) show ?thesis by (auto simp: isolateRange.simps [of env job lo hi])
next
  case False
  obtain w1 r where w: "feWrite env (slice lo hi (jobEvents job)) (fsW st) = (w1, r)"
    by (cases "feWrite env (slice lo hi (jobEvents job)) (fsW st)")
  show ?thesis
  proof (cases r)
    case None
    with False assms w show ?thesis
      by (intro that(2)) (auto simp: isolateRange.simps [of env job lo hi])
  next
    case (Some err)
    show ?thesis
    proof (cases "hi - lo = 1")
      case True
      with False assms w Some show ?thesis
        by (intro that(3)) (auto simp: isolateRange.simps [of env job lo hi] Let_def)
    next
      case neq: False
      with False assms w Some show ?thesis
        by (intro that(4) [of "lo + (hi - lo) div 2"])
          (auto simp: isolateRange.simps [of env job lo hi] Let_def)
    qed
  qed
qed

text \<open>The induction over the bisection, once for all: \<open>P w w' as\<close> is any relation between the
  writer's states before and after a pass that acknowledged the positions \<open>as\<close>.\<close>

lemma isolateRange_pass:
  assumes len: "length (jobMsgs job) = length (jobEvents job)"
    and refl: "\<And>w. P w w []"
    and trans: "\<And>w w1 w2 as1 as2. P w w1 as1 \<Longrightarrow> P w1 w2 as2 \<Longrightarrow> P w w2 (as1 @ as2)"
    and commits: "\<And>lo hi w w1. hi \<le> length (jobEvents job) \<Longrightarrow>
        feWrite env (slice lo hi (jobEvents job)) w = (w1, None) \<Longrightarrow> P w w1 [lo..<hi]"
    and fails: "\<And>lo hi w w1 e. feWrite env (slice lo hi (jobEvents job)) w = (w1, Some e) \<Longrightarrow> P w w1 []"
  shows "hi \<le> length (jobEvents job) \<Longrightarrow>
    \<exists>as ts. pass_ok env job lo hi st (isolateRange env job lo hi st) as ts \<and>
      P (fsW st) (fsW (isolateRange env job lo hi st)) as"
proof (induction "hi - lo" arbitrary: lo hi st rule: less_induct)
  case less
  show ?case
  proof (cases rule: isolateRange_cases [OF HOL.refl, of env job lo hi st])
    case 1
    then show ?thesis using pass_ok_refl [of _ st] refl by metis
  next
    case (2 w1)
    have "pass_ok env job lo hi st (isolateRange env job lo hi st) [lo..<hi] []"
      using less.prems len
      by (auto simp: pass_ok_def 2(3) ackAll_def slice_nth intro!: exI [of _ "map AckMsg (map ((!) (jobMsgs job)) [lo..<hi])"])
    moreover have "P (fsW st) (fsW (isolateRange env job lo hi st)) [lo..<hi]"
      using commits [OF less.prems 2(2)] by (simp add: 2(3) ackAll_def)
    ultimately show ?thesis by blast
  next
    case (3 w1 err)
    have ev: "slice lo hi (jobEvents job) = [jobEvents job ! lo]"
      using less.prems 3(1) by (simp add: slice_nth)
    have P: "P (fsW st) (fsW (isolateRange env job lo hi st)) []"
      using fails [OF 3(2)] by (simp add: 3(3) terminatePoison_def)
    show ?thesis
    proof (cases "errors_is err ErrPoisonRow
        \<or> (0 < isoCommitted st \<and> poisonRedeliveryThreshold \<le> redeliveryCount (jobMsgs job ! lo))")
      case True
      then have "evidence env job (isoCommitted st) lo"
        using 3(2) ev by (auto simp: evidence_def)
      with True 3(1) have "pass_ok env job lo hi st (isolateRange env job lo hi st) [] [lo]"
        unfolding 3(3) by (auto simp: pass_ok_def terminatePoison_def intro!: exI [of _ "[TermMsg (jobMsgs job ! lo)]"])
      with P show ?thesis by blast
    next
      case False
      then have "pass_ok env job lo hi st (isolateRange env job lo hi st) [] []"
        unfolding 3(3) by (subst if_not_P) (auto intro: pass_ok_refl)
      with P show ?thesis by blast
    qed
  next
    case (4 w1 err mid)
    let ?st1 = "st\<lparr>fsW := w1, isoAttempts := Suc (isoAttempts st)\<rparr>"
    have "mid - lo < hi - lo" "hi - mid < hi - lo" using 4(1,2) by simp_all
    moreover have "mid \<le> length (jobEvents job)" using 4(2) less.prems by simp
    ultimately obtain as1 ts1 as2 ts2 where
      p: "pass_ok env job lo mid ?st1 (isolateRange env job lo mid ?st1) as1 ts1"
        "pass_ok env job mid hi (isolateRange env job lo mid ?st1) (isolateRange env job lo hi st) as2 ts2"
      and P: "P w1 (fsW (isolateRange env job lo mid ?st1)) as1"
        "P (fsW (isolateRange env job lo mid ?st1)) (fsW (isolateRange env job lo hi st)) as2"
      unfolding 4(5) using less.hyps [of mid lo ?st1] less.hyps [of hi mid "isolateRange env job lo mid ?st1"]
        less.prems by force
    from pass_ok_trans [OF p] 4(1,2)
    have "pass_ok env job lo hi st (isolateRange env job lo hi st) (as1 @ as2) (ts1 @ ts2)"
      using pass_ok_cong [of env job lo hi ?st1 _ _ _ st] by fastforce
    moreover have "P (fsW st) (fsW (isolateRange env job lo hi st)) (as1 @ as2)"
      using trans [OF fails [OF 4(4)] trans [OF P]] by simp
    ultimately show ?thesis by blast
  qed
qed

section \<open>Acknowledged means committed\<close>

lemma recordCommitFailure_simps [simp]:
  "fsW (recordCommitFailure env st) = fsW st" "fsActions (recordCommitFailure env st) = fsActions st"
  "isoCommitted (recordCommitFailure env st) = isoCommitted st"
  by (auto simp: recordCommitFailure_def Let_def split: option.splits)

text \<open>The outcome of \<open>flush\<close> on a bundle, in terms of positions.\<close>

definition flush_ok :: "'w flush_env \<Rightarrow> flush_job \<Rightarrow> 'w flush_st \<Rightarrow> 'w flush_st \<Rightarrow> nat list \<Rightarrow> nat list \<Rightarrow> bool" where
  "flush_ok env job st st' as ts \<longleftrightarrow>
     (\<exists>acts. fsActions st' = fsActions st @ acts \<and>
        acked acts = map ((!) (jobMsgs job)) as \<and> termed acts = map ((!) (jobMsgs job)) ts) \<and>
     distinct (as @ ts) \<and> set (as @ ts) \<subseteq> {..<length (jobEvents job)} \<and>
     (\<forall>t\<in>set ts. evidence env job (length as) t)"

lemma flush_pass:
  assumes len: "length (jobMsgs job) = length (jobEvents job)"
    and refl: "\<And>w. P w w []"
    and trans: "\<And>w w1 w2 as1 as2. P w w1 as1 \<Longrightarrow> P w1 w2 as2 \<Longrightarrow> P w w2 (as1 @ as2)"
    and commits: "\<And>lo hi w w1. hi \<le> length (jobEvents job) \<Longrightarrow>
        feWrite env (slice lo hi (jobEvents job)) w = (w1, None) \<Longrightarrow> P w w1 [lo..<hi]"
    and fails: "\<And>lo hi w w1 e. feWrite env (slice lo hi (jobEvents job)) w = (w1, Some e) \<Longrightarrow> P w w1 []"
  shows "\<exists>as ts. flush_ok env job st (flush env job st) as ts \<and> P (fsW st) (fsW (flush env job st)) as"
proof -
  let ?n = "length (jobEvents job)"
  have whole: "slice 0 ?n (jobEvents job) = jobEvents job" by (simp add: slice_def)
  obtain w1 r where w: "feWrite env (jobEvents job) (fsW st) = (w1, r)"
    by (cases "feWrite env (jobEvents job) (fsW st)")
  show ?thesis
  proof (cases r)
    case None
    with w have f: "flush env job st = ackAll (jobMsgs job)
        (st\<lparr>fsW := w1, commitsTotal := Suc (commitsTotal st), commitFailFirst := 0\<rparr>)"
      by (simp add: flush_def)
    have "map ((!) (jobMsgs job)) [0..<?n] = jobMsgs job" using len by (simp add: map_nth flip: len)
    then have "flush_ok env job st (flush env job st) [0..<?n] []"
      unfolding f by (auto simp: flush_ok_def ackAll_def intro!: exI [of _ "map AckMsg (jobMsgs job)"])
    moreover have "P (fsW st) (fsW (flush env job st)) [0..<?n]"
      using commits [of ?n 0] w None whole by (simp add: f ackAll_def)
    ultimately show ?thesis by blast
  next
    case (Some err)
    let ?st0 = "(recordCommitFailure env (st\<lparr>fsW := w1, commitFailuresTotal := Suc (commitFailuresTotal st)\<rparr>))
        \<lparr>isoCommitted := 0, isoAttempts := 0\<rparr>"
    from w Some have f: "flush env job st = isolateRange env job 0 ?n ?st0"
      by (simp add: flush_def isolate_def)
    have "\<exists>as ts. pass_ok env job 0 ?n ?st0 (isolateRange env job 0 ?n ?st0) as ts \<and>
        P (fsW ?st0) (fsW (isolateRange env job 0 ?n ?st0)) as"
      by (rule isolateRange_pass [where P = P])
        (rule len | rule refl | erule (1) trans | erule (1) commits | erule fails | rule order_refl)+
    then obtain as ts where
      p: "pass_ok env job 0 ?n ?st0 (flush env job st) as ts" "P w1 (fsW (flush env job st)) as"
      unfolding f by auto
    have "P (fsW st) (fsW (flush env job st)) as"
      using trans [OF fails [of 0 ?n "fsW st" w1 err] p(2)] w Some whole by simp
    moreover from p(1) have "flush_ok env job st (flush env job st) as ts"
      by (auto simp: pass_ok_def flush_ok_def)
    ultimately show ?thesis by blast
  qed
qed

lemma flush_outcome:
  assumes "length (jobMsgs job) = length (jobEvents job)"
  obtains as ts where "flush_ok env job st (flush env job st) as ts"
proof -
  have "\<exists>as ts. flush_ok env job st (flush env job st) as ts \<and> True"
    by (rule flush_pass [where P = "\<lambda>_ _ _. True", OF assms]) simp_all
  then show ?thesis using that by blast
qed

context bundle_writer
begin

lemma flush_commits:
  assumes "feWrite env = write_bundle" "length (jobMsgs job) = length (jobEvents job)" "ok (fsW st)"
  obtains as ts where "flush_ok env job st (flush env job st) as ts"
    "ok (fsW (flush env job st))" "row_of (fsW (flush env job st)) = row_of (fsW st)"
    "committed (fsW st) + mset (map (\<lambda>i. row_of (fsW st) (jobEvents job ! i)) as)
       \<subseteq># committed (fsW (flush env job st))"
proof -
  let ?ev = "jobEvents job"
  define P where "P w w' as \<longleftrightarrow> (ok w \<longrightarrow> ok w' \<and> row_of w' = row_of w \<and>
      committed w + mset (map (\<lambda>i. row_of w (?ev ! i)) as) \<subseteq># committed w')" for w w' as
  have "\<exists>as ts. flush_ok env job st (flush env job st) as ts \<and> P (fsW st) (fsW (flush env job st)) as"
  proof (rule flush_pass [OF assms(2)])
    show "P w w []" for w by (simp add: P_def)
    show "P w w2 (as1 @ as2)" if p: "P w w1 as1" "P w1 w2 as2" for w w1 w2 as1 as2
      unfolding P_def
    proof (intro impI conjI)
      let ?m = "\<lambda>as. mset (map (\<lambda>i. row_of w (?ev ! i)) as)"
      assume "ok w"
      with p have k: "ok w1" "row_of w1 = row_of w" "committed w + ?m as1 \<subseteq># committed w1"
        "ok w2" "row_of w2 = row_of w" "committed w1 + ?m as2 \<subseteq># committed w2"
        by (auto simp: P_def)
      then show "ok w2" "row_of w2 = row_of w" by simp_all
      have "committed w + ?m as1 + ?m as2 \<subseteq># committed w1 + ?m as2"
        using k(3) by (rule subset_mset.add_right_mono)
      also note k(6)
      finally show "committed w + ?m (as1 @ as2) \<subseteq># committed w2" by (simp add: add.assoc)
    qed
    show "P w w1 [lo..<hi]" if "hi \<le> length ?ev" "feWrite env (slice lo hi ?ev) w = (w1, None)" for lo hi w w1
      using that assms(1) write_ok write_commits [of w "slice lo hi ?ev" w1]
      unfolding P_def by (auto simp: slice_nth comp_def)
    show "P w w1 []" if "feWrite env (slice lo hi ?ev) w = (w1, Some e)" for lo hi w w1 e
      using that assms(1) write_ok write_grows unfolding P_def by auto
  qed
  with assms(3) that show ?thesis by (auto simp: P_def)
qed

end

end
