(* ===== verification/Sink_Isolate.thy ===== *)
theory Sink_Isolate
  imports Sink
begin

text \<open>
  How the bisection of \<^verbatim>\<open>isolateRange\<close> behaves against a healthy writer that rejects certain rows
  for good: it localizes them exactly once anything has committed; in a bundle of fewer than
  256 rows it always makes progress; in a bundle of 256 rows or more whose first row is
  rejected, the probe limit stops it before it reaches a single row.
\<close>

text \<open>A healthy writer with unpersistable rows: a bundle commits exactly if it holds none of
  them and is rejected as poison otherwise; the context stays alive.\<close>

definition poison_writer :: "'w flush_env \<Rightarrow> (stored_event \<Rightarrow> bool) \<Rightarrow> bool" where
  "poison_writer env bad \<longleftrightarrow>
     (\<forall>w. \<not> feCtxErr env w) \<and>
     (\<forall>evs w w' r. feWrite env evs w = (w', r) \<longrightarrow>
        (if \<exists>e\<in>set evs. bad e then \<exists>e. r = Some e \<and> errors_is e ErrPoisonRow else r = None))"

lemma poison_writer_None:
  "poison_writer env bad \<Longrightarrow> feWrite env evs w = (w', None) \<Longrightarrow> e \<in> set evs \<Longrightarrow> \<not> bad e"
  unfolding poison_writer_def by (metis option.distinct(1))

lemma poison_writer_Some:
  "poison_writer env bad \<Longrightarrow> feWrite env evs w = (w', Some err) \<Longrightarrow>
     errors_is err ErrPoisonRow \<and> (\<exists>e\<in>set evs. bad e)"
  unfolding poison_writer_def by (metis option.distinct(1) option.inject)

abbreviation positions :: "(stored_event \<Rightarrow> bool) \<Rightarrow> flush_job \<Rightarrow> nat \<Rightarrow> nat \<Rightarrow> nat list" where
  "positions p job lo hi \<equiv> filter (\<lambda>i. p (jobEvents job ! i)) [lo..<hi]"

lemma filter_upt_split:
  "lo \<le> mid \<Longrightarrow> mid \<le> hi \<Longrightarrow> filter p [lo..<hi] = filter p [lo..<mid] @ filter p [mid..<hi]"
  by (metis filter_append le_iff_add upt_add_eq_append)

lemma isolateRange_committed_mono: "isoCommitted st \<le> isoCommitted (isolateRange env job lo hi st)"
proof (induction "hi - lo" arbitrary: lo hi st rule: less_induct)
  case less
  show ?case
  proof (cases rule: isolateRange_cases [OF refl, of env job lo hi st])
    case (4 w1 err mid)
    let ?st1 = "st\<lparr>fsW := w1, isoAttempts := Suc (isoAttempts st)\<rparr>"
    have "mid - lo < hi - lo" "hi - mid < hi - lo" using 4(1,2) by simp_all
    then have "isoCommitted ?st1 \<le> isoCommitted (isolateRange env job lo mid ?st1)"
      "isoCommitted (isolateRange env job lo mid ?st1) \<le> isoCommitted (isolateRange env job lo hi st)"
      unfolding 4(5) using less.hyps by blast+
    then show ?thesis by simp
  qed (simp_all add: ackAll_def terminatePoison_def)
qed

text \<open>Once a range has committed, the rest is decided row by row: healthy rows are acknowledged,
  poison rows terminated, in order.\<close>

lemma isolateRange_exact:
  assumes P: "poison_writer env bad" and len: "length (jobMsgs job) = length (jobEvents job)"
  shows "0 < isoCommitted st \<Longrightarrow> hi \<le> length (jobEvents job) \<Longrightarrow>
    \<exists>acts. fsActions (isolateRange env job lo hi st) = fsActions st @ acts \<and>
      acked acts = map ((!) (jobMsgs job)) (positions (\<lambda>e. \<not> bad e) job lo hi) \<and>
      termed acts = map ((!) (jobMsgs job)) (positions bad job lo hi)"
proof (induction "hi - lo" arbitrary: lo hi st rule: less_induct)
  case less
  show ?case
  proof (cases rule: isolateRange_cases [OF refl, of env job lo hi st])
    case 1
    with less.prems P have "hi \<le> lo" by (auto simp: poison_writer_def)
    with 1 show ?thesis by simp
  next
    case (2 w1)
    from poison_writer_None [OF P 2(2)] less.prems(2)
    have ok: "\<not> bad (jobEvents job ! i)" if "i \<in> set [lo..<hi]" for i
      using that by (auto simp: slice_nth)
    then have "positions (\<lambda>e. \<not> bad e) job lo hi = [lo..<hi]" "positions bad job lo hi = []"
      by (auto simp: filter_id_conv filter_empty_conv)
    with less.prems(2) len show ?thesis
      unfolding 2(3) by (simp add: ackAll_def slice_nth)
  next
    case (3 w1 err)
    from poison_writer_Some [OF P 3(2)] less.prems(2) 3(1)
    have "errors_is err ErrPoisonRow" "bad (jobEvents job ! lo)" by (auto simp: slice_nth)
    with 3(1) show ?thesis
      unfolding 3(3) by (auto simp: terminatePoison_def intro!: exI [of _ "[TermMsg (jobMsgs job ! lo)]"])
  next
    case (4 w1 err mid)
    let ?st1 = "st\<lparr>fsW := w1, isoAttempts := Suc (isoAttempts st)\<rparr>"
    let ?st2 = "isolateRange env job lo mid ?st1"
    have m: "mid - lo < hi - lo" "hi - mid < hi - lo" "mid \<le> length (jobEvents job)"
      using 4(1,2) less.prems by simp_all
    from less.hyps [OF m(1) _ m(3), of ?st1] less.prems(1) obtain a1 where
      a1: "fsActions ?st2 = fsActions st @ a1"
        "acked a1 = map ((!) (jobMsgs job)) (positions (\<lambda>e. \<not> bad e) job lo mid)"
        "termed a1 = map ((!) (jobMsgs job)) (positions bad job lo mid)" by auto
    have "0 < isoCommitted ?st2"
      using isolateRange_committed_mono [of ?st1 env job lo mid] less.prems(1) by simp
    from less.hyps [OF m(2) this less.prems(2)] obtain a2 where
      a2: "fsActions (isolateRange env job lo hi st) = fsActions ?st2 @ a2"
        "acked a2 = map ((!) (jobMsgs job)) (positions (\<lambda>e. \<not> bad e) job mid hi)"
        "termed a2 = map ((!) (jobMsgs job)) (positions bad job mid hi)"
      unfolding 4(5) by auto
    from a1 a2 4(1,2) show ?thesis
      by (intro exI [of _ "a1 @ a2"]) (simp add: filter_upt_split [of lo mid hi])
  qed
qed

section \<open>Progress and the probe limit\<close>

text \<open>The number of attempts the left-first descent makes before it reaches one row.\<close>

fun depth :: "nat \<Rightarrow> nat" where
  "depth n = (if n \<le> 1 then 1 else Suc (depth (n div 2)))"

declare depth.simps [simp del]

lemma depth_pos: "0 < depth n"
  by (subst depth.simps) simp

lemma depth_le: "0 < k \<Longrightarrow> n < 2 ^ k \<Longrightarrow> depth n \<le> k"
proof (induction k arbitrary: n)
  case (Suc k)
  show ?case
  proof (cases "n \<le> 1")
    case True
    then show ?thesis by (simp add: depth.simps [of n])
  next
    case False
    with Suc.prems(2) have "0 < k" by (cases k) auto
    moreover have "n div 2 < 2 ^ k" using Suc.prems(2) by simp
    ultimately show ?thesis using Suc.IH False by (simp add: depth.simps [of n])
  qed
qed simp

lemma depth_gt: "2 ^ k \<le> n \<Longrightarrow> k < depth n"
proof (induction k arbitrary: n)
  case (Suc k)
  have "(1 :: nat) < 2 ^ Suc k" by (rule one_less_power) simp_all
  with Suc.prems have "1 < n" by linarith
  moreover have "2 ^ k \<le> n div 2" using Suc.prems by simp
  ultimately show ?case using Suc.IH by (simp add: depth.simps [of n])
qed (simp add: depth_pos)

lemma isolateRange_appends:
  assumes "length (jobMsgs job) = length (jobEvents job)" "hi \<le> length (jobEvents job)"
  obtains acts where "fsActions (isolateRange env job lo hi st) = fsActions st @ acts"
proof -
  have "\<exists>as ts. pass_ok env job lo hi st (isolateRange env job lo hi st) as ts \<and> True"
    by (rule isolateRange_pass [where P = "\<lambda>_ _ _. True", OF assms(1) _ _ _ _ assms(2)]) simp_all
  then show ?thesis using that by (auto simp: pass_ok_def)
qed

lemma isolateRange_progress:
  assumes P: "poison_writer env bad" and len: "length (jobMsgs job) = length (jobEvents job)"
  shows "lo < hi \<Longrightarrow> hi \<le> length (jobEvents job) \<Longrightarrow> isoAttempts st + depth (hi - lo) \<le> isolateProbeLimit \<Longrightarrow>
    fsActions (isolateRange env job lo hi st) \<noteq> fsActions st"
proof (induction "hi - lo" arbitrary: lo hi st rule: less_induct)
  case less
  have d: "0 < depth (hi - lo)" by (rule depth_pos)
  show ?case
  proof (cases rule: isolateRange_cases [OF refl, of env job lo hi st])
    case 1
    with less.prems d P show ?thesis by (auto simp: poison_writer_def)
  next
    case (2 w1)
    with less.prems len show ?thesis by (simp add: ackAll_def slice_def)
  next
    case (3 w1 err)
    with poison_writer_Some [OF P 3(2)] show ?thesis by (simp add: terminatePoison_def)
  next
    case (4 w1 err mid)
    let ?st1 = "st\<lparr>fsW := w1, isoAttempts := Suc (isoAttempts st)\<rparr>"
    have m: "mid - lo < hi - lo" "mid \<le> length (jobEvents job)" "mid - lo = (hi - lo) div 2"
      using 4(1,2,3) less.prems by simp_all
    have "isoAttempts ?st1 + depth (mid - lo) \<le> isolateProbeLimit"
      using less.prems(3) depth.simps [of "hi - lo"] 4(1,2) m(3) by (auto split: if_splits)
    from less.hyps [OF m(1) 4(1) m(2) this]
    have "fsActions (isolateRange env job lo mid ?st1) \<noteq> fsActions st" by simp
    moreover obtain a1 where "fsActions (isolateRange env job lo mid ?st1) = fsActions st @ a1"
      using isolateRange_appends [OF len m(2), of env lo ?st1] by auto
    moreover obtain a2 where
      "fsActions (isolateRange env job lo hi st) = fsActions (isolateRange env job lo mid ?st1) @ a2"
      unfolding 4(5) using isolateRange_appends [OF len less.prems(2)] by metis
    ultimately show ?thesis by auto
  qed
qed

lemma isolateRange_stopped:
  "isoCommitted st = 0 \<Longrightarrow> isolateProbeLimit \<le> isoAttempts st \<Longrightarrow> isolateRange env job lo hi st = st"
  by (simp add: isolateRange.simps [of env job lo hi])

lemma isolateRange_first_poison:
  assumes P: "poison_writer env bad" and "bad (jobEvents job ! 0)"
  shows "0 < hi \<Longrightarrow> hi \<le> length (jobEvents job) \<Longrightarrow> isoCommitted st = 0 \<Longrightarrow>
    isoAttempts st \<le> isolateProbeLimit \<Longrightarrow> isolateProbeLimit < isoAttempts st + depth hi \<Longrightarrow>
    fsActions (isolateRange env job 0 hi st) = fsActions st \<and>
    isoCommitted (isolateRange env job 0 hi st) = 0 \<and>
    isolateProbeLimit \<le> isoAttempts (isolateRange env job 0 hi st)"
proof (induction hi arbitrary: st rule: less_induct)
  case (less hi)
  show ?case
  proof (cases rule: isolateRange_cases [OF refl, of env job 0 hi st])
    case 1
    with less.prems P show ?thesis by (auto simp: poison_writer_def)
  next
    case (2 w1)
    have "jobEvents job ! 0 \<in> set (slice 0 hi (jobEvents job))"
      using less.prems(1,2) by (simp add: slice_nth)
    with poison_writer_None [OF P 2(2)] assms(2) show ?thesis by blast
  next
    case (3 w1 err)
    then have "isolateProbeLimit \<le> isoAttempts st" using less.prems(5) by (simp add: depth.simps [of "Suc 0"])
    with less.prems(3) isolateRange_stopped [of st env job 0 hi] show ?thesis by simp
  next
    case (4 w1 err mid)
    let ?st1 = "st\<lparr>fsW := w1, isoAttempts := Suc (isoAttempts st)\<rparr>"
    show ?thesis
    proof (cases "isoAttempts st < isolateProbeLimit")
      case False
      with less.prems(3) isolateRange_stopped [of st env job 0 hi] show ?thesis by simp
    next
      case True
      have mid: "mid = hi div 2" using 4(3) by simp
      with less.prems(5) 4(1,2) have "isolateProbeLimit < isoAttempts ?st1 + depth mid"
        by (simp add: depth.simps [of hi])
      with less.IH [OF 4(2) 4(1), of ?st1] less.prems(2,3) 4(2) True
      have "fsActions (isolateRange env job 0 mid ?st1) = fsActions st"
        "isoCommitted (isolateRange env job 0 mid ?st1) = 0"
        "isolateProbeLimit \<le> isoAttempts (isolateRange env job 0 mid ?st1)" by simp_all
      then show ?thesis unfolding 4(5) by (simp add: isolateRange_stopped)
    qed
  qed
qed

end
