(* ===== verification/Sink_Run.thy ===== *)
theory Sink_Run
  imports Sink_Isolate
begin

text \<open>
  \<^verbatim>\<open>internal/sink/sink.go\<close>, the goroutines: the \<^verbatim>\<open>select\<close> loop of \<^verbatim>\<open>Run\<close> with the hand-off, the
  backpressure and the shutdown, and the flush workers, as one step relation. A step is an
  atomic action of one goroutine; the loop's position is \<open>run_pc\<close>. The counter
  \<^verbatim>\<open>inflight\<close> is raised after the job is in the channel, as in the code, so a worker may
  finish the job in between. The flush of one bundle is one step.
\<close>

section \<open>State and steps\<close>

datatype cont = ToSelect | ToCheck | ToWait | ToStop

datatype run_pc = AtSelect | Accounting int cont | CheckPressure | WaitFlushed | Draining | Closed

record 'w sink_st =
  sinkCfg :: sink_config
  sinkBuffer :: "event_buffer option"
  sinkJobs :: "flush_job list"
  sinkRunning :: "flush_job list"
  sinkInflight :: int
  sinkSignals :: nat
  sinkFlushed :: nat
  sinkPC :: run_pc
  sinkFS :: "'w flush_st"
  sinkReceived :: "jmsg list"
  sinkDone :: "flush_job list"
  sinkCancelled :: bool

fun pc_of :: "cont \<Rightarrow> run_pc" where
  "pc_of ToSelect = AtSelect"
| "pc_of ToCheck = CheckPressure"
| "pc_of ToWait = WaitFlushed"
| "pc_of ToStop = Closed"

definition jobs_cap :: "sink_config \<Rightarrow> nat" where
  "jobs_cap cfg = nat (Workers cfg * 8)"

text \<open>\<^verbatim>\<open>enqueue\<close>: the send, when the channel has room; the accounting follows as its own step.\<close>

definition send_job :: "event_buffer \<Rightarrow> cont \<Rightarrow> 'w sink_st \<Rightarrow> 'w sink_st" where
  "send_job buf k st = st\<lparr>sinkJobs := sinkJobs st @ [job_of buf], sinkBuffer := None,
                          sinkPC := Accounting (bufFootprint buf) k\<rparr>"

definition try_enqueue :: "cont \<Rightarrow> 'w sink_st \<Rightarrow> 'w sink_st" where
  "try_enqueue k st =
     (case sinkBuffer st of
        Some buf \<Rightarrow> if length (sinkJobs st) < jobs_cap (sinkCfg st) then send_job buf k st
                    else st\<lparr>sinkPC := pc_of k\<rparr>
      | None \<Rightarrow> st\<lparr>sinkPC := pc_of k\<rparr>)"

definition flushReady :: "go_time \<Rightarrow> cont \<Rightarrow> 'w sink_st \<Rightarrow> 'w sink_st" where
  "flushReady now k st =
     (if flush_due (sinkCfg st) False now (sinkBuffer st) then try_enqueue k st
      else st\<lparr>sinkPC := pc_of k\<rparr>)"

definition record_actions :: "broker_action list \<Rightarrow> 'w sink_st \<Rightarrow> 'w sink_st" where
  "record_actions acts st = st\<lparr>sinkFS := (sinkFS st)\<lparr>fsActions := fsActions (sinkFS st) @ acts\<rparr>\<rparr>"

definition receive :: "ce_lib \<Rightarrow> go_time \<Rightarrow> jmsg \<Rightarrow> 'w sink_st \<Rightarrow> 'w sink_st" where
  "receive L now msg st =
     (case add_msg L now msg (sinkBuffer st) of
        (buf, acts, _) \<Rightarrow>
          record_actions acts (st\<lparr>sinkBuffer := buf, sinkReceived := sinkReceived st @ [msg]\<rparr>))"

definition buffer_footprint :: "'w sink_st \<Rightarrow> int" where
  "buffer_footprint st = (case sinkBuffer st of None \<Rightarrow> 0 | Some b \<Rightarrow> bufFootprint b)"

definition worker_finish :: "'w flush_env \<Rightarrow> flush_job \<Rightarrow> flush_job list \<Rightarrow> 'w sink_st \<Rightarrow> 'w sink_st" where
  "worker_finish env job rest st =
     st\<lparr>sinkRunning := rest, sinkFS := flush env job (sinkFS st),
        sinkInflight := sinkInflight st - jobFootprint job, sinkSignals := Suc (sinkSignals st),
        sinkDone := sinkDone st @ [job]\<rparr>"

definition flushDone_signal :: "'w sink_st \<Rightarrow> 'w sink_st" where
  "flushDone_signal st =
     st\<lparr>sinkSignals := sinkSignals st - 1,
        sinkFlushed := (if sinkFlushed st < nat (Workers (sinkCfg st)) then Suc (sinkFlushed st)
                        else sinkFlushed st)\<rparr>"

inductive sink_step :: "ce_lib \<Rightarrow> 'w flush_env \<Rightarrow> 'w sink_st \<Rightarrow> 'w sink_st \<Rightarrow> bool"
  for L :: ce_lib and env :: "'w flush_env" where
  recv: "sinkPC st = AtSelect \<Longrightarrow> sink_step L env st (flushReady now' ToCheck (receive L now msg st))"
| tick: "sinkPC st = AtSelect \<Longrightarrow> sink_step L env st (flushReady now ToSelect st)"
| account: "sinkPC st = Accounting fp k \<Longrightarrow>
    sink_step L env st (st\<lparr>sinkInflight := sinkInflight st + fp, sinkPC := pc_of k\<rparr>)"
| pass: "sinkPC st = CheckPressure \<Longrightarrow>
    MaxBufferedBytes (sinkCfg st) \<le> 0
      \<or> buffer_footprint st + sinkInflight st < MaxBufferedBytes (sinkCfg st) \<Longrightarrow>
    sink_step L env st (st\<lparr>sinkPC := AtSelect\<rparr>)"
| over: "sinkPC st = CheckPressure \<Longrightarrow> 0 < MaxBufferedBytes (sinkCfg st) \<Longrightarrow>
    MaxBufferedBytes (sinkCfg st) \<le> buffer_footprint st + sinkInflight st \<Longrightarrow>
    sink_step L env st (try_enqueue ToWait st)"
| wake: "sinkPC st = WaitFlushed \<Longrightarrow> 0 < sinkFlushed st \<Longrightarrow>
    sink_step L env st (st\<lparr>sinkFlushed := sinkFlushed st - 1, sinkPC := CheckPressure\<rparr>)"
| ctx_done: "sinkPC st = WaitFlushed \<Longrightarrow>
    sink_step L env st (st\<lparr>sinkPC := AtSelect, sinkCancelled := True\<rparr>)"
| closed: "sinkPC st = AtSelect \<Longrightarrow> sink_step L env st (st\<lparr>sinkPC := Draining\<rparr>)"
| drain_send: "sinkPC st = Draining \<Longrightarrow> sinkBuffer st = Some buf \<Longrightarrow> bufEvents buf \<noteq> [] \<Longrightarrow>
    length (sinkJobs st) < jobs_cap (sinkCfg st) \<Longrightarrow> sink_step L env st (send_job buf ToStop st)"
| drain_skip: "sinkPC st = Draining \<Longrightarrow> sink_step L env st (st\<lparr>sinkPC := Closed\<rparr>)"
| fatal: "sinkPC st = AtSelect \<Longrightarrow> fsFatal (sinkFS st) = Some e \<Longrightarrow>
    sink_step L env st (st\<lparr>sinkPC := Closed, sinkFS := (sinkFS st)\<lparr>fsFatal := None\<rparr>\<rparr>)"
| take: "sinkJobs st = j # js \<Longrightarrow> length (sinkRunning st) < nat (Workers (sinkCfg st)) \<Longrightarrow>
    sink_step L env st (st\<lparr>sinkJobs := js, sinkRunning := sinkRunning st @ [j]\<rparr>)"
| finish: "sinkRunning st = xs @ j # ys \<Longrightarrow> sink_step L env st (worker_finish env j (xs @ ys) st)"
| signal: "0 < sinkSignals st \<Longrightarrow> sink_step L env st (flushDone_signal st)"

definition sink_init :: "sink_config \<Rightarrow> 'w \<Rightarrow> 'w sink_st" where
  "sink_init cfg w =
     \<lparr>sinkCfg = applyDefaults cfg, sinkBuffer = None, sinkJobs = [], sinkRunning = [],
      sinkInflight = 0, sinkSignals = 0, sinkFlushed = 0, sinkPC = AtSelect,
      sinkFS = \<lparr>fsW = w, commitFailFirst = 0, fsFatal = None, fsActions = [], commitsTotal = 0,
                commitFailuresTotal = 0, poisonRows = 0, isoCommitted = 0, isoAttempts = 0\<rparr>,
      sinkReceived = [], sinkDone = [], sinkCancelled = False\<rparr>"

inductive sink_reach :: "ce_lib \<Rightarrow> 'w flush_env \<Rightarrow> sink_config \<Rightarrow> 'w \<Rightarrow> 'w sink_st \<Rightarrow> bool"
  for L :: ce_lib and env :: "'w flush_env" and cfg :: sink_config and w :: 'w where
  start: "sink_reach L env cfg w (sink_init cfg w)"
| step: "sink_reach L env cfg w st \<Longrightarrow> sink_step L env st st' \<Longrightarrow> sink_reach L env cfg w st'"

text \<open>What \<^verbatim>\<open>Run\<close> returns when its workers are done: the error that made it stop, or the one the fetch loop ended with,
  unless that is the cancellation itself.\<close>

definition Run_result :: "go_error option \<Rightarrow> go_error option \<Rightarrow> go_error option" where
  "Run_result fatal fetchErr =
     (case fatal of
        Some err \<Rightarrow> Some err
      | None \<Rightarrow>
          (case fetchErr of
             None \<Rightarrow> None
           | Some e \<Rightarrow> if errors_is e CtxCanceled then None else Some (errorf ''sink fetch loop: '' e '''')))"

text \<open>\<^verbatim>\<open>pollWALPending\<close> over the answers of \<^verbatim>\<open>Info\<close> at the ticks before the context is done: a failed one leaves the
  gauge as it is.\<close>

fun pollWALPending :: "nat result list \<Rightarrow> nat option \<Rightarrow> nat option" where
  "pollWALPending [] gauge = gauge"
| "pollWALPending (Inl err # infos) gauge = pollWALPending infos gauge"
| "pollWALPending (Inr pending # infos) gauge = pollWALPending infos (Some pending)"

section \<open>Projections\<close>

lemma try_enqueue_simps [simp]:
  "sinkCfg (try_enqueue k st) = sinkCfg st" "sinkRunning (try_enqueue k st) = sinkRunning st"
  "sinkInflight (try_enqueue k st) = sinkInflight st" "sinkSignals (try_enqueue k st) = sinkSignals st"
  "sinkFlushed (try_enqueue k st) = sinkFlushed st" "sinkFS (try_enqueue k st) = sinkFS st"
  "sinkReceived (try_enqueue k st) = sinkReceived st" "sinkDone (try_enqueue k st) = sinkDone st"
  "sinkCancelled (try_enqueue k st) = sinkCancelled st"
  by (simp_all add: try_enqueue_def send_job_def split: option.splits)

lemma flushReady_cases:
  obtains "flushReady now k st = try_enqueue k st" | "flushReady now k st = st\<lparr>sinkPC := pc_of k\<rparr>"
  by (cases "flush_due (sinkCfg st) False now (sinkBuffer st)") (simp_all add: flushReady_def)

lemma try_enqueue_cases:
  obtains (sent) buf where "sinkBuffer st = Some buf" "length (sinkJobs st) < jobs_cap (sinkCfg st)"
      "try_enqueue k st = send_job buf k st"
  | (kept) "try_enqueue k st = st\<lparr>sinkPC := pc_of k\<rparr>"
      "sinkBuffer st = None \<or> jobs_cap (sinkCfg st) \<le> length (sinkJobs st)"
  by (cases "sinkBuffer st"; cases "length (sinkJobs st) < jobs_cap (sinkCfg st)")
    (auto simp: try_enqueue_def)

lemma flushReady_send_or_keep:
  obtains (sent) buf where "sinkBuffer st = Some buf" "length (sinkJobs st) < jobs_cap (sinkCfg st)"
      "flushReady now k st = send_job buf k st"
  | (kept) "flushReady now k st = st\<lparr>sinkPC := pc_of k\<rparr>"
  by (cases rule: flushReady_cases [of now k st]; cases rule: try_enqueue_cases [of st k]) auto

lemma flush_step_config: "sink_step L env st st' \<Longrightarrow> sinkCfg st' = sinkCfg st"
proof (induction rule: sink_step.induct)
  case (recv st now' now msg)
  show ?case
    by (cases rule: flushReady_send_or_keep [of "receive L now msg st" now' ToCheck])
      (simp_all add: send_job_def receive_def record_actions_def split: prod.splits)
next
  case (tick st now)
  show ?case by (cases rule: flushReady_send_or_keep [of st now ToSelect]) (simp_all add: send_job_def)
qed (simp_all add: send_job_def worker_finish_def flushDone_signal_def)

lemma sink_reach_config: "sink_reach L env cfg w st \<Longrightarrow> sinkCfg st = applyDefaults cfg"
  by (induction rule: sink_reach.induct) (simp_all add: sink_init_def flush_step_config)

lemma receive_simps [simp]:
  "sinkCfg (receive L now m st) = sinkCfg st" "sinkJobs (receive L now m st) = sinkJobs st"
  "sinkRunning (receive L now m st) = sinkRunning st" "sinkInflight (receive L now m st) = sinkInflight st"
  "sinkSignals (receive L now m st) = sinkSignals st" "sinkFlushed (receive L now m st) = sinkFlushed st"
  "sinkPC (receive L now m st) = sinkPC st" "sinkDone (receive L now m st) = sinkDone st"
  "sinkReceived (receive L now m st) = sinkReceived st @ [m]"
  "sinkCancelled (receive L now m st) = sinkCancelled st"
  "fsW (sinkFS (receive L now m st)) = fsW (sinkFS st)"
  by (simp_all add: receive_def record_actions_def split: prod.splits)

text \<open>A gauge once set keeps the last backlog the broker reported, however many polls failed since.\<close>

lemma poll_keeps_last:
  "pollWALPending (infos @ Inr n # map Inl errs) g = Some n"
proof -
  have "pollWALPending (map Inl errs) h = h" for h by (induction errs) simp_all
  then show ?thesis by (induction infos g rule: pollWALPending.induct) simp_all
qed

section \<open>Accounting\<close>

fun pending_add :: "run_pc \<Rightarrow> int" where
  "pending_add (Accounting fp k) = fp"
| "pending_add _ = 0"

definition queued_footprint :: "'w sink_st \<Rightarrow> int" where
  "queued_footprint st = sum_list (map jobFootprint (sinkJobs st)) + sum_list (map jobFootprint (sinkRunning st))"

text \<open>The tally is the footprint of what is queued or running, but for the job just sent.\<close>

definition accounts :: "'w sink_st \<Rightarrow> bool" where
  "accounts st \<longleftrightarrow> sinkInflight st + pending_add (sinkPC st) = queued_footprint st"

lemma pending_pc_of [simp]: "pending_add (pc_of k) = 0"
  by (cases k) simp_all

lemma accounts_send:
  "accounts st \<Longrightarrow> pending_add (sinkPC st) = 0 \<Longrightarrow> accounts (send_job buf k st)"
  by (simp add: accounts_def queued_footprint_def send_job_def job_of_def)

lemma accounts_keep:
  "accounts st \<Longrightarrow> pending_add (sinkPC st) = 0 \<Longrightarrow> accounts (st\<lparr>sinkPC := pc_of k\<rparr>)"
  by (simp add: accounts_def queued_footprint_def)

lemma accounts_flushReady:
  "accounts st \<Longrightarrow> pending_add (sinkPC st) = 0 \<Longrightarrow> accounts (flushReady now k st)"
  by (cases rule: flushReady_send_or_keep [of st now k]) (simp_all add: accounts_send accounts_keep)

lemma accounts_step: "sink_step L env st st' \<Longrightarrow> accounts st \<Longrightarrow> accounts st'"
proof (induction rule: sink_step.induct)
  case (recv st now' now msg)
  then have "accounts (receive L now msg st)" by (simp add: accounts_def queued_footprint_def)
  with recv show ?case by (intro accounts_flushReady) simp_all
next
  case (tick st now)
  then show ?case by (intro accounts_flushReady) simp_all
next
  case (over st)
  then show ?case
    by (cases rule: try_enqueue_cases [of st ToWait])
      (simp_all add: accounts_send accounts_keep [of _ ToWait, simplified])
next
  case (drain_send st buf)
  then show ?case by (intro accounts_send) simp_all
next
  case (finish st xs j ys)
  then show ?case by (simp add: accounts_def queued_footprint_def worker_finish_def)
qed (simp_all add: accounts_def queued_footprint_def flushDone_signal_def)

lemma accounts_reach: "sink_reach L env cfg w st \<Longrightarrow> accounts st"
proof (induction rule: sink_reach.induct)
  case (step st st')
  then show ?case by (blast intro: accounts_step)
qed (simp add: sink_init_def accounts_def queued_footprint_def)

section \<open>Channel bounds\<close>

definition bounded :: "'w sink_st \<Rightarrow> bool" where
  "bounded st \<longleftrightarrow> length (sinkJobs st) \<le> jobs_cap (sinkCfg st) \<and>
     length (sinkRunning st) \<le> nat (Workers (sinkCfg st)) \<and>
     sinkFlushed st \<le> nat (Workers (sinkCfg st))"

lemma bounded_flushReady: "bounded st \<Longrightarrow> bounded (flushReady now k st)"
  by (cases rule: flushReady_send_or_keep [of st now k]) (simp_all add: bounded_def send_job_def)

lemma bounded_try_enqueue: "bounded st \<Longrightarrow> bounded (try_enqueue k st)"
  by (cases rule: try_enqueue_cases [of st k]) (simp_all add: bounded_def send_job_def)

lemma bounded_step: "sink_step L env st st' \<Longrightarrow> bounded st \<Longrightarrow> bounded st'"
proof (induction rule: sink_step.induct)
  case (recv st now' now msg)
  then have "bounded (receive L now msg st)" by (simp add: bounded_def)
  then show ?case by (rule bounded_flushReady)
next
  case (tick st now)
  then show ?case by (simp add: bounded_flushReady)
next
  case (over st)
  then show ?case by (simp add: bounded_try_enqueue)
qed (auto simp: bounded_def send_job_def worker_finish_def flushDone_signal_def)

lemma bounded_reach: "sink_reach L env cfg w st \<Longrightarrow> bounded st"
proof (induction rule: sink_reach.induct)
  case (step st st')
  then show ?case by (blast intro: bounded_step)
qed (simp add: sink_init_def bounded_def)

section \<open>No lost wake-up\<close>

fun will_wait :: "run_pc \<Rightarrow> bool" where
  "will_wait WaitFlushed = True"
| "will_wait (Accounting fp k) = (k = ToWait)"
| "will_wait _ = False"

definition wakeable :: "'w sink_st \<Rightarrow> bool" where
  "wakeable st \<longleftrightarrow> 0 < sinkFlushed st \<or> 0 < sinkSignals st \<or> sinkJobs st \<noteq> [] \<or> sinkRunning st \<noteq> []"

definition no_lost_wake :: "'w sink_st \<Rightarrow> bool" where
  "no_lost_wake st \<longleftrightarrow> 1 \<le> Workers (sinkCfg st) \<longrightarrow> will_wait (sinkPC st) \<longrightarrow> wakeable st"

lemma will_wait_pc_of [simp]: "will_wait (pc_of k) \<longleftrightarrow> k = ToWait"
  by (cases k) simp_all

lemma no_lost_wake_flushReady: "k \<noteq> ToWait \<Longrightarrow> no_lost_wake (flushReady now k st)"
  by (cases rule: flushReady_send_or_keep [of st now k]) (simp_all add: no_lost_wake_def send_job_def)

lemma queued_nonempty: "0 < queued_footprint st \<Longrightarrow> sinkJobs st \<noteq> [] \<or> sinkRunning st \<noteq> []"
  by (auto simp: queued_footprint_def)

lemma no_lost_wake_over:
  assumes "accounts st" "sinkPC st = CheckPressure" "0 < MaxBufferedBytes (sinkCfg st)"
    "MaxBufferedBytes (sinkCfg st) \<le> buffer_footprint st + sinkInflight st"
  shows "no_lost_wake (try_enqueue ToWait st)"
proof (cases rule: try_enqueue_cases [of st ToWait])
  case (sent buf)
  then show ?thesis by (simp add: no_lost_wake_def wakeable_def send_job_def)
next
  case kept
  show ?thesis
  proof (cases "sinkBuffer st")
    case None
    with assms have "0 < queued_footprint st" by (simp add: accounts_def buffer_footprint_def)
    with queued_nonempty kept(1) show ?thesis by (auto simp: no_lost_wake_def wakeable_def)
  next
    case (Some b)
    with kept have "jobs_cap (sinkCfg st) \<le> length (sinkJobs st)" by simp
    then have "1 \<le> Workers (sinkCfg st) \<Longrightarrow> sinkJobs st \<noteq> []" by (auto simp: jobs_cap_def)
    with kept(1) show ?thesis by (simp add: no_lost_wake_def wakeable_def)
  qed
qed

lemma no_lost_wake_step:
  "sink_step L env st st' \<Longrightarrow> accounts st \<Longrightarrow> no_lost_wake st \<Longrightarrow> no_lost_wake st'"
proof (induction rule: sink_step.induct)
  case (recv st now' now msg)
  show ?case by (simp add: no_lost_wake_flushReady)
next
  case (tick st now)
  show ?case by (simp add: no_lost_wake_flushReady)
next
  case (over st)
  then show ?case by (intro no_lost_wake_over)
next
  case (account st fp k)
  then show ?case by (auto simp: no_lost_wake_def wakeable_def)
next
  case (take st j js)
  then show ?case by (auto simp: no_lost_wake_def wakeable_def)
next
  case (signal st)
  then show ?case by (auto simp: no_lost_wake_def wakeable_def flushDone_signal_def)
qed (auto simp: no_lost_wake_def wakeable_def send_job_def worker_finish_def)

lemma no_lost_wake_reach: "sink_reach L env cfg w st \<Longrightarrow> no_lost_wake st"
proof (induction rule: sink_reach.induct)
  case (step st st')
  then show ?case using no_lost_wake_step [OF step.hyps(2) accounts_reach [OF step.hyps(1)]] by simp
qed (simp add: no_lost_wake_def sink_init_def)

end
