(* ===== verification/Sink_Safety.thy ===== *)
theory Sink_Safety
  imports Sink_Run
begin

text \<open>
  Invariants of the running sink, by rule induction over \<open>sink_reach\<close>: every message taken from
  the stream is in exactly one place, memory stays below the ceiling plus one message, a
  message is acted on at most once, an acknowledged message has its row committed, and a
  terminated one was undecodable or there was evidence against it.
\<close>

section \<open>Well-formed bundles\<close>

definition msg_event :: "ce_lib \<Rightarrow> jmsg \<Rightarrow> stored_event result" where
  "msg_event L m = ParseMsg L (jmHeaders m) (jmData m)"

definition decodable :: "ce_lib \<Rightarrow> jmsg \<Rightarrow> bool" where
  "decodable L m \<longleftrightarrow> (\<exists>ev. msg_event L m = Inr ev)"

definition event_of :: "ce_lib \<Rightarrow> jmsg \<Rightarrow> stored_event" where
  "event_of L m = projr (msg_event L m)"

definition msg_footprint :: "ce_lib \<Rightarrow> jmsg \<Rightarrow> int" where
  "msg_footprint L m =
     (case msg_event L m of Inl _ \<Rightarrow> 0 | Inr ev \<Rightarrow> bufferedFootprint ev (length (jmData m)))"

definition job_wf :: "ce_lib \<Rightarrow> flush_job \<Rightarrow> bool" where
  "job_wf L j \<longleftrightarrow> (\<forall>m\<in>set (jobMsgs j). decodable L m) \<and> jobEvents j = map (event_of L) (jobMsgs j) \<and>
     jobFootprint j = sum_list (map (msg_footprint L) (jobMsgs j))"

definition buffer_wf :: "ce_lib \<Rightarrow> event_buffer option \<Rightarrow> bool" where
  "buffer_wf L b \<longleftrightarrow> (\<forall>buf. b = Some buf \<longrightarrow> job_wf L (job_of buf))"

definition sink_wf :: "ce_lib \<Rightarrow> 'w sink_st \<Rightarrow> bool" where
  "sink_wf L st \<longleftrightarrow> buffer_wf L (sinkBuffer st) \<and>
     (\<forall>j\<in>set (sinkJobs st) \<union> set (sinkRunning st) \<union> set (sinkDone st). job_wf L j)"

lemma msg_footprint_nonneg: "0 \<le> msg_footprint L m"
  by (auto simp: msg_footprint_def bufferedFootprint_def split: sum.splits)

lemma job_wf_footprint_nonneg: "job_wf L j \<Longrightarrow> 0 \<le> jobFootprint j"
  by (auto simp: job_wf_def intro!: sum_list_nonneg msg_footprint_nonneg)

lemma job_wf_length: "job_wf L j \<Longrightarrow> length (jobMsgs j) = length (jobEvents j)"
  by (simp add: job_wf_def)

text \<open>The buffer after a message, by whether it can be decoded.\<close>

lemma add_msg_cases:
  obtains (bad) "\<not> decodable L m" "add_msg L now m b = (b, [TermMsg m], 0)"
  | (good) buf' n where "decodable L m" "add_msg L now m b = (Some buf', [], n)"
      "bufMsgs buf' = (case b of None \<Rightarrow> [] | Some x \<Rightarrow> bufMsgs x) @ [m]"
      "bufEvents buf' = (case b of None \<Rightarrow> [] | Some x \<Rightarrow> bufEvents x) @ [event_of L m]"
      "bufFootprint buf' = (case b of None \<Rightarrow> 0 | Some x \<Rightarrow> bufFootprint x) + msg_footprint L m"
proof (cases "msg_event L m")
  case (Inl e)
  then show ?thesis
    by (intro that(1)) (simp_all add: decodable_def add_msg_def msg_event_def)
next
  case (Inr ev)
  then show ?thesis
    by (intro that(2)) (auto simp: decodable_def add_msg_def msg_event_def event_of_def
        msg_footprint_def Let_def split: option.splits)
qed

lemma buffer_wf_add: "buffer_wf L b \<Longrightarrow> add_msg L now m b = (b', acts, n) \<Longrightarrow> buffer_wf L b'"
  by (cases rule: add_msg_cases [of L m now b])
    (auto simp: buffer_wf_def job_wf_def job_of_def split: option.splits)

lemma sinkBuffer_receive: "sinkBuffer (receive L now m st) = fst (add_msg L now m (sinkBuffer st))"
  by (simp add: receive_def record_actions_def split: prod.splits)

lemma sink_wf_receive: "sink_wf L st \<Longrightarrow> sink_wf L (receive L now m st)"
  using buffer_wf_add [of L "sinkBuffer st" now m]
  by (simp add: sink_wf_def sinkBuffer_receive) (metis prod.collapse)

lemma sink_wf_send: "sink_wf L st \<Longrightarrow> sinkBuffer st = Some buf \<Longrightarrow> sink_wf L (send_job buf k st)"
  by (auto simp: sink_wf_def send_job_def buffer_wf_def)

lemma sink_wf_pc [simp]: "sink_wf L (st\<lparr>sinkPC := p\<rparr>) = sink_wf L st"
  by (simp add: sink_wf_def)

lemma sink_wf_flushReady: "sink_wf L st \<Longrightarrow> sink_wf L (flushReady now k st)"
  by (cases rule: flushReady_send_or_keep [of st now k]) (simp_all add: sink_wf_send)

lemma sink_wf_step: "sink_step L env st st' \<Longrightarrow> sink_wf L st \<Longrightarrow> sink_wf L st'"
proof (induction rule: sink_step.induct)
  case (over st)
  then show ?case by (cases rule: try_enqueue_cases [of st ToWait]) (simp_all add: sink_wf_send)
next
  case (recv st now' now msg)
  then show ?case by (simp add: sink_wf_flushReady sink_wf_receive)
next
  case (tick st now)
  then show ?case by (simp add: sink_wf_flushReady)
next
  case (drain_send st buf)
  then show ?case by (simp add: sink_wf_send)
qed (auto simp: sink_wf_def worker_finish_def flushDone_signal_def)

lemma sink_wf_reach: "sink_reach L env cfg w st \<Longrightarrow> sink_wf L st"
proof (induction rule: sink_reach.induct)
  case (step st st')
  then show ?case by (blast intro: sink_wf_step)
qed (simp add: sink_init_def sink_wf_def buffer_wf_def)

section \<open>Memory\<close>

definition resident :: "'w sink_st \<Rightarrow> int" where
  "resident st = buffer_footprint st + queued_footprint st"

definition last_footprint :: "ce_lib \<Rightarrow> 'w sink_st \<Rightarrow> int" where
  "last_footprint L st = (if sinkReceived st = [] then 0 else msg_footprint L (last (sinkReceived st)))"

fun tight :: "run_pc \<Rightarrow> bool" where
  "tight AtSelect = True"
| "tight (Accounting fp k) = (k = ToSelect)"
| "tight _ = False"

definition mem_ok :: "ce_lib \<Rightarrow> 'w sink_st \<Rightarrow> bool" where
  "mem_ok L st \<longleftrightarrow> (0 < MaxBufferedBytes (sinkCfg st) \<and> \<not> sinkCancelled st \<longrightarrow>
     resident st < MaxBufferedBytes (sinkCfg st) + (if tight (sinkPC st) then 0 else last_footprint L st))"

lemma last_footprint_nonneg: "0 \<le> last_footprint L st"
  by (simp add: last_footprint_def msg_footprint_nonneg)

lemma resident_receive: "resident (receive L now m st) = resident st + msg_footprint L m"
  by (cases rule: add_msg_cases [of L m now "sinkBuffer st"])
    (auto simp: resident_def buffer_footprint_def queued_footprint_def sinkBuffer_receive
      msg_footprint_def decodable_def split: option.splits sum.splits)

lemma resident_send: "sinkBuffer st = Some buf \<Longrightarrow> resident (send_job buf k st) = resident st"
  by (simp add: resident_def buffer_footprint_def queued_footprint_def send_job_def job_of_def)

lemma resident_pc [simp]: "resident (st\<lparr>sinkPC := p\<rparr>) = resident st"
  by (simp add: resident_def buffer_footprint_def queued_footprint_def)

lemma tight_pc_of [simp]: "tight (pc_of k) \<longleftrightarrow> k = ToSelect"
  by (cases k) simp_all

lemma resident_flushReady [simp]: "resident (flushReady now k st) = resident st"
  by (cases rule: flushReady_send_or_keep [of st now k]) (simp_all add: resident_send)

lemma resident_try_enqueue [simp]: "resident (try_enqueue k st) = resident st"
  by (cases rule: try_enqueue_cases [of st k]) (simp_all add: resident_send)

lemma flushReady_frame:
  "sinkCfg (flushReady now k st) = sinkCfg st" "sinkReceived (flushReady now k st) = sinkReceived st"
  "sinkCancelled (flushReady now k st) = sinkCancelled st" "sinkFS (flushReady now k st) = sinkFS st"
  "sinkDone (flushReady now k st) = sinkDone st"
  "tight (sinkPC (flushReady now k st)) \<longleftrightarrow> k = ToSelect"
  by (cases rule: flushReady_send_or_keep [of st now k]; simp add: send_job_def)+

lemma tight_try_enqueue: "tight (sinkPC (try_enqueue k st)) \<longleftrightarrow> k = ToSelect"
  by (cases rule: try_enqueue_cases [of st k]) (simp_all add: send_job_def)

lemma mem_ok_mono:
  assumes "mem_ok L st" "sinkCfg st' = sinkCfg st" "sinkReceived st' = sinkReceived st"
    "sinkCancelled st' = sinkCancelled st" "resident st' \<le> resident st"
    "tight (sinkPC st') \<Longrightarrow> tight (sinkPC st)"
  shows "mem_ok L st'"
proof -
  have "last_footprint L st' = last_footprint L st" by (simp add: last_footprint_def assms(3))
  with assms last_footprint_nonneg [of L st] show ?thesis by (auto simp: mem_ok_def split: if_splits)
qed

lemma resident_frame:
  "sinkBuffer st' = sinkBuffer st \<Longrightarrow> sinkJobs st' = sinkJobs st \<Longrightarrow> sinkRunning st' = sinkRunning st \<Longrightarrow>
     resident st' = resident st"
  by (simp add: resident_def buffer_footprint_def queued_footprint_def)

lemma mem_ok_step:
  "sink_step L env st st' \<Longrightarrow> accounts st \<Longrightarrow> sink_wf L st \<Longrightarrow> mem_ok L st \<Longrightarrow> mem_ok L st'"
proof (induction rule: sink_step.induct)
  case (recv st now' now msg)
  then show ?case
    by (simp add: mem_ok_def flushReady_frame resident_receive last_footprint_def)
next
  case (tick st now)
  then show ?case by (auto simp: flushReady_frame intro: mem_ok_mono [of L st])
next
  case (account st fp k)
  then show ?case by (auto intro!: mem_ok_mono [of L st] eq_refl [OF resident_frame])
next
  case (pass st)
  then have "sinkInflight st = queued_footprint st" by (simp add: accounts_def)
  then have "resident st = buffer_footprint st + sinkInflight st" by (simp add: resident_def)
  with pass show ?case by (auto simp: mem_ok_def)
next
  case (over st)
  then show ?case by (auto simp: tight_try_enqueue intro: mem_ok_mono [of L st])
next
  case (drain_send st buf)
  then show ?case
    by (auto simp: resident_send send_job_def [of buf] intro!: mem_ok_mono [of L st]
        resident_send [of st buf, THEN eq_refl, unfolded send_job_def])
next
  case (take st j js)
  then have "resident (st\<lparr>sinkJobs := js, sinkRunning := sinkRunning st @ [j]\<rparr>) = resident st"
    by (simp add: resident_def buffer_footprint_def queued_footprint_def)
  with take show ?case by (auto intro: mem_ok_mono [of L st])
next
  case (finish st xs j ys)
  then have "job_wf L j" by (simp add: sink_wf_def)
  from job_wf_footprint_nonneg [OF this] finish(1)
  have "resident (worker_finish env j (xs @ ys) st) \<le> resident st"
    by (simp add: resident_def buffer_footprint_def queued_footprint_def worker_finish_def)
  with finish show ?case by (auto simp: worker_finish_def intro: mem_ok_mono [of L st])
next
  case (ctx_done st)
  then show ?case by (simp add: mem_ok_def)
next
  case (wake st)
  then show ?case by (auto intro!: mem_ok_mono [of L st] eq_refl [OF resident_frame])
next
  case (closed st)
  then show ?case by (auto intro!: mem_ok_mono [of L st] eq_refl [OF resident_frame])
next
  case (drain_skip st)
  then show ?case by (auto intro!: mem_ok_mono [of L st] eq_refl [OF resident_frame])
next
  case (fatal st e)
  then show ?case by (auto intro!: mem_ok_mono [of L st] eq_refl [OF resident_frame])
next
  case (signal st)
  then show ?case
    by (auto simp: flushDone_signal_def intro!: mem_ok_mono [of L st] eq_refl [OF resident_frame])
qed

lemma mem_ok_reach: "sink_reach L env cfg w st \<Longrightarrow> mem_ok L st"
proof (induction rule: sink_reach.induct)
  case (step st st')
  then show ?case
    using mem_ok_step [OF step.hyps(2) accounts_reach [OF step.hyps(1)] sink_wf_reach [OF step.hyps(1)]]
    by simp
qed (simp add: sink_init_def mem_ok_def resident_def buffer_footprint_def queued_footprint_def)

section \<open>Conservation\<close>

definition buffered_msgs :: "'w sink_st \<Rightarrow> jmsg list" where
  "buffered_msgs st = (case sinkBuffer st of None \<Rightarrow> [] | Some b \<Rightarrow> bufMsgs b)"

definition bundle_msgs :: "flush_job list \<Rightarrow> jmsg multiset" where
  "bundle_msgs js = mset (concat (map jobMsgs js))"

lemma bundle_msgs_simps [simp]:
  "bundle_msgs [] = {#}" "bundle_msgs (j # js) = mset (jobMsgs j) + bundle_msgs js"
  "bundle_msgs (js @ ks) = bundle_msgs js + bundle_msgs ks"
  by (simp_all add: bundle_msgs_def)

text \<open>Each decodable message received is in the buffer, in the channel, with a worker or in a
  finished bundle, and in one of them only.\<close>

definition conserved :: "ce_lib \<Rightarrow> 'w sink_st \<Rightarrow> bool" where
  "conserved L st \<longleftrightarrow>
     mset (filter (decodable L) (sinkReceived st)) =
       mset (buffered_msgs st) + bundle_msgs (sinkJobs st) + bundle_msgs (sinkRunning st)
       + bundle_msgs (sinkDone st)"

lemma conserved_receive: "conserved L st \<Longrightarrow> conserved L (receive L now m st)"
  by (cases rule: add_msg_cases [of L m now "sinkBuffer st"])
    (auto simp: conserved_def buffered_msgs_def sinkBuffer_receive split: option.splits)

lemma conserved_send: "conserved L st \<Longrightarrow> sinkBuffer st = Some buf \<Longrightarrow> conserved L (send_job buf k st)"
  by (simp add: conserved_def buffered_msgs_def send_job_def job_of_def add.commute add.left_commute)

lemma conserved_pc [simp]: "conserved L (st\<lparr>sinkPC := p\<rparr>) = conserved L st"
  by (simp add: conserved_def buffered_msgs_def)

lemma conserved_flushReady: "conserved L st \<Longrightarrow> conserved L (flushReady now k st)"
  by (cases rule: flushReady_send_or_keep [of st now k]) (simp_all add: conserved_send)

lemma conserved_step: "sink_step L env st st' \<Longrightarrow> conserved L st \<Longrightarrow> conserved L st'"
proof (induction rule: sink_step.induct)
  case (recv st now' now msg)
  then show ?case by (simp add: conserved_flushReady conserved_receive)
next
  case (tick st now)
  then show ?case by (simp add: conserved_flushReady)
next
  case (over st)
  then show ?case by (cases rule: try_enqueue_cases [of st ToWait]) (simp_all add: conserved_send)
next
  case (drain_send st buf)
  then show ?case by (simp add: conserved_send)
qed (simp_all add: conserved_def buffered_msgs_def worker_finish_def flushDone_signal_def
    add.commute add.left_commute add.assoc)

lemma conserved_reach: "sink_reach L env cfg w st \<Longrightarrow> conserved L st"
proof (induction rule: sink_reach.induct)
  case (step st st')
  then show ?case by (blast intro: conserved_step)
qed (simp add: sink_init_def conserved_def buffered_msgs_def)

section \<open>Actions\<close>

lemma mset_positions:
  assumes "distinct is" "set is \<subseteq> {..<length xs}"
  shows "mset (map ((!) xs) is) \<subseteq># mset xs"
proof -
  have "mset is = mset_set (set is)" using assms(1) by (simp add: mset_set_set)
  then have "mset (map ((!) xs) is) = image_mset ((!) xs) (mset_set (set is))" by simp
  also have "\<dots> \<subseteq># image_mset ((!) xs) (mset_set {..<length xs})"
    using assms(2) by (intro image_mset_subseteq_mono subset_imp_msubset_mset_set) simp_all
  also have "mset_set {..<length xs} = mset [0..<length xs]"
    by (metis atLeast_upt distinct_upt mset_set_set)
  also have "image_mset ((!) xs) (mset [0..<length xs]) = mset xs"
    by (metis map_nth mset_map)
  finally show ?thesis .
qed

text \<open>A message is acted on at most once, and not before its bundle is done.\<close>

definition acts_once :: "ce_lib \<Rightarrow> 'w sink_st \<Rightarrow> bool" where
  "acts_once L st \<longleftrightarrow>
     mset (acked (fsActions (sinkFS st))) + mset (termed (fsActions (sinkFS st))) \<subseteq>#
       mset (filter (\<lambda>m. \<not> decodable L m) (sinkReceived st)) + bundle_msgs (sinkDone st)"

text \<open>Why a message was terminated.\<close>

definition term_justified :: "ce_lib \<Rightarrow> 'w flush_env \<Rightarrow> jmsg \<Rightarrow> bool" where
  "term_justified L env m \<longleftrightarrow>
     \<not> decodable L m \<or>
     (\<exists>w w' e. feWrite env [event_of L m] w = (w', Some e) \<and> errors_is e ErrPoisonRow) \<or>
     poisonRedeliveryThreshold \<le> redeliveryCount m"

definition terms_ok :: "ce_lib \<Rightarrow> 'w flush_env \<Rightarrow> 'w sink_st \<Rightarrow> bool" where
  "terms_ok L env st \<longleftrightarrow> (\<forall>m\<in>set (termed (fsActions (sinkFS st))). term_justified L env m)"

lemma receive_actions:
  "fsActions (sinkFS (receive L now m st)) =
     fsActions (sinkFS st) @ (if decodable L m then [] else [TermMsg m])"
  by (cases rule: add_msg_cases [of L m now "sinkBuffer st"])
    (simp_all add: receive_def record_actions_def)

lemma flush_ok_acts:
  assumes "flush_ok env j fs fs' as ts" "job_wf L j"
  obtains acts where "fsActions fs' = fsActions fs @ acts" "acked acts = map ((!) (jobMsgs j)) as"
    "set as \<subseteq> {..<length (jobMsgs j)}" "mset (acked acts) + mset (termed acts) \<subseteq># mset (jobMsgs j)"
    "\<forall>m\<in>set (termed acts). term_justified L env m"
proof -
  from assms(1) obtain acts where a: "fsActions fs' = fsActions fs @ acts"
      "acked acts = map ((!) (jobMsgs j)) as" "termed acts = map ((!) (jobMsgs j)) ts"
    and d: "distinct (as @ ts)" "set (as @ ts) \<subseteq> {..<length (jobMsgs j)}"
    and e: "\<forall>t\<in>set ts. evidence env j (length as) t"
    by (auto simp: flush_ok_def job_wf_length [OF assms(2)])
  have "mset (acked acts) + mset (termed acts) \<subseteq># mset (jobMsgs j)"
    using mset_positions [OF d] a by simp
  moreover have "term_justified L env (jobMsgs j ! t)" if "t \<in> set ts" for t
  proof -
    from that d(2) have "t < length (jobMsgs j)" by auto
    then have "jobEvents j ! t = event_of L (jobMsgs j ! t)" using assms(2) by (simp add: job_wf_def)
    with bspec [OF e that] show ?thesis by (auto simp: evidence_def term_justified_def)
  qed
  ultimately show ?thesis using a d(2) by (intro that [of acts]) auto
qed

lemma flush_acts:
  assumes "job_wf L j"
  obtains acts where "fsActions (flush env j fs) = fsActions fs @ acts"
    "mset (acked acts) + mset (termed acts) \<subseteq># mset (jobMsgs j)"
    "\<forall>m\<in>set (termed acts). term_justified L env m"
proof -
  obtain as ts where "flush_ok env j fs (flush env j fs) as ts"
    using flush_outcome [OF job_wf_length [OF assms]] .
  from flush_ok_acts [OF this assms] that show ?thesis by metis
qed

lemma acts_once_step:
  "sink_step L env st st' \<Longrightarrow> sink_wf L st \<Longrightarrow> acts_once L st \<Longrightarrow> acts_once L st'"
proof (induction rule: sink_step.induct)
  case (recv st now' now msg)
  then show ?case by (simp add: acts_once_def flushReady_frame receive_actions)
next
  case (tick st now)
  then show ?case by (simp add: acts_once_def flushReady_frame)
next
  case (finish st xs j ys)
  then have "job_wf L j" by (simp add: sink_wf_def)
  then obtain acts where "fsActions (flush env j (sinkFS st)) = fsActions (sinkFS st) @ acts"
    "mset (acked acts) + mset (termed acts) \<subseteq># mset (jobMsgs j)" by (rule flush_acts)
  with finish(3) show ?case
    by (simp add: acts_once_def worker_finish_def)
      (metis (no_types, lifting) add.assoc add.commute subset_mset.add_mono)
qed (simp_all add: acts_once_def send_job_def flushDone_signal_def)

lemma acts_once_reach: "sink_reach L env cfg w st \<Longrightarrow> acts_once L st"
proof (induction rule: sink_reach.induct)
  case (step st st')
  then show ?case using acts_once_step [OF step.hyps(2) sink_wf_reach [OF step.hyps(1)]] by simp
qed (simp add: sink_init_def acts_once_def)

lemma terms_ok_step:
  "sink_step L env st st' \<Longrightarrow> sink_wf L st \<Longrightarrow> terms_ok L env st \<Longrightarrow> terms_ok L env st'"
proof (induction rule: sink_step.induct)
  case (recv st now' now msg)
  then show ?case by (auto simp: terms_ok_def flushReady_frame receive_actions term_justified_def)
next
  case (tick st now)
  then show ?case by (simp add: terms_ok_def flushReady_frame)
next
  case (finish st xs j ys)
  then have "job_wf L j" by (simp add: sink_wf_def)
  then obtain acts where "fsActions (flush env j (sinkFS st)) = fsActions (sinkFS st) @ acts"
    "\<forall>m\<in>set (termed acts). term_justified L env m" by (rule flush_acts)
  with finish(3) show ?case by (auto simp: terms_ok_def worker_finish_def)
qed (simp_all add: terms_ok_def send_job_def flushDone_signal_def)

lemma terms_ok_reach: "sink_reach L env cfg w st \<Longrightarrow> terms_ok L env st"
proof (induction rule: sink_reach.induct)
  case (step st st')
  then show ?case using terms_ok_step [OF step.hyps(2) sink_wf_reach [OF step.hyps(1)]] by simp
qed (simp add: sink_init_def terms_ok_def)

section \<open>Acknowledged means committed\<close>

context bundle_writer
begin

definition acks_committed :: "ce_lib \<Rightarrow> 'w sink_st \<Rightarrow> bool" where
  "acks_committed L st \<longleftrightarrow> ok (fsW (sinkFS st)) \<and>
     mset (map (\<lambda>m. row_of (fsW (sinkFS st)) (event_of L m)) (acked (fsActions (sinkFS st))))
       \<subseteq># committed (fsW (sinkFS st))"

lemma acks_committed_finish:
  assumes "feWrite env = write_bundle" "job_wf L j" "acks_committed L st"
  shows "acks_committed L (worker_finish env j rest st)"
proof -
  let ?fs = "sinkFS st" and ?fs' = "flush env j (sinkFS st)"
  let ?row = "\<lambda>m. row_of (fsW ?fs) (event_of L m)"
  from assms(3) have "ok (fsW ?fs)" by (simp add: acks_committed_def)
  then obtain as ts where f: "flush_ok env j ?fs ?fs' as ts" "ok (fsW ?fs')"
    "row_of (fsW ?fs') = row_of (fsW ?fs)"
    "committed (fsW ?fs) + mset (map (\<lambda>i. row_of (fsW ?fs) (jobEvents j ! i)) as) \<subseteq># committed (fsW ?fs')"
    by (rule flush_commits [OF assms(1) job_wf_length [OF assms(2)]])
  from f(1) obtain acts where a: "fsActions ?fs' = fsActions ?fs @ acts"
    "acked acts = map ((!) (jobMsgs j)) as" "set as \<subseteq> {..<length (jobMsgs j)}"
    by (auto simp: flush_ok_def job_wf_length [OF assms(2)])
  have "map (\<lambda>i. row_of (fsW ?fs) (jobEvents j ! i)) as = map ?row (acked acts)"
    using a(2,3) assms(2) by (auto simp: job_wf_def)
  with f(4) have "committed (fsW ?fs) + mset (map ?row (acked acts)) \<subseteq># committed (fsW ?fs')" by simp
  moreover have "mset (map ?row (acked (fsActions ?fs))) \<subseteq># committed (fsW ?fs)"
    using assms(3) by (simp add: acks_committed_def)
  ultimately have "mset (map ?row (acked (fsActions ?fs))) + mset (map ?row (acked acts)) \<subseteq># committed (fsW ?fs')"
    by (meson subset_mset.add_right_mono subset_mset.order_trans)
  with a(1) f(2,3) show ?thesis by (simp add: acks_committed_def worker_finish_def)
qed

lemma acks_committed_step:
  "sink_step L env st st' \<Longrightarrow> feWrite env = write_bundle \<Longrightarrow> sink_wf L st \<Longrightarrow> acks_committed L st \<Longrightarrow>
     acks_committed L st'"
proof (induction rule: sink_step.induct)
  case (recv st now' now msg)
  then show ?case by (simp add: acks_committed_def flushReady_frame receive_actions)
next
  case (tick st now)
  then show ?case by (simp add: acks_committed_def flushReady_frame)
next
  case (finish st xs j ys)
  then have "job_wf L j" by (simp add: sink_wf_def)
  with finish show ?case by (intro acks_committed_finish)
qed (simp_all add: acks_committed_def send_job_def flushDone_signal_def)

lemma acks_committed_reach:
  "sink_reach L env cfg w st \<Longrightarrow> feWrite env = write_bundle \<Longrightarrow> ok w \<Longrightarrow> acks_committed L st"
proof (induction rule: sink_reach.induct)
  case (step st st')
  then show ?case using acks_committed_step [OF step.hyps(2) _ sink_wf_reach [OF step.hyps(1)]] by simp
qed (simp add: sink_init_def acks_committed_def)

end

end
