(* ===== verification/Instances.thy ===== *)
theory Instances
  imports Streams Handler Sink_Safety
begin

text \<open>
  Small concrete instances of the parameters of the development: a broker that stores what it
  is given, a database with one connection, a file system, a cipher, and libraries that know
  one event. They satisfy the hypotheses the theorems make about the code outside the
  repository and serve to evaluate the theorems on concrete inputs.
\<close>

section \<open>Events and libraries\<close>

definition hdr0 :: ce_header where
  "hdr0 = zero_header\<lparr>hSpecVersion := ''1.0'', hType := ''dimo.status'', hSource := ''0xA'',
     hSubject := ''did:7'', hID := ''e1'', hTime := 5000000, hProducer := ''did:7'',
     hDataContentType := ''application/json''\<rparr>"

definition raw0 :: raw_event where
  "raw0 = \<lparr>Header = hdr0, Data = ''{}'', DataBase64 = []\<rparr>"

definition ev0 :: stored_event where
  "ev0 = \<lparr>RawEvent = raw0, DataIndexKey = [], VoidsID = []\<rparr>"

definition did0 :: erc721_did where
  "did0 = \<lparr>ChainID = 137, ContractAddress = ''c'', TokenID = ''7''\<rparr>"

definition lib0 :: ce_lib where
  "lib0 = \<lparr>TypeStatus = ''dimo.status'', TypeFingerprint = ''dimo.fingerprint'',
     TypeEvents = ''dimo.events'', TypeSignals = ''dimo.signals'', TypeRawStatus = ''dimo.raw.status'',
     TypeAttestation = ''dimo.attestation'', TypeAttestationTombstone = ''dimo.tombstone'',
     HeaderKey = (\<lambda>h. hSubject h @ ''!'' @ hType h @ ''!'' @ hSource h @ ''!'' @ hID h),
     HeaderJSON = (\<lambda>h. Inr (hID h)),
     MarshalEvent = (\<lambda>ev. if ev = raw0 then Inr ''r0'' else Inl (errors_new ''json'')),
     UnmarshalEvent = (\<lambda>b. if b = ''r0'' then Inr raw0 else Inl (errors_new ''json'')),
     DecodeERC721DID = (\<lambda>s. if s = ''did:7'' then Inr did0 else Inl (errors_new ''did'')),
     DecodeLegacyNFTDID = (\<lambda>s. Inl (errors_new ''did'')),
     DecodeEthrDID = (\<lambda>s. Inl (errors_new ''did'')),
     ERC721String = (\<lambda>d. ''did:'' @ TokenID d),
     BytesForSignature = (\<lambda>ev. if DataBase64 ev \<noteq> [] then DataBase64 ev else Data ev),
     NonColumnExtras = (\<lambda>h. None), MarshalExtras = (\<lambda>x. Inr ''{}''),
     IsHexAddress = (\<lambda>s. s = ''0xA''), HexToAddress = (\<lambda>s. drop 2 s), AddressHex = (\<lambda>a. ''0x'' @ a),
     FormatHeader = hID, FormatTime = show_int\<rparr>"

lemma json_roundtrip_lib0: "json_roundtrip lib0"
  by (simp add: json_roundtrip_def lib0_def)

definition garage0 :: garage_lib where
  "garage0 = \<lparr>ConvertToCloudEvents = (\<lambda>src body. Inr ([hdr0], body)),
     ConvertToFingerprint = (\<lambda>src ev. Inr ''VIN''), IsValidVIN = (\<lambda>v. v = ''VIN''),
     IsValidJapanChassis = (\<lambda>v. False)\<rparr>"

definition eth0 :: eth_lib where
  "eth0 = \<lparr>GetAbi = Inr, ContractCall = (\<lambda>a parsed meth params. Inr [erc1271magicValue]), FromHex = (\<lambda>s. s), TextHash = (\<lambda>b. b), BytesToHash = (\<lambda>b. b),
     SigToPub = (\<lambda>h s. Inr ''A''), PubkeyToAddress = (\<lambda>pk. pk),
     UnmarshalTombstone = (\<lambda>b. Inr (''e1'', []))\<rparr>"

definition sha0 :: "bytes \<Rightarrow> bytes" where
  "sha0 b = take 32 (b @ replicate 32 (CHR 0x00))"

lemma length_sha0: "length (sha0 b) = 32"
  by (simp add: sha0_def)

section \<open>A broker\<close>

definition js0 :: "(string list, nats_msg) js_ops" where
  "js0 = \<lparr>PublishMsgAsync = (\<lambda>s m. (s, Inr m)),
          AwaitFuture = (\<lambda>s f. (header_get (msgHeader f) MsgIdHdr # s, AckOk))\<rparr>"

definition pub0 :: "(string list, nats_msg) publisher" where
  "pub0 = NewPublisher js0 4 [] lib0 sha0"

lemma js_durable_js0: "js_durable js0 set (\<lambda>f. f)"
  by (auto simp: js_durable_def js0_def)

lemma pub0_js [simp]: "pub_js pub0 = js0" "pub_lib pub0 = lib0" "pub_sha256 pub0 = sha0"
  "pub_partitions pub0 = 4" "pub_state pub0 = []"
  by (simp_all add: pub0_def NewPublisher_def)

definition admin0 :: "(string list, string) js_admin" where
  "admin0 = \<lparr>StreamNames = (\<lambda>s. (s, None)), CreateOrUpdateStream = (\<lambda>cfg s. (scName cfg # s, Inr (scName cfg)))\<rparr>"

section \<open>A database\<close>

record db0 =
  dbCommitted :: "row list"
  dbPend :: "row list"
  dbApp :: "row list"

definition exec0 :: "string \<Rightarrow> db0 \<Rightarrow> db0" where
  "exec0 q d = (if q = ''BEGIN'' then d\<lparr>dbPend := []\<rparr>
     else if q = ''COMMIT'' then d\<lparr>dbCommitted := dbCommitted d @ dbPend d, dbPend := []\<rparr>
     else d\<lparr>dbPend := []\<rparr>)"

definition duck0 :: "db0 duck_ops" where
  "duck0 = \<lparr>OpenConn = (\<lambda>d. (d, Inr 0)), CloseConn = (\<lambda>c d. (d, None)),
     ExecContext = (\<lambda>k q c d. (exec0 q d, None)), DriverIsDuckDB = (\<lambda>c. True),
     NewAppender = (\<lambda>t c d. (d\<lparr>dbApp := []\<rparr>, None)),
     AppendRow = (\<lambda>r c d. (d\<lparr>dbApp := dbApp d @ [r]\<rparr>, None)),
     CloseWithCancel = (\<lambda>c d. (d\<lparr>dbPend := dbPend d @ dbApp d, dbApp := []\<rparr>, None)),
     RetryWait = (\<lambda>t d. (d, None))\<rparr>"

abbreviation cm0 :: "db0 \<Rightarrow> row multiset" where "cm0 d \<equiv> mset (dbCommitted d)"

lemma duck_txn_duck0: "duck_txn duck0 cm0 (\<lambda>d c. dbPend d) (\<lambda>d c. dbApp d)"
  by (auto simp: duck_txn_def duck0_def exec0_def grows_def)

definition writer0 :: "db0 writer" where
  "writer0 = \<lparr>wTable = ''raw_events'', wConns = [0], wNext = 0,
     wDB = \<lparr>dbCommitted = [], dbPend = [], dbApp = []\<rparr>, wOps = duck0, wLib = lib0\<rparr>"

definition env0 :: "db0 writer flush_env" where
  "env0 = \<lparr>feWrite = WriteBundle, feCtxErr = (\<lambda>w. False), feNow = (\<lambda>w. 1), feWindow = 10 * minute\<rparr>"

lemma writer0_ok: "duck_txn (wOps writer0) cm0 (\<lambda>d c. dbPend d) (\<lambda>d c. dbApp d)"
  by (simp add: writer0_def duck_txn_duck0)

section \<open>A file system and a cipher\<close>

definition fresh_name :: "string \<Rightarrow> (string \<times> bytes) list \<Rightarrow> string" where
  "fresh_name d fs = d @ ''/'' @ tempPrefix @ replicate (sum_list (map (length \<circ> fst) fs)) (CHR ''0'')"

definition os0 :: "(string \<times> bytes) list os_ops" where
  "os0 = \<lparr>MkdirAll = (\<lambda>d s. (s, None)),
     CreateTemp = (\<lambda>d p s. ((fresh_name d s, []) # s, Inr (fresh_name d s))),
     WriteFile = (\<lambda>t b s. (AList.map_entry t (\<lambda>x. x @ b) s, None)),
     SyncFile = (\<lambda>t s. (s, None)), CloseFile = (\<lambda>t s. (s, None)), Chmod = (\<lambda>t s. (s, None)),
     RenameFile = (\<lambda>t u s. (case map_of s t of
         None \<Rightarrow> (s, Some (errors_new ''no such file''))
       | Some b \<Rightarrow> ((u, b) # AList.delete u (AList.delete t s), None))),
     RemoveFile = (\<lambda>t s. (AList.delete t s, None)), OpenDir = (\<lambda>d s. (s, None))\<rparr>"

lemma fresh_name_new: "map_of fs (fresh_name d fs) = None"
proof -
  have "length k \<le> sum_list (map (length \<circ> fst) fs)" if "k \<in> fst ` set fs" for k
    using that member_le_sum_list [of "length k" "map (length \<circ> fst) fs"] by force
  moreover have "sum_list (map (length \<circ> fst) fs) < length (fresh_name d fs)"
    by (simp add: fresh_name_def)
  ultimately have "fresh_name d fs \<notin> fst ` set fs" by fastforce
  then show ?thesis by (simp add: map_of_eq_None_iff)
qed

lemma is_temp_fresh: "is_temp (fresh_name d fs)"
  unfolding is_temp_def fresh_name_def by (intro exI conjI, rule refl) auto

lemma posix_os0: "posix_files os0 map_of"
  by (auto simp: posix_files_def os0_def quiet_def only_at_def fresh_name_new is_temp_fresh
      map_of_map_entry delete_conv fun_eq_iff split: option.splits)

definition fs0 :: "(string \<times> bytes) list fs_client" where
  "fs0 = \<lparr>fs_root = ''/data'', fs_ops = os0, fs_state = []\<rparr>"

definition aead0 :: aead where
  "aead0 = \<lparr>NonceSize = 12, aeadSeal = (\<lambda>n p d. d @ p),
     aeadOpen = (\<lambda>n ct d. if has_prefix ct d then Inr (drop (length d) ct) else Inl (errors_new ''auth''))\<rparr>"

definition rng0 :: "nat \<Rightarrow> unit \<Rightarrow> unit \<times> bytes result" where
  "rng0 n r = (r, Inr (replicate n (CHR ''n'')))"

lemma aead0_correct: "aead_correct aead0"
  by (auto simp: aead_correct_def aead0_def split: if_splits elim: has_prefixE)

lemma rng0_full: "rng_full rng0"
  by (simp add: rng_full_def rng0_def)

section \<open>A run of the sink\<close>

definition msg0 :: jmsg where
  "msg0 = \<lparr>jmSeq = 1, jmSubject = ''in.raw.dimo_status.did:7'',
     jmHeaders = build_header lib0 sha0 ev0, jmData = ''r0'', jmDelivered = Inr 1\<rparr>"

definition cfg0 :: sink_config where
  "cfg0 = \<lparr>MaxRowsPerFlush = 0, MaxBytesPerFlush = 0, MaxBufferedBytes = 0, PodSinks = 0,
     cfgMaxAge = 0, MinFlushBytes = 0, MaxAgeHard = 0, Workers = 0, FetchBatch = 0,
     DrainTimeout = 0, sinkName = [], FlushTimeout = 0, CommitFailureWindow = 0\<rparr>"

definition buf0 :: event_buffer where
  "buf0 = \<lparr>bufEvents = [ev0], bufMsgs = [msg0], bufBytes = 2, bufFootprint = 516, firstAt = 0\<rparr>"

lemma ParseMsg_msg0: "ParseMsg lib0 (jmHeaders msg0) (jmData msg0) = Inr ev0"
proof -
  have "ParseMsg lib0 (jmHeaders msg0) (jmData msg0) =
      Inr \<lparr>RawEvent = raw0, DataIndexKey = DataIndexKey ev0, VoidsID = VoidsID ev0\<rparr>"
    unfolding ParseMsg_def msg0_def jmsg.simps header_get_build_header by (simp add: lib0_def)
  then show ?thesis by (simp add: ev0_def)
qed

lemma add_msg0: "add_msg lib0 0 msg0 None = (Some buf0, [], 0)"
  unfolding add_msg_def ParseMsg_msg0
  by (simp add: buf0_def msg0_def bufferedFootprint_def bufferedMsgOverhead_def ev0_def raw0_def)

definition run1 :: "db0 writer sink_st" where
  "run1 = (sink_init cfg0 writer0)\<lparr>sinkBuffer := Some buf0, sinkReceived := [msg0], sinkPC := CheckPressure\<rparr>"

definition run5 :: "db0 writer sink_st" where
  "run5 = run1\<lparr>sinkBuffer := None, sinkRunning := [job_of buf0], sinkInflight := 516, sinkPC := Closed\<rparr>"

lemma applyDefaults_cfg0:
  "MaxRowsPerFlush (applyDefaults cfg0) = 100000" "MaxBytesPerFlush (applyDefaults cfg0) = 134217728"
  "MaxBufferedBytes (applyDefaults cfg0) = 536870912" "Workers (applyDefaults cfg0) = 2"
  "MaxAgeHard (applyDefaults cfg0) = 300000000000" "MinFlushBytes (applyDefaults cfg0) = 16777216"
  by (simp_all add: applyDefaults_def cfg0_def or_default_def default_ceiling_def wrap64_def
      DefaultMaxAgeHard_def duration_defs)

lemma reach_run1: "sink_reach lib0 env cfg0 writer0 run1"
proof -
  have r: "receive lib0 0 msg0 (sink_init cfg0 writer0) =
      (sink_init cfg0 writer0)\<lparr>sinkBuffer := Some buf0, sinkReceived := [msg0]\<rparr>"
    by (simp add: receive_def sink_init_def add_msg0 record_actions_def)
  have "\<not> flush_due (applyDefaults cfg0) False 0 (Some buf0)"
    by (simp add: flush_due_def buf0_def applyDefaults_cfg0 time_sub_def)
  then have "flushReady 0 ToCheck (receive lib0 0 msg0 (sink_init cfg0 writer0)) = run1"
    unfolding r by (simp add: flushReady_def run1_def sink_init_def)
  moreover have "sink_step lib0 env (sink_init cfg0 writer0)
      (flushReady 0 ToCheck (receive lib0 0 msg0 (sink_init cfg0 writer0)))"
    by (rule sink_step.recv) (simp add: sink_init_def)
  ultimately show ?thesis using sink_reach.step [OF sink_reach.start] by metis
qed

lemma reach_run5: "sink_reach lib0 env cfg0 writer0 run5"
proof -
  let ?r2 = "run1\<lparr>sinkPC := AtSelect\<rparr>" and ?r3 = "run1\<lparr>sinkPC := Draining\<rparr>"
  let ?r4 = "run1\<lparr>sinkBuffer := None, sinkJobs := [job_of buf0], sinkPC := Accounting 516 ToStop\<rparr>"
  let ?r4b = "run1\<lparr>sinkBuffer := None, sinkJobs := [job_of buf0], sinkInflight := 516, sinkPC := Closed\<rparr>"
  have b: "bufFootprint buf0 = 516" "bufEvents buf0 = [ev0]" by (simp_all add: buf0_def)
  have "sink_step lib0 env run1 ?r2"
    by (rule sink_step.pass) (simp_all add: run1_def sink_init_def applyDefaults_cfg0 buffer_footprint_def b)
  moreover have "sink_step lib0 env ?r2 ?r3"
    using sink_step.closed [of ?r2 lib0 env] by simp
  moreover have "sink_step lib0 env ?r3 (send_job buf0 ToStop ?r3)"
    by (rule sink_step.drain_send) (simp_all add: run1_def sink_init_def jobs_cap_def applyDefaults_cfg0 b)
  moreover have "send_job buf0 ToStop ?r3 = ?r4"
    by (simp add: send_job_def b run1_def sink_init_def)
  moreover have "sink_step lib0 env ?r4 ?r4b"
    using sink_step.account [of ?r4 516 ToStop lib0 env] by (simp add: run1_def sink_init_def)
  moreover have "sink_step lib0 env ?r4b run5"
    using sink_step.take [of ?r4b "job_of buf0" "[]" lib0 env]
    by (simp add: run1_def run5_def sink_init_def applyDefaults_cfg0)
  ultimately show ?thesis using reach_run1 sink_reach.step by metis
qed

definition run6 :: "db0 writer sink_st" where
  "run6 = worker_finish env0 (job_of buf0) [] run5"

lemma reach_run6: "sink_reach lib0 env0 cfg0 writer0 run6"
proof -
  have "sink_step lib0 env0 run5 run6"
    using sink_step.finish [of run5 "[]" "job_of buf0" "[]" lib0 env0]
    by (simp add: run5_def run6_def)
  then show ?thesis using reach_run5 sink_reach.step by metis
qed

lemma fillRowArgs_ev0: "\<exists>r. fillRowArgs lib0 ev0 = Inr r"
  by (simp add: fillRowArgs_def extras_value_def lib0_def Let_def)

lemma write0: "\<exists>w'. WriteBundle [ev0] writer0 = (w', None)"
proof -
  obtain r where r: "fillRowArgs lib0 ev0 = Inr r" using fillRowArgs_ev0 ..
  have "wLib writer0 = lib0" "wOps writer0 = duck0" "wConns writer0 = [0]" by (simp_all add: writer0_def)
  then show ?thesis
    by (simp add: WriteBundle_def retryCatalogIf_def retry_loop.simps writeBundleOnce_def appendAll_def
        duck0_def r)
qed

lemma run6_acked: "acked (fsActions (sinkFS run6)) = [msg0]"
proof -
  obtain w' where w: "WriteBundle [ev0] writer0 = (w', None)" using write0 ..
  have j: "jobEvents (job_of buf0) = [ev0]" "jobMsgs (job_of buf0) = [msg0]"
    by (simp_all add: job_of_def buf0_def)
  have fs: "fsW (sinkFS run5) = writer0" "fsActions (sinkFS run5) = []"
    by (simp_all add: run5_def run1_def sink_init_def)
  have "feWrite env0 = WriteBundle" by (simp add: env0_def)
  with w j fs have "fsActions (flush env0 (job_of buf0) (sinkFS run5)) = [AckMsg msg0]"
    by (simp add: flush_def ackAll_def)
  then show ?thesis by (simp add: run6_def worker_finish_def)
qed

text \<open>A sink with a ceiling of one byte waits after its first message.\<close>

definition cfg1 :: sink_config where
  "cfg1 = cfg0\<lparr>MaxBufferedBytes := 1\<rparr>"

definition wait1 :: "db0 writer sink_st" where
  "wait1 = (sink_init cfg1 writer0)\<lparr>sinkReceived := [msg0], sinkJobs := [job_of buf0],
     sinkInflight := 516, sinkPC := WaitFlushed\<rparr>"

lemma applyDefaults_cfg1:
  "MaxRowsPerFlush (applyDefaults cfg1) = 100000" "MaxBytesPerFlush (applyDefaults cfg1) = 134217728"
  "MaxBufferedBytes (applyDefaults cfg1) = 1" "Workers (applyDefaults cfg1) = 2"
  "MaxAgeHard (applyDefaults cfg1) = 300000000000" "MinFlushBytes (applyDefaults cfg1) = 16777216"
  by (simp_all add: applyDefaults_def cfg1_def cfg0_def or_default_def DefaultMaxAgeHard_def duration_defs)

lemma reach_wait1: "sink_reach lib0 env cfg1 writer0 wait1"
proof -
  let ?i = "sink_init cfg1 writer0"
  let ?r1 = "?i\<lparr>sinkBuffer := Some buf0, sinkReceived := [msg0], sinkPC := CheckPressure\<rparr>"
  let ?r2 = "?i\<lparr>sinkReceived := [msg0], sinkJobs := [job_of buf0], sinkPC := Accounting 516 ToWait\<rparr>"
  have r: "receive lib0 0 msg0 ?i = ?i\<lparr>sinkBuffer := Some buf0, sinkReceived := [msg0]\<rparr>"
    by (simp add: receive_def sink_init_def add_msg0 record_actions_def)
  have "\<not> flush_due (applyDefaults cfg1) False 0 (Some buf0)"
    by (simp add: flush_due_def buf0_def applyDefaults_cfg1 time_sub_def)
  then have "flushReady 0 ToCheck (receive lib0 0 msg0 ?i) = ?r1"
    unfolding r by (simp add: flushReady_def sink_init_def)
  moreover have "sink_step lib0 env ?i (flushReady 0 ToCheck (receive lib0 0 msg0 ?i))"
    by (rule sink_step.recv) (simp add: sink_init_def)
  ultimately have "sink_reach lib0 env cfg1 writer0 ?r1"
    using sink_reach.step [OF sink_reach.start] by metis
  moreover have b: "bufFootprint buf0 = 516" by (simp add: buf0_def)
  have "sink_step lib0 env ?r1 (try_enqueue ToWait ?r1)"
    by (rule sink_step.over) (simp_all add: sink_init_def applyDefaults_cfg1 buffer_footprint_def b)
  moreover have "try_enqueue ToWait ?r1 = ?r2"
    by (simp add: try_enqueue_def send_job_def sink_init_def jobs_cap_def applyDefaults_cfg1 b)
  moreover have "sink_step lib0 env ?r2 wait1"
    using sink_step.account [of ?r2 516 ToWait lib0 env] by (simp add: wait1_def sink_init_def)
  ultimately show ?thesis using sink_reach.step by metis
qed

text \<open>A message that cannot be decoded.\<close>

definition msg_bad :: jmsg where
  "msg_bad = msg0\<lparr>jmData := ''??''\<rparr>"

lemma reach_bad:
  "\<exists>st. sink_reach lib0 env cfg0 writer0 st \<and> termed (fsActions (sinkFS st)) = [msg_bad]"
proof -
  let ?i = "sink_init cfg0 writer0" and ?st = "flushReady 0 ToCheck (receive lib0 0 msg_bad (sink_init cfg0 writer0))"
  have "sink_step lib0 env ?i ?st" by (rule sink_step.recv) (simp add: sink_init_def)
  then have "sink_reach lib0 env cfg0 writer0 ?st" using sink_reach.start sink_reach.step by metis
  moreover have "\<not> decodable lib0 msg_bad"
    by (simp add: decodable_def msg_event_def ParseMsg_def msg_bad_def lib0_def)
  then have "termed (fsActions (sinkFS ?st)) = [msg_bad]"
    by (simp add: flushReady_frame receive_actions sink_init_def)
  ultimately show ?thesis by blast
qed

section \<open>A healthy writer with unpersistable rows\<close>

definition bad0 :: "stored_event \<Rightarrow> bool" where
  "bad0 ev \<longleftrightarrow> VoidsID ev = ''bad''"

definition penv0 :: "unit flush_env" where
  "penv0 = \<lparr>feWrite = (\<lambda>evs w. (w, if list_ex bad0 evs then Some (sentinel_error ErrPoisonRow) else None)),
            feCtxErr = (\<lambda>w. False), feNow = (\<lambda>w. 1), feWindow = 10 * minute\<rparr>"

lemma poison_writer_penv0: "poison_writer penv0 bad0"
  by (auto simp: poison_writer_def penv0_def list_ex_iff)

definition pjob0 :: "nat \<Rightarrow> nat \<Rightarrow> flush_job" where
  "pjob0 n i = \<lparr>jobEvents = (replicate n ev0)[i := ev0\<lparr>VoidsID := ''bad''\<rparr>],
     jobMsgs = map (\<lambda>k. msg0\<lparr>jmSeq := k\<rparr>) [0..<n], jobBytes = 0, jobFootprint = 0\<rparr>"

lemma pjob0_length: "length (jobMsgs (pjob0 n i)) = length (jobEvents (pjob0 n i))"
  "length (jobEvents (pjob0 n i)) = n"
  by (simp_all add: pjob0_def)

definition pst0 :: "unit flush_st" where
  "pst0 = \<lparr>fsW = (), commitFailFirst = 0, fsFatal = None, fsActions = [], commitsTotal = 0,
     commitFailuresTotal = 0, poisonRows = 0, isoCommitted = 0, isoAttempts = 0\<rparr>"

section \<open>Requests\<close>

text \<open>The request of the example: one status event, small enough to stay inline.\<close>

definition sp0 :: "(string \<times> bytes) list fs_client splitter" where
  "sp0 = New PutObject [] 0"

definition hst0 ::
  "(converter, (string \<times> bytes) list fs_client split_env, (string list, nats_msg) publisher) hstate" where
  "hst0 = \<lparr>hsConv = NewConverter,
     hsStore = \<lparr>seNow = (\<lambda>n. 0), seUUID = show_nat, seCalls = 0, seStore = fs0\<rparr>, hsPub = pub0\<rparr>"

definition req0 :: http_request where
  "req0 = \<lparr>reqSource = Some ''0xA'', reqBody = Inr ''{}''\<rparr>"

abbreviation h0 ::
  "(converter, (string \<times> bytes) list fs_client split_env, (string list, nats_msg) publisher) handlers" where
  "h0 \<equiv> din_handlers lib0 garage0 eth0 minute 5000000 ''k1'' sp0 True"

lemma Convert_req0:
  "Convert lib0 garage0 minute 5000000 ''k1'' ''0xA'' ''{}'' NewConverter = (NewConverter, Inr [raw0])"
proof -
  have "ValidIdentifier ''e1''" "ValidIdentifier ''1.0''" "ValidIdentifier ''application/json''"
    "ValidIdentifier ''dimo.status''" "ValidIdentifier ''did:7''"
    by (simp_all add: ValidIdentifier_def identifier_byte_def)
  then have "check_identifiers hdr0 = None"
    by (simp add: check_identifiers_def hdr0_def zero_header_def)
  moreover have "set_defaults hdr0 ''0xA'' ''k1'' 5000000 = hdr0"
    by (simp add: set_defaults_def hdr0_def zero_header_def)
  moreover have "validateAndSetContentType hdr0 False = Inr hdr0"
    by (simp add: validateAndSetContentType_def hdr0_def zero_header_def allowedContentTypes_def)
  ultimately have "ValidateHeadersAndSetDefaults lib0 5000000 hdr0 ''0xA'' ''k1'' False = Inr hdr0"
    by (simp add: ValidateHeadersAndSetDefaults_def lib0_def hdr0_def zero_header_def MaxHeaderBytes_def)
  moreover have "isValidConnectionType lib0 hdr0"
    by (simp add: isValidConnectionType_def lib0_def hdr0_def)
  moreover have "canonicalizeConnectionHeader lib0 hdr0 = Some hdr0"
    by (simp add: canonicalizeConnectionHeader_def canonicalizeDID_def lib0_def hdr0_def zero_header_def did0_def)
  moreover have "\<not> IsFutureTimestamp minute 5000000 (hTime hdr0)"
    by (simp add: IsFutureTimestamp_def hdr0_def duration_defs)
  ultimately show ?thesis by (simp add: Convert_def garage0_def raw0_def)
qed

lemma MaybeSplit_raw0: "MaybeSplit sp0 now uuid raw0 s = (s, Inr ev0)"
  by (simp add: MaybeSplit_def sp0_def New_def DefaultThreshold_def dataPayloadLen_def raw0_def ev0_def
      inline_event_def)

lemma publish_ev0:
  "\<exists>p'. Publish ev0 pub0 = (p', None)"
proof -
  have "\<exists>s. Subject (ev_header ev0) 4 = Some s"
    using Partition_bound [of 4 "hSubject (ev_header ev0)"] by (auto simp: Subject_def)
  moreover have "MarshalEvent lib0 (RawEvent ev0) = Inr ''r0''" by (simp add: lib0_def ev0_def)
  ultimately show ?thesis
    by (auto simp: Publish_def submitAsync_def awaitAck_def js0_def ack_error_def)
qed

lemma Connection_req0: "\<exists>st'. Connection h0 req0 hst0 = (st', Some status_ok)"
proof -
  have "Validate lib0 garage0 raw0 = None"
    by (simp add: Validate_def lib0_def raw0_def hdr0_def)
  then have "collect h0 [raw0] None None [] (hsStore hst0) =
      ((hsStore hst0)\<lparr>seCalls := 1\<rparr>, None, None, [ev0])"
    by (simp add: din_handlers_def split_def env_MaybeSplit_def MaybeSplit_raw0 hst0_def)
      (simp add: ev0_def)
  moreover obtain p' where "Publish ev0 pub0 = (p', None)" using publish_ev0 ..
  ultimately show ?thesis
    using Convert_req0
    by (simp add: Connection_def req0_def din_handlers_def hst0_def PublishBatch_def)
qed

text \<open>The same libraries with an attestation, signed by a contract.\<close>

definition hdr1 :: ce_header where
  "hdr1 = hdr0\<lparr>hType := ''dimo.attestation''\<rparr>"

definition raw1 :: raw_event where
  "raw1 = raw0\<lparr>Header := hdr1\<rparr>"

definition lib1 :: ce_lib where
  "lib1 = lib0\<lparr>UnmarshalEvent := (\<lambda>b. Inr raw1), MarshalEvent := (\<lambda>ev. Inr ''r1'')\<rparr>"

definition pub1 :: "(string list, nats_msg) publisher" where
  "pub1 = NewPublisher js0 4 [] lib1 sha0"

definition hst1 ::
  "(converter, (string \<times> bytes) list fs_client split_env, (string list, nats_msg) publisher) hstate" where
  "hst1 = hst0\<lparr>hsPub := pub1\<rparr>"

abbreviation h1 ::
  "(converter, (string \<times> bytes) list fs_client split_env, (string list, nats_msg) publisher) handlers" where
  "h1 \<equiv> din_handlers lib1 garage0 eth0 minute 5000000 ''k1'' sp0 True"

lemma HexToAddress_lib1: "HexToAddress lib1 ''0xA'' = ''A''" "AddressHex lib1 ''A'' = ''0xA''"
  by (simp_all add: lib1_def lib0_def)

lemma hSource_hdr1: "hSource hdr1 = ''0xA''" "Header raw1 = hdr1"
  by (simp_all add: hdr1_def hdr0_def raw1_def)

lemma valid_hdr1: "ValidateHeadersAndSetDefaults lib1 5000000 hdr1 ''0xA'' ''k1'' False = Inr hdr1"
proof -
  have "ValidIdentifier ''e1''" "ValidIdentifier ''1.0''" "ValidIdentifier ''application/json''"
    "ValidIdentifier ''dimo.attestation''" "ValidIdentifier ''did:7''"
    by (simp_all add: ValidIdentifier_def identifier_byte_def)
  then have "check_identifiers hdr1 = None"
    by (simp add: check_identifiers_def hdr1_def hdr0_def zero_header_def)
  moreover have "set_defaults hdr1 ''0xA'' ''k1'' 5000000 = hdr1"
    by (simp add: set_defaults_def hdr1_def hdr0_def zero_header_def)
  moreover have "validateAndSetContentType hdr1 False = Inr hdr1"
    by (simp add: validateAndSetContentType_def hdr1_def hdr0_def zero_header_def allowedContentTypes_def)
  ultimately show ?thesis
    by (simp add: ValidateHeadersAndSetDefaults_def lib1_def lib0_def hdr1_def hdr0_def zero_header_def MaxHeaderBytes_def)
qed

lemma Parse_req0:
  "Parse lib1 eth0 minute 5000000 ''k1'' ''A'' body = Inr \<lparr>attEvent = raw1, attVoidsID = []\<rparr>"
proof -
  have u: "UnmarshalEvent lib1 body = Inr raw1" "DataBase64 raw1 = []"
    by (simp_all add: lib1_def raw1_def raw0_def)
  have s: "canonical_subject lib1 (hSubject hdr1) = Inr ''did:7''" "hdr1\<lparr>hSubject := ''did:7''\<rparr> = hdr1"
    by (simp_all add: canonical_subject_def lib1_def lib0_def hdr1_def hdr0_def did0_def)
  have a: "IsHexAddress lib1 ''0xA''" "hType hdr1 = ''dimo.attestation''"
    "isValidAttestationType lib1 ''dimo.attestation''" "TypeAttestationTombstone lib1 = ''dimo.tombstone''"
    by (simp_all add: lib1_def lib0_def hdr1_def isValidAttestationType_def)
  have t: "\<not> IsFutureTimestamp minute 5000000 (hTime hdr1)"
    by (simp add: IsFutureTimestamp_def hdr1_def hdr0_def duration_defs)
  have v: "parseAndValidateAttestation lib1 minute 5000000 ''k1'' body ''0xA'' = Inr raw1"
    by (simp add: parseAndValidateAttestation_def u t s hSource_hdr1 a HexToAddress_lib1 valid_hdr1)
  have "verifySignature lib1 eth0 raw1 ''A'' = Inr True"
    by (simp add: verifySignature_True_iff signed_by_contract_def eth0_def)
  with v a show ?thesis by (simp add: Parse_def HexToAddress_lib1 hSource_hdr1)
qed

lemma Attestation_req0: "\<exists>st'. Attestation h1 req0 hst1 = (st', Some status_ok)"
proof -
  have d: "dataPayloadLen raw1 = 2" by (simp add: dataPayloadLen_def raw1_def raw0_def)
  have "split h1 raw1 [] (hsStore hst1) =
      ((hsStore hst1)\<lparr>seCalls := 1\<rparr>, Inr (inline_event raw1))"
    by (simp add: split_def din_handlers_def env_MaybeSplit_def MaybeSplit_def d sp0_def New_def
        DefaultThreshold_def hst1_def hst0_def inline_event_def)
  moreover have "\<exists>p'. Publish (inline_event raw1) pub1 = (p', None)"
  proof -
    have "\<exists>s. Subject (ev_header (inline_event raw1)) 4 = Some s"
      using Partition_bound [of 4 "hSubject (ev_header (inline_event raw1))"] by (auto simp: Subject_def)
    then show ?thesis
      by (auto simp: Publish_def submitAsync_def awaitAck_def js0_def ack_error_def pub1_def
          NewPublisher_def lib1_def)
  qed
  ultimately show ?thesis
    using Parse_req0 [of "''{}''"]
    by (auto simp: Attestation_def req0_def din_handlers_def publishOne_def hst1_def HexToAddress_lib1)
qed

lemma Marshal_raw1: "MarshalEvent lib0 raw1 = Inl (errors_new ''json'')" "hID (Header raw1) = ''e1''"
proof -
  have "hType (Header raw1) \<noteq> hType (Header raw0)" by (simp add: raw1_def raw0_def hdr1_def hdr0_def)
  then have "raw1 \<noteq> raw0" by metis
  then show "MarshalEvent lib0 raw1 = Inl (errors_new ''json'')" by (simp add: lib0_def)
  show "hID (Header raw1) = ''e1''" by (simp add: raw1_def hdr1_def hdr0_def)
qed

lemma put_fs0: "\<exists>c'. PutObject k b fs0 = (c', None)"
  by (simp add: PutObject_def fs0_def os0_def put_steps_def map_of_map_entry Let_def)

lemma wrap_ok_fs0: "wrap_ok (Some aead0) rng0 (\<lambda>s. posix_files (fs_ops s) map_of) ((), fs0)"
  by (simp add: wrap_ok_def aead0_correct rng0_full fs0_def posix_os0)

lemma split_raw0_external:
  "\<exists>s' sev. MaybeSplit (New (WrapStore (Some aead0) rng0 PutObject) ''p/'' 1) 0 ''u'' raw0 ((), fs0) = (s', Inr sev)
     \<and> DataIndexKey sev \<noteq> []"
proof -
  let ?key = "buildBlobKey ''p/'' (hSubject (Header raw0)) 0 ''u''"
  obtain blob where s: "Seal aead0 rng0 ?key ''{}'' () = ((), Inr blob)" by (simp add: Seal_def rng0_def)
  obtain c' where p: "PutObject ?key blob fs0 = (c', None)" using put_fs0 ..
  have d: "dataPayloadLen raw0 = 2" "decodePayload raw0 = Inr ''{}''"
    by (simp_all add: dataPayloadLen_def decodePayload_def raw0_def)
  show ?thesis
    by (simp add: MaybeSplit_def New_def WrapStore_def enc_PutObject_def d s p Let_def buildBlobKey_nonempty)
qed

end
