(* ===== verification/Lake_Exact.thy ===== *)
theory Lake_Exact
  imports Lake_Writer
begin

text \<open>
  What a bundle write adds to the lake, exactly: whole copies of the bundle, one for a success and none for a failure, if
  DuckDB's commits are as definite as their answers. \<^verbatim>\<open>WriteBundle\<close> meets the exact contract of the sink's writer.
\<close>

section \<open>Exactly what a write adds\<close>

text \<open>The same promises to the letter: nothing but a commit changes the committed rows, and a commit publishes the rows of its
  transaction. A commit that reports an error has not, unless its outcome is \<open>unsure\<close>, as
  when the connection to the catalog breaks before the answer.\<close>

definition keeps_rows :: "('d \<Rightarrow> 'r multiset) \<Rightarrow> ('d \<Rightarrow> 'd \<times> 'x) \<Rightarrow> bool" where
  "keeps_rows committed f \<longleftrightarrow> (\<forall>d. committed (fst (f d)) = committed d)"

definition duck_exact ::
  "bool \<Rightarrow> 'd duck_ops \<Rightarrow> ('d \<Rightarrow> row multiset) \<Rightarrow> ('d \<Rightarrow> nat \<Rightarrow> row list) \<Rightarrow> ('d \<Rightarrow> nat \<Rightarrow> row list) \<Rightarrow> bool" where
  "duck_exact unsure ops committed pend app \<longleftrightarrow>
     (\<forall>k q c. q \<noteq> ''COMMIT'' \<longrightarrow> keeps_rows committed (ExecContext ops k q c)) \<and>
     (\<forall>t c. keeps_rows committed (NewAppender ops t c)) \<and>
     (\<forall>r c. keeps_rows committed (AppendRow ops r c)) \<and>
     (\<forall>c. keeps_rows committed (CloseWithCancel ops c)) \<and>
     (\<forall>t. keeps_rows committed (RetryWait ops t)) \<and>
     (\<forall>k c d d'. ExecContext ops k ''BEGIN'' c d = (d', None) \<longrightarrow> pend d' c = []) \<and>
     (\<forall>t c d d'. NewAppender ops t c d = (d', None) \<longrightarrow> app d' c = [] \<and> pend d' c = pend d c) \<and>
     (\<forall>r c d d'. AppendRow ops r c d = (d', None) \<longrightarrow> app d' c = app d c @ [r] \<and> pend d' c = pend d c) \<and>
     (\<forall>c d d'. CloseWithCancel ops c d = (d', None) \<longrightarrow> pend d' c = pend d c @ app d c) \<and>
     (\<forall>k c d d' r. ExecContext ops k ''COMMIT'' c d = (d', r) \<longrightarrow>
        committed d' = committed d + mset (pend d c) \<or> r \<noteq> None \<and> committed d' = committed d) \<and>
     (\<forall>k c d d' e. ExecContext ops k ''COMMIT'' c d = (d', Some e) \<longrightarrow> \<not> unsure \<longrightarrow> committed d' = committed d)"

lemma keeps_rowsD: "keeps_rows cm f \<Longrightarrow> f d = (d', r) \<Longrightarrow> cm d' = cm d"
  by (metis fst_conv keeps_rows_def)

lemma keeps_rows_grows: "keeps_rows cm f \<Longrightarrow> grows cm f"
  by (simp add: keeps_rows_def grows_def)

lemma duck_keeps:
  assumes "duck_exact unsure ops cm pend app"
  shows "q \<noteq> ''COMMIT'' \<Longrightarrow> ExecContext ops k q c d = (d', x) \<Longrightarrow> cm d' = cm d"
    and "NewAppender ops t c d = (d', x) \<Longrightarrow> cm d' = cm d"
    and "AppendRow ops r c d = (d', x) \<Longrightarrow> cm d' = cm d"
    and "CloseWithCancel ops c d = (d', x) \<Longrightarrow> cm d' = cm d"
    and "RetryWait ops w d = (d', x) \<Longrightarrow> cm d' = cm d"
  using assms unfolding duck_exact_def by (metis keeps_rowsD)+

lemma duck_commit:
  assumes "duck_exact unsure ops cm pend app" "ExecContext ops k ''COMMIT'' c d = (d', r)"
  shows "cm d' = cm d + mset (pend d c) \<or> r \<noteq> None \<and> cm d' = cm d"
    and "r \<noteq> None \<Longrightarrow> \<not> unsure \<Longrightarrow> cm d' = cm d"
  using assms unfolding duck_exact_def by blast+

lemma duck_exact_txn:
  assumes "duck_exact unsure ops cm pend app"
  shows "duck_txn ops cm pend app"
proof -
  have "cm d \<subseteq># cm d'" if "ExecContext ops k q c d = (d', r)" for k q c d d' r
    using that duck_keeps(1) [OF assms _ that] duck_commit(1) [OF assms, of k c d d' r] by (cases "q = ''COMMIT''") auto
  then have "grows cm (ExecContext ops k q c)" for k q c unfolding grows_def by (metis prod.collapse)
  moreover have "cm d + mset (pend d c) \<subseteq># cm d'" if "ExecContext ops k ''COMMIT'' c d = (d', None)" for k c d d'
    using duck_commit(1) [OF assms that] by simp
  ultimately show ?thesis using assms unfolding duck_txn_def duck_exact_def by (simp add: keeps_rows_grows)
qed

lemma append_rows_keeps:
  assumes D: "duck_exact unsure ops cm pend app"
  shows "append_rows ops L c i evs d = (d', r) \<Longrightarrow> cm d' = cm d"
proof (induction evs arbitrary: i d)
  case (Cons ev evs)
  have close: "cm (fst (CloseWithCancel ops c x)) = cm x" for x
    using duck_keeps(4) [OF D] by (metis prod.collapse)
  show ?case
  proof (cases "fillRowArgs L ev")
    case (Inr args)
    obtain d1 r1 where a: "AppendRow ops args c d = (d1, r1)" by (cases "AppendRow ops args c d")
    with Cons.prems Inr close Cons.IH [of "Suc i" d1] duck_keeps(3) [OF D a] show ?thesis by (cases r1) auto
  qed (use Cons.prems close in auto)
qed simp

lemma appendAll_keeps:
  assumes D: "duck_exact unsure ops cm pend app" and "appendAll ops L c t evs d = (d', r)"
  shows "cm d' = cm d"
  using assms(2) unfolding appendAll_def
  by (auto split: if_splits prod.splits option.splits dest!: duck_keeps(2,4) [OF D] append_rows_keeps [OF D])

lemma writeBundleOnce_exact:
  assumes D: "duck_exact unsure ops cm pend app" and w: "writeBundleOnce ops L c t evs d = (d', r)"
  shows "(cm d' = cm d + mset (map (event_row L) evs) \<or> r \<noteq> None \<and> cm d' = cm d) \<and> (r \<noteq> None \<longrightarrow> \<not> unsure \<longrightarrow> cm d' = cm d)"
proof -
  note T = duck_exact_txn [OF D]
  have "keeps_rows cm (ExecContext ops WithoutCancel ''ROLLBACK'' c)" using D [unfolded duck_exact_def, THEN conjunct1] by simp
  then have rb: "cm (fst (ExecContext ops WithoutCancel ''ROLLBACK'' c x)) = cm x" for x by (simp add: keeps_rows_def)
  obtain d1 r1 where b: "ExecContext ops RequestCtx ''BEGIN'' c d = (d1, r1)" by (cases "ExecContext ops RequestCtx ''BEGIN'' c d")
  have c1: "cm d1 = cm d" using duck_keeps(1) [OF D _ b] by simp
  obtain d2 r2 where a: "appendAll ops L c t evs d1 = (d2, r2)" by (cases "appendAll ops L c t evs d1")
  have c2: "cm d2 = cm d" using appendAll_keeps [OF D a] c1 by simp
  obtain d3 r3 where m: "ExecContext ops RequestCtx ''COMMIT'' c d2 = (d3, r3)" by (cases "ExecContext ops RequestCtx ''COMMIT'' c d2")
  show ?thesis
  proof (cases "r1 = None \<and> r2 = None")
    case True
    then have "pend d2 c = map (event_row L) evs"
      using duck_steps(1) [OF T] appendAll_success [OF T] a b by fastforce
    with True duck_commit [OF D m] w a b m c2 rb show ?thesis
      by (cases r3) (auto simp: writeBundleOnce_def)
  next
    case False
    with w a b c1 c2 rb [of d2] show ?thesis by (cases r1; cases r2) (auto simp: writeBundleOnce_def split: prod.splits option.splits)
  qed
qed

text \<open>The retries add up.\<close>

definition adds_copies :: "bool \<Rightarrow> ('d \<Rightarrow> 'r multiset) \<Rightarrow> 'r multiset \<Rightarrow> 'd \<Rightarrow> 'd \<Rightarrow> 'e option \<Rightarrow> bool" where
  "adds_copies unsure cm M d d' r \<longleftrightarrow>
     (\<exists>k. cm d' = cm d + repeat_mset k M \<and> (r = None \<longrightarrow> 0 < k) \<and> (\<not> unsure \<longrightarrow> k = (if r = None then 1 else 0)))"

lemma adds_copies_trans:
  assumes "adds_copies unsure cm M d d1 (Some e)" "cm d2 = cm d1" "adds_copies unsure cm M d2 d3 r"
  shows "adds_copies unsure cm M d d3 r"
proof -
  from assms(1) obtain k where "cm d1 = cm d + repeat_mset k M" "\<not> unsure \<longrightarrow> k = 0" by (auto simp: adds_copies_def)
  moreover from assms(3) obtain n where "cm d3 = cm d2 + repeat_mset n M" "r = None \<longrightarrow> 0 < n" "\<not> unsure \<longrightarrow> n = (if r = None then 1 else 0)"
    by (auto simp: adds_copies_def)
  ultimately show ?thesis using assms(2) by (auto simp: adds_copies_def repeat_mset_distrib add.assoc intro!: exI [of _ "k + n"])
qed

lemma retry_loop_adds:
  assumes fn: "\<And>d d' r. fn d = (d', r) \<Longrightarrow> adds_copies unsure cm M d d' r"
    and wait: "\<And>t d d' r. wait t d = (d', r) \<Longrightarrow> cm d' = cm d"
  shows "retry_loop a wait fn sr d = (d', r) \<Longrightarrow> adds_copies unsure cm M d d' r"
proof (induction "3 - a" arbitrary: a d rule: less_induct)
  case less
  obtain d1 r1 where f: "fn d = (d1, r1)" by (cases "fn d")
  show ?case
  proof (cases "\<exists>e. r1 = Some e \<and> sr e \<and> a + 1 < 3")
    case False
    with less.prems f fn [OF f] show ?thesis by (auto simp: retry_loop.simps [of a] split: option.splits if_splits)
  next
    case True
    then obtain e where e: "r1 = Some e" "sr e" "a + 1 < 3" by blast
    obtain d2 r2 where w: "wait (int (a + 1) * 500 * millisecond) d1 = (d2, r2)" by (cases "wait (int (a + 1) * 500 * millisecond) d1")
    note s = fn [OF f, unfolded e(1)]
    show ?thesis
    proof (cases r2)
      case None
      with less.prems f e w have "retry_loop (a + 1) wait fn sr d2 = (d', r)" by (simp add: retry_loop.simps [of a])
      from less.hyps [OF _ this] e(3) have "adds_copies unsure cm M d2 d' r" by simp
      with s wait [OF w] show ?thesis by (rule adds_copies_trans)
    next
      case (Some x)
      with less.prems f e w have "d' = d2" "r = Some x" by (simp_all add: retry_loop.simps [of a])
      with s wait [OF w] show ?thesis by (simp add: adds_copies_def)
    qed
  qed
qed

lemma WriteBundle_exact:
  assumes D: "duck_exact unsure (wOps w) cm pend app" and w: "WriteBundle evs w = (w', r)"
  shows "adds_copies unsure cm (mset (map (event_row (wLib w)) evs)) (wDB w) (wDB w') r"
proof -
  have once: "adds_copies unsure cm (mset (map (event_row (wLib w)) evs)) d d' r'"
    if "writeBundleOnce (wOps w) (wLib w) c (wTable w) evs d = (d', r')" for c d d' r'
    using writeBundleOnce_exact [OF D that] unfolding adds_copies_def
    by (cases "cm d' = cm d") (auto intro: exI [of _ 0] exI [of _ 1])
  show ?thesis
  proof (cases "evs = [] \<or> wConns w = []")
    case True
    with w show ?thesis by (auto simp: WriteBundle_def adds_copies_def split: if_splits intro: exI [of _ 0] exI [of _ 1])
  next
    case False
    with w obtain c where "retry_loop 0 (RetryWait (wOps w)) (writeBundleOnce (wOps w) (wLib w) c (wTable w) evs) isCommitConflict (wDB w)
        = (wDB w', r)"
      by (auto simp: WriteBundle_def Let_def retryCatalogIf_def split: prod.splits)
    then show ?thesis by (rule retry_loop_adds [rotated -1]) (rule once, assumption, rule duck_keeps(5) [OF D], assumption)
  qed
qed

interpretation lake_exact: exact_writer WriteBundle "\<lambda>w. cm (wDB w)" "\<lambda>w. event_row (wLib w)"
    "\<lambda>w. duck_exact unsure (wOps w) cm pend app" unsure for cm pend app unsure
proof unfold_locales
  fix w :: "'a writer" and evs w' r
  assume D: "duck_exact unsure (wOps w) cm pend app"
  note T = duck_exact_txn [OF D]
  show "cm (wDB w) + mset (map (event_row (wLib w)) evs) \<subseteq># cm (wDB w')"
    if "WriteBundle evs w = (w', None)" using T that by (rule WriteBundle_commits)
  assume r: "WriteBundle evs w = (w', r)"
  show "cm (wDB w) \<subseteq># cm (wDB w')" using T r by (rule WriteBundle_grows)
  show "duck_exact unsure (wOps w') cm pend app \<and> event_row (wLib w') = event_row (wLib w)"
    using D WriteBundle_config [OF r] by simp
  show "\<exists>k. cm (wDB w') = cm (wDB w) + repeat_mset k (mset (map (event_row (wLib w)) evs)) \<and> (r = None \<longrightarrow> 0 < k) \<and>
      (\<not> unsure \<longrightarrow> k = (if r = None then 1 else 0))"
    using WriteBundle_exact [OF D r] by (simp add: adds_copies_def)
qed

end
