(* ===== verification/Sink_Transfer.thy ===== *)
theory Sink_Transfer
  imports Sink_Safety Lake_Exact
begin

text \<open>
  The sink's contract as an abstract machine, and the proof that the sink implements it. The machine knows nothing of
  buffers, channels, workers or bisection: it holds messages that were delivered to it, moves whole bundles of
  them into the lake at once, drops one for a reason, or lets go of some, to be delivered again. Its only
  imperfection is a commit whose outcome is not known: then rows reach the lake of messages it
  still holds.
\<close>

section \<open>The abstract machine\<close>

record 'r transfer =
  tTaken :: "jmsg multiset"
  tHeld :: "jmsg multiset"
  tLake :: "'r multiset"
  tStored :: "jmsg multiset"
  tDropped :: "jmsg multiset"

inductive transfer_step ::
  "(jmsg \<Rightarrow> 'r) \<Rightarrow> (jmsg \<Rightarrow> bool) \<Rightarrow> bool \<Rightarrow> 'r transfer \<Rightarrow> 'r transfer \<Rightarrow> bool" for row justified unsure where
  deliver: "transfer_step row justified unsure t (t\<lparr>tTaken := add_mset m (tTaken t), tHeld := add_mset m (tHeld t)\<rparr>)"
| commit: "B \<subseteq># tHeld t \<Longrightarrow> transfer_step row justified unsure t
     (t\<lparr>tHeld := tHeld t - B, tLake := tLake t + image_mset row B, tStored := tStored t + B\<rparr>)"
| maybe: "unsure \<Longrightarrow> B \<subseteq># tHeld t \<Longrightarrow> transfer_step row justified unsure t (t\<lparr>tLake := tLake t + image_mset row B\<rparr>)"
| drop: "m \<in># tHeld t \<Longrightarrow> justified m \<Longrightarrow> transfer_step row justified unsure t
     (t\<lparr>tHeld := tHeld t - {#m#}, tDropped := add_mset m (tDropped t)\<rparr>)"
| release: "B \<subseteq># tHeld t \<Longrightarrow> transfer_step row justified unsure t (t\<lparr>tHeld := tHeld t - B\<rparr>)"

definition transfer_init :: "'r multiset \<Rightarrow> 'r transfer" where
  "transfer_init lake = \<lparr>tTaken = {#}, tHeld = {#}, tLake = lake, tStored = {#}, tDropped = {#}\<rparr>"

text \<open>What the machine promises.\<close>

definition transfer_inv :: "(jmsg \<Rightarrow> 'r) \<Rightarrow> (jmsg \<Rightarrow> bool) \<Rightarrow> bool \<Rightarrow> 'r multiset \<Rightarrow> 'r transfer \<Rightarrow> bool" where
  "transfer_inv row justified unsure lake t \<longleftrightarrow>
     tHeld t + tStored t + tDropped t \<subseteq># tTaken t \<and>
     lake + image_mset row (tStored t) \<subseteq># tLake t \<and>
     (\<not> unsure \<longrightarrow> tLake t = lake + image_mset row (tStored t)) \<and>
     set_mset (tLake t) \<subseteq> set_mset lake \<union> row ` set_mset (tTaken t) \<and>
     (\<forall>m\<in>#tDropped t. justified m)"

lemma transfer_inv_init: "transfer_inv row justified unsure lake (transfer_init lake)"
  by (simp add: transfer_inv_def transfer_init_def)

lemma held_taken: "transfer_inv row justified unsure lake t \<Longrightarrow> B \<subseteq># tHeld t \<Longrightarrow> row ` set_mset B \<subseteq> row ` set_mset (tTaken t)"
  unfolding transfer_inv_def by (intro image_mono set_mset_mono) (meson mset_subset_eq_add_left subset_mset.order_trans)

lemma transfer_inv_step:
  "transfer_step row justified unsure t t' \<Longrightarrow> transfer_inv row justified unsure lake t \<Longrightarrow> transfer_inv row justified unsure lake t'"
proof (induction rule: transfer_step.induct)
  case (deliver t m)
  then show ?case by (auto simp: transfer_inv_def add.assoc)
next
  case (commit B t)
  then obtain H where h: "tHeld t = B + H" by (auto simp: mset_subset_eq_exists_conv)
  from held_taken [OF commit(2,1)] commit(2) h show ?case
    by (auto simp: transfer_inv_def ac_simps)
next
  case (maybe B t)
  from held_taken [OF maybe(3,2)] maybe(1,3) show ?case
    by (auto simp: transfer_inv_def intro: subset_mset.order_trans)
next
  case (drop m t)
  then obtain H where h: "tHeld t = add_mset m H" by (metis insert_DiffM)
  with drop show ?case by (auto simp: transfer_inv_def)
next
  case (release B t)
  then obtain H where h: "tHeld t = B + H" by (auto simp: mset_subset_eq_exists_conv)
  have "H + tStored t + tDropped t \<subseteq># B + H + tStored t + tDropped t" by (simp add: add.assoc)
  also from release(2) h have "B + H + tStored t + tDropped t \<subseteq># tTaken t" by (simp add: transfer_inv_def)
  finally have "H + tStored t + tDropped t \<subseteq># tTaken t" .
  with release(2) h show ?case by (simp add: transfer_inv_def)
qed

lemma transfer_inv_reach:
  "(transfer_step row justified unsure)\<^sup>*\<^sup>* (transfer_init lake) t \<Longrightarrow> transfer_inv row justified unsure lake t"
  by (induction rule: rtranclp_induct) (auto intro: transfer_inv_init transfer_inv_step)

section \<open>A flush, abstractly\<close>

lemma transfer_maybes:
  "(\<forall>B\<in>set Bs. B \<subseteq># tHeld t) \<Longrightarrow> (\<not> unsure \<longrightarrow> Bs = []) \<Longrightarrow>
     (transfer_step row justified unsure)\<^sup>*\<^sup>* t (t\<lparr>tLake := tLake t + image_mset row (sum_list Bs)\<rparr>)"
proof (induction Bs arbitrary: t)
  case (Cons B Bs)
  let ?t = "t\<lparr>tLake := tLake t + image_mset row B\<rparr>"
  have "transfer_step row justified unsure t ?t" using Cons.prems by (intro maybe) auto
  moreover have "(transfer_step row justified unsure)\<^sup>*\<^sup>* ?t (?t\<lparr>tLake := tLake ?t + image_mset row (sum_list Bs)\<rparr>)"
    using Cons.prems by (intro Cons.IH) auto
  ultimately show ?case by (simp add: add.assoc converse_rtranclp_into_rtranclp)
qed simp

lemma transfer_drops:
  "T \<subseteq># tHeld t \<Longrightarrow> (\<forall>m\<in>#T. justified m) \<Longrightarrow>
     (transfer_step row justified unsure)\<^sup>*\<^sup>* t (t\<lparr>tHeld := tHeld t - T, tDropped := tDropped t + T\<rparr>)"
proof (induction T arbitrary: t)
  case (add m T)
  let ?t = "t\<lparr>tHeld := tHeld t - {#m#}, tDropped := add_mset m (tDropped t)\<rparr>"
  have "transfer_step row justified unsure t ?t" using add.prems by (intro drop) (auto dest: mset_subset_eqD)
  moreover have "T \<subseteq># tHeld ?t" using add.prems(1) by (simp add: insert_subset_eq_iff)
  then have "(transfer_step row justified unsure)\<^sup>*\<^sup>* ?t (?t\<lparr>tHeld := tHeld ?t - T, tDropped := tDropped ?t + T\<rparr>)"
    using add.prems(2) by (intro add.IH) simp_all
  ultimately show ?case by (simp add: diff_diff_add_mset converse_rtranclp_into_rtranclp)
qed simp

text \<open>The machine on a bundle \<open>J\<close> it holds: some copies that nobody can be sure of, the part \<open>A\<close> committed, the part \<open>T\<close>
  dropped, the rest released.\<close>

lemma transfer_flush:
  assumes "J \<subseteq># tHeld t" "A + T \<subseteq># J" "\<forall>m\<in>#T. justified m" "\<forall>B\<in>set Bs. B \<subseteq># J" "\<not> unsure \<longrightarrow> Bs = []"
  shows "(transfer_step row justified unsure)\<^sup>*\<^sup>* t
    (t\<lparr>tHeld := tHeld t - J, tLake := tLake t + image_mset row A + image_mset row (sum_list Bs),
       tStored := tStored t + A, tDropped := tDropped t + T\<rparr>)"
proof -
  let ?R = "(transfer_step row justified unsure)\<^sup>*\<^sup>*"
  obtain H where h: "tHeld t = J + H" using assms(1) by (auto simp: mset_subset_eq_exists_conv)
  obtain F where f: "J = A + T + F" using assms(2) by (auto simp: mset_subset_eq_exists_conv)
  define t1 where "t1 = t\<lparr>tLake := tLake t + image_mset row (sum_list Bs)\<rparr>"
  define t2 where "t2 = t1\<lparr>tHeld := tHeld t1 - A, tLake := tLake t1 + image_mset row A, tStored := tStored t1 + A\<rparr>"
  define t3 where "t3 = t2\<lparr>tHeld := tHeld t2 - T, tDropped := tDropped t2 + T\<rparr>"
  define t4 where "t4 = t3\<lparr>tHeld := tHeld t3 - F\<rparr>"
  have held: "tHeld t1 = A + T + F + H" "tHeld t2 = T + F + H" "tHeld t3 = F + H"
    by (simp_all add: t1_def t2_def t3_def h f)
  have "?R t t1" unfolding t1_def using assms(1,4,5) by (intro transfer_maybes) (auto intro: subset_mset.order_trans)
  moreover have "transfer_step row justified unsure t1 t2" unfolding t2_def by (rule commit) (simp add: held)
  moreover have "?R t2 t3" unfolding t3_def using assms(3) by (intro transfer_drops) (simp_all add: held)
  moreover have "transfer_step row justified unsure t3 t4" unfolding t4_def by (rule release) (simp add: held)
  ultimately have "?R t t4" by (meson rtranclp.rtrancl_into_rtrancl rtranclp_trans)
  moreover have "t4 = t\<lparr>tHeld := tHeld t - J, tLake := tLake t + image_mset row A + image_mset row (sum_list Bs),
       tStored := tStored t + A, tDropped := tDropped t + T\<rparr>"
    by (simp add: t4_def t3_def t2_def t1_def h f ac_simps)
  ultimately show ?thesis by simp
qed

section \<open>The simulation\<close>

definition held_msgs :: "'w sink_st \<Rightarrow> jmsg multiset" where
  "held_msgs st = mset (buffered_msgs st) + bundle_msgs (sinkJobs st) + bundle_msgs (sinkRunning st)"

definition abs_sink :: "('w \<Rightarrow> 'r multiset) \<Rightarrow> 'w sink_st \<Rightarrow> 'r transfer" where
  "abs_sink committed st =
     \<lparr>tTaken = mset (sinkReceived st), tHeld = held_msgs st, tLake = committed (fsW (sinkFS st)),
      tStored = mset (acked (fsActions (sinkFS st))), tDropped = mset (termed (fsActions (sinkFS st)))\<rparr>"

lemma held_send: "sinkBuffer st = Some buf \<Longrightarrow> held_msgs (send_job buf k st) = held_msgs st"
  by (simp add: held_msgs_def buffered_msgs_def send_job_def job_of_def)

lemma abs_send: "sinkBuffer st = Some buf \<Longrightarrow> abs_sink cm (send_job buf k st) = abs_sink cm st"
  by (simp add: abs_sink_def held_send) (simp add: send_job_def)

lemma abs_pc [simp]: "abs_sink cm (st\<lparr>sinkPC := p\<rparr>) = abs_sink cm st"
  by (simp add: abs_sink_def held_msgs_def buffered_msgs_def)

lemma abs_flushReady [simp]: "abs_sink cm (flushReady now k st) = abs_sink cm st"
  by (cases rule: flushReady_send_or_keep [of st now k]) (simp_all add: abs_send)

lemma abs_try_enqueue [simp]: "abs_sink cm (try_enqueue k st) = abs_sink cm st"
  by (cases rule: try_enqueue_cases [of st k]) (simp_all add: abs_send)

lemma held_receive: "held_msgs (receive L now m st) = held_msgs st + (if decodable L m then {#m#} else {#})"
  by (cases rule: add_msg_cases [of L m now "sinkBuffer st"])
    (auto simp: held_msgs_def buffered_msgs_def sinkBuffer_receive split: option.splits)

lemma abs_receive:
  assumes "\<And>m. \<not> decodable L m \<Longrightarrow> justified m"
  shows "(transfer_step row justified unsure)\<^sup>*\<^sup>* (abs_sink cm st) (abs_sink cm (receive L now m st))"
proof -
  let ?t = "abs_sink cm st"
  let ?t1 = "?t\<lparr>tTaken := add_mset m (tTaken ?t), tHeld := add_mset m (tHeld ?t)\<rparr>"
  have d: "transfer_step row justified unsure ?t ?t1" by (rule deliver)
  show ?thesis
  proof (cases "decodable L m")
    case True
    with d show ?thesis by (simp add: abs_sink_def held_receive receive_actions r_into_rtranclp)
  next
    case False
    then have "transfer_step row justified unsure ?t1 (?t1\<lparr>tHeld := tHeld ?t1 - {#m#}, tDropped := add_mset m (tDropped ?t1)\<rparr>)"
      using assms by (intro drop) simp_all
    with d False show ?thesis by (simp add: abs_sink_def held_receive receive_actions rtranclp.rtrancl_into_rtrancl r_into_rtranclp)
  qed
qed

lemma slice_subset: "mset (slice lo hi xs) \<subseteq># mset xs"
  unfolding slice_def by (metis append_take_drop_id mset_append mset_subset_eq_add_left mset_subset_eq_add_right subset_mset.order_trans)

lemma image_copies: "image_mset f (sum_list (replicate k M)) = repeat_mset k (image_mset f M)"
  by (induction k) simp_all

context exact_writer
begin

text \<open>What a write relates: the rows of the positions it settled, and copies nobody can be sure of.\<close>

definition wrote :: "ce_lib \<Rightarrow> flush_job \<Rightarrow> 'w \<Rightarrow> 'w \<Rightarrow> nat list \<Rightarrow> bool" where
  "wrote L j w w' as \<longleftrightarrow> (ok w \<longrightarrow> ok w' \<and> row_of w' = row_of w \<and>
     (\<exists>Bs. (\<not> unsure \<longrightarrow> Bs = []) \<and> (\<forall>B\<in>set Bs. B \<subseteq># mset (jobMsgs j)) \<and>
        committed w' = committed w + mset (map (\<lambda>i. row_of w (jobEvents j ! i)) as)
          + image_mset (\<lambda>m. row_of w (event_of L m)) (sum_list Bs)))"

lemma wrote_trans:
  assumes "wrote L j w w1 as1" "wrote L j w1 w2 as2"
  shows "wrote L j w w2 (as1 @ as2)"
  unfolding wrote_def
proof (intro impI)
  assume "ok w"
  with assms(1) obtain Bs1 where b1: "ok w1" "row_of w1 = row_of w" "\<not> unsure \<longrightarrow> Bs1 = []" "\<forall>B\<in>set Bs1. B \<subseteq># mset (jobMsgs j)"
    "committed w1 = committed w + mset (map (\<lambda>i. row_of w (jobEvents j ! i)) as1) + image_mset (\<lambda>m. row_of w (event_of L m)) (sum_list Bs1)"
    unfolding wrote_def by blast
  with assms(2) obtain Bs2 where b2: "ok w2" "row_of w2 = row_of w1" "\<not> unsure \<longrightarrow> Bs2 = []" "\<forall>B\<in>set Bs2. B \<subseteq># mset (jobMsgs j)"
    "committed w2 = committed w1 + mset (map (\<lambda>i. row_of w1 (jobEvents j ! i)) as2) + image_mset (\<lambda>m. row_of w1 (event_of L m)) (sum_list Bs2)"
    unfolding wrote_def by blast
  from b1 b2 show "ok w2 \<and> row_of w2 = row_of w \<and>
     (\<exists>Bs. (\<not> unsure \<longrightarrow> Bs = []) \<and> (\<forall>B\<in>set Bs. B \<subseteq># mset (jobMsgs j)) \<and>
        committed w2 = committed w + mset (map (\<lambda>i. row_of w (jobEvents j ! i)) (as1 @ as2))
          + image_mset (\<lambda>m. row_of w (event_of L m)) (sum_list Bs))"
    by (intro conjI exI [of _ "Bs1 @ Bs2"]) (auto simp: ac_simps)
qed

lemma wrote_bundle:
  assumes "job_wf L j" "write_bundle (slice lo hi (jobEvents j)) w = (w', r)" "r = None \<Longrightarrow> hi \<le> length (jobEvents j)"
  shows "wrote L j w w' (if r = None then [lo..<hi] else [])"
  unfolding wrote_def
proof (intro impI conjI)
  let ?row = "\<lambda>m. row_of w (event_of L m)"
  assume o: "ok w"
  with write_ok [OF o assms(2)] show "ok w'" "row_of w' = row_of w" by simp_all
  from write_exact [OF o assms(2)] obtain k where
    k: "committed w' = committed w + repeat_mset k (mset (map (row_of w) (slice lo hi (jobEvents j))))"
      "r = None \<longrightarrow> 0 < k" "\<not> unsure \<longrightarrow> k = (if r = None then 1 else 0)" by blast
  have m: "mset (map (row_of w) (slice lo hi (jobEvents j))) = image_mset ?row (mset (slice lo hi (jobMsgs j)))"
    using assms(1) by (simp add: job_wf_def slice_def take_map drop_map image_mset.compositionality comp_def)
  have n: "mset (map (\<lambda>i. row_of w (jobEvents j ! i)) [lo..<hi]) = image_mset ?row (mset (slice lo hi (jobMsgs j)))" if "r = None"
    using m assms(3) [OF that] by (simp add: slice_nth comp_def)
  let ?Bs = "replicate (if r = None then k - 1 else k) (mset (slice lo hi (jobMsgs j)))"
  have "committed w' = committed w + mset (map (\<lambda>i. row_of w (jobEvents j ! i)) (if r = None then [lo..<hi] else []))
      + image_mset ?row (sum_list ?Bs)"
    using k(1,2) m n by (cases k) (auto simp: image_copies)
  with k(3) slice_subset [of lo hi "jobMsgs j"]
  show "\<exists>Bs. (\<not> unsure \<longrightarrow> Bs = []) \<and> (\<forall>B\<in>set Bs. B \<subseteq># mset (jobMsgs j)) \<and>
      committed w' = committed w + mset (map (\<lambda>i. row_of w (jobEvents j ! i)) (if r = None then [lo..<hi] else []))
        + image_mset ?row (sum_list Bs)"
    by (intro exI [of _ ?Bs]) auto
qed

lemma flush_exact:
  assumes "feWrite env = write_bundle" "job_wf L j"
  shows "\<exists>as ts. flush_ok env j st (flush env j st) as ts \<and> wrote L j (fsW st) (fsW (flush env j st)) as"
proof (rule flush_pass [OF job_wf_length [OF assms(2)]])
  show "wrote L j w w []" for w by (auto simp: wrote_def intro!: exI [of _ "[]"])
  show "wrote L j w w2 (as1 @ as2)" if "wrote L j w w1 as1" "wrote L j w1 w2 as2" for w w1 w2 as1 as2
    using that by (rule wrote_trans)
  show "wrote L j w w1 [lo..<hi]" if "hi \<le> length (jobEvents j)" "feWrite env (slice lo hi (jobEvents j)) w = (w1, None)" for lo hi w w1
    using wrote_bundle [OF assms(2), of lo hi w w1 None] that assms(1) by simp
  show "wrote L j w w1 []" if "feWrite env (slice lo hi (jobEvents j)) w = (w1, Some e)" for lo hi w w1 e
    using wrote_bundle [OF assms(2), of lo hi w w1 "Some e"] that assms(1) by simp
qed

lemma sim_finish:
  assumes "feWrite env = write_bundle" "job_wf L j" "ok (fsW (sinkFS st))" "sinkRunning st = xs @ j # ys"
  defines "row \<equiv> \<lambda>m. row_of (fsW (sinkFS st)) (event_of L m)"
  shows "(transfer_step row (term_justified L env) unsure)\<^sup>*\<^sup>*
    (abs_sink committed st) (abs_sink committed (worker_finish env j (xs @ ys) st))"
proof -
  let ?fs = "sinkFS st" and ?fs' = "flush env j (sinkFS st)"
  obtain as ts where f: "flush_ok env j ?fs ?fs' as ts" and w: "wrote L j (fsW ?fs) (fsW ?fs') as"
    using flush_exact [OF assms(1,2)] by blast
  obtain acts where a: "fsActions ?fs' = fsActions ?fs @ acts" "acked acts = map ((!) (jobMsgs j)) as"
    "set as \<subseteq> {..<length (jobMsgs j)}" "mset (acked acts) + mset (termed acts) \<subseteq># mset (jobMsgs j)"
    "\<forall>m\<in>set (termed acts). term_justified L env m" by (rule flush_ok_acts [OF f assms(2)])
  from w assms(3) obtain Bs where b: "\<not> unsure \<longrightarrow> Bs = []" "\<forall>B\<in>set Bs. B \<subseteq># mset (jobMsgs j)"
    "committed (fsW ?fs') = committed (fsW ?fs) + mset (map (\<lambda>i. row_of (fsW ?fs) (jobEvents j ! i)) as) + image_mset row (sum_list Bs)"
    unfolding wrote_def row_def by blast
  have "map (\<lambda>i. row_of (fsW ?fs) (jobEvents j ! i)) as = map row (acked acts)"
    using a(2,3) assms(2) by (auto simp: job_wf_def row_def)
  with b(3) have c: "committed (fsW ?fs') = committed (fsW ?fs) + image_mset row (mset (acked acts)) + image_mset row (sum_list Bs)" by simp
  have h: "held_msgs st = held_msgs (worker_finish env j (xs @ ys) st) + mset (jobMsgs j)"
    using assms(4) by (simp add: held_msgs_def buffered_msgs_def worker_finish_def)
  have "abs_sink committed (worker_finish env j (xs @ ys) st) = (abs_sink committed st)
      \<lparr>tHeld := tHeld (abs_sink committed st) - mset (jobMsgs j),
       tLake := tLake (abs_sink committed st) + image_mset row (mset (acked acts)) + image_mset row (sum_list Bs),
       tStored := tStored (abs_sink committed st) + mset (acked acts), tDropped := tDropped (abs_sink committed st) + mset (termed acts)\<rparr>"
    using h a(1) c by (simp add: abs_sink_def) (simp add: worker_finish_def)
  moreover have "mset (jobMsgs j) \<subseteq># tHeld (abs_sink committed st)" using h by (simp add: abs_sink_def)
  ultimately show ?thesis using a(4,5) b(1,2) by (simp only:) (rule transfer_flush, auto)
qed

lemma sim_step:
  assumes "sink_step L env st st'" "feWrite env = write_bundle" "sink_wf L st" "ok (fsW (sinkFS st))"
  shows "(transfer_step (\<lambda>m. row_of (fsW (sinkFS st)) (event_of L m)) (term_justified L env) unsure)\<^sup>*\<^sup>*
      (abs_sink committed st) (abs_sink committed st') \<and>
    ok (fsW (sinkFS st')) \<and> row_of (fsW (sinkFS st')) = row_of (fsW (sinkFS st))"
  using assms
proof (induction rule: sink_step.induct)
  case (recv st now' now msg)
  have "(transfer_step (\<lambda>m. row_of (fsW (sinkFS st)) (event_of L m)) (term_justified L env) unsure)\<^sup>*\<^sup>*
      (abs_sink committed st) (abs_sink committed (receive L now msg st))"
    by (rule abs_receive) (simp add: term_justified_def)
  with recv show ?case by (simp add: flushReady_frame)
next
  case (tick st now)
  then show ?case by (simp add: flushReady_frame)
next
  case (over st)
  then show ?case by simp
next
  case (drain_send st buf)
  then show ?case by (simp add: abs_send) (simp add: send_job_def)
next
  case (take st j js)
  then show ?case by (simp add: abs_sink_def held_msgs_def buffered_msgs_def ac_simps)
next
  case (finish st xs j ys)
  then have j: "job_wf L j" by (simp add: sink_wf_def)
  from flush_exact [OF finish(2) j, of "sinkFS st"] finish(4)
  have "ok (fsW (flush env j (sinkFS st))) \<and> row_of (fsW (flush env j (sinkFS st))) = row_of (fsW (sinkFS st))"
    unfolding wrote_def by blast
  with sim_finish [OF finish(2) j finish(4,1)] show ?case by (simp add: worker_finish_def)
qed (simp_all add: abs_sink_def held_msgs_def buffered_msgs_def flushDone_signal_def)

lemma sim_reach:
  "sink_reach L env cfg w st \<Longrightarrow> feWrite env = write_bundle \<Longrightarrow> ok w \<Longrightarrow>
     (transfer_step (\<lambda>m. row_of w (event_of L m)) (term_justified L env) unsure)\<^sup>*\<^sup>* (transfer_init (committed w)) (abs_sink committed st) \<and>
     ok (fsW (sinkFS st)) \<and> row_of (fsW (sinkFS st)) = row_of w"
proof (induction rule: sink_reach.induct)
  case start
  then show ?case by (simp add: sink_init_def abs_sink_def transfer_init_def held_msgs_def buffered_msgs_def)
next
  case (step st st')
  then have i: "ok (fsW (sinkFS st))" "row_of (fsW (sinkFS st)) = row_of w" by simp_all
  from sim_step [OF step.hyps(2) step.prems(1) sink_wf_reach [OF step.hyps(1)] i(1)] step i show ?case
    by (auto intro: rtranclp_trans)
qed

end

end
