(* ===== verification/Sink_Props.thy ===== *)
theory Sink_Props
  imports Instances Sink_Transfer
begin

text \<open>
  The properties of the write path, from the message the broker delivers to the committed row:
  statements about every reachable state of the running sink, and about the bisection of a
  bundle that failed to commit.
\<close>

section \<open>The running sink\<close>

text \<open>C2. At-least-once: in every reachable state of the sink writing through the lake writer,
  the rows of all acknowledged messages are committed, counted with multiplicity. The
  hypothesis is DuckDB's transactional behaviour.\<close>

theorem sink_acked_rows_committed:
  assumes "sink_reach L env cfg w st" "feWrite env = WriteBundle" "duck_txn (wOps w) cm pnd app"
  shows "mset (map (\<lambda>m. event_row (wLib (fsW (sinkFS st))) (event_of L m)) (acked (fsActions (sinkFS st))))
    \<subseteq># cm (wDB (fsW (sinkFS st)))"
proof -
  have "lake_writer.acks_committed cm pnd app L st"
    using assms by (intro lake_writer.acks_committed_reach)
  then show ?thesis by (simp add: lake_writer.acks_committed_def)
qed

theorem sink_acked_rows_committed_witness:
  "acked (fsActions (sinkFS run6)) = [msg0] \<and>
   mset (map (\<lambda>m. event_row (wLib (fsW (sinkFS run6))) (event_of lib0 m)) (acked (fsActions (sinkFS run6))))
    \<subseteq># cm0 (wDB (fsW (sinkFS run6)))"
  using sink_acked_rows_committed [OF reach_run6 _ writer0_ok] run6_acked by (simp add: env0_def)

text \<open>C4. No message is lost or duplicated inside the sink: in every reachable state the
  decodable messages received are, as a multiset, those in the buffer, in the job channel,
  with a worker and in finished bundles.\<close>

theorem sink_conserves_messages:
  assumes "sink_reach L env cfg w st"
  shows "mset (filter (decodable L) (sinkReceived st)) =
    mset (buffered_msgs st) + bundle_msgs (sinkJobs st) + bundle_msgs (sinkRunning st)
    + bundle_msgs (sinkDone st)"
  using conserved_reach [OF assms] by (simp add: conserved_def)

theorem sink_conserves_messages_witness:
  "sinkReceived run5 = [msg0] \<and>
   mset (filter (decodable lib0) (sinkReceived run5)) =
    mset (buffered_msgs run5) + bundle_msgs (sinkJobs run5) + bundle_msgs (sinkRunning run5)
    + bundle_msgs (sinkDone run5)"
  using sink_conserves_messages [OF reach_run5 [of env0]] by (simp add: run5_def run1_def)

text \<open>C5. Backpressure bounds memory: while the context is not cancelled, the resident footprint
  of the buffer, the queue and the bundles being flushed is below the ceiling plus the
  footprint of the last message received, and below the ceiling itself whenever the loop is
  about to accept the next message.\<close>

theorem sink_memory_bounded:
  assumes "sink_reach L env cfg w st" "0 < MaxBufferedBytes (sinkCfg st)" "\<not> sinkCancelled st"
  shows "resident st < MaxBufferedBytes (sinkCfg st) + last_footprint L st \<and>
    (sinkPC st = AtSelect \<longrightarrow> resident st < MaxBufferedBytes (sinkCfg st))"
  using mem_ok_reach [OF assms(1)] assms(2,3) last_footprint_nonneg [of L st]
  by (auto simp: mem_ok_def split: if_splits)

theorem sink_memory_bounded_witness:
  "MaxBufferedBytes (sinkCfg run1) = 536870912 \<and>
   resident run1 < MaxBufferedBytes (sinkCfg run1) + last_footprint lib0 run1"
proof -
  have "MaxBufferedBytes (sinkCfg run1) = 536870912" "\<not> sinkCancelled run1"
    by (simp_all add: run1_def sink_init_def applyDefaults_cfg0)
  with sink_memory_bounded [OF reach_run1 [of env0]] show ?thesis by simp
qed

text \<open>C6. Backpressure cannot deadlock: whenever the loop waits for a finished flush, a wake-up
  is there or on its way, because a token or a signal is pending, a worker holds a bundle, or
  a bundle is queued and a worker is free to take it.\<close>

theorem sink_backpressure_wakes:
  assumes "sink_reach L env cfg w st" "sinkPC st = WaitFlushed" "1 \<le> Workers (sinkCfg st)"
  shows "0 < sinkFlushed st \<or> 0 < sinkSignals st \<or> sinkRunning st \<noteq> [] \<or>
    (sinkJobs st \<noteq> [] \<and> length (sinkRunning st) < nat (Workers (sinkCfg st)))"
  using no_lost_wake_reach [OF assms(1)] assms(2,3)
  by (cases "sinkRunning st") (auto simp: no_lost_wake_def wakeable_def)

theorem sink_backpressure_wakes_witness:
  "sinkPC wait1 = WaitFlushed \<and>
   (0 < sinkFlushed wait1 \<or> 0 < sinkSignals wait1 \<or> sinkRunning wait1 \<noteq> [] \<or>
    (sinkJobs wait1 \<noteq> [] \<and> length (sinkRunning wait1) < nat (Workers (sinkCfg wait1))))"
proof -
  have "sinkPC wait1 = WaitFlushed" "1 \<le> Workers (sinkCfg wait1)"
    by (simp_all add: wait1_def sink_init_def applyDefaults_cfg1)
  with sink_backpressure_wakes [OF reach_wait1 [of env0]] show ?thesis by blast
qed




lemma duck_exact_duck0: "duck_exact False duck0 cm0 (\<lambda>d c. dbPend d) (\<lambda>d c. dbApp d)"
  by (auto simp: duck_exact_def duck0_def exec0_def keeps_rows_def)


text \<open>Each delivery is settled at most once, and only when its bundle has been flushed: the
  acknowledged and terminated messages together are contained in the undecodable messages and
  those of finished bundles.\<close>

lemma sink_settles_once:
  assumes "sink_reach L env cfg w st"
  shows "mset (acked (fsActions (sinkFS st))) + mset (termed (fsActions (sinkFS st))) \<subseteq>#
    mset (filter (\<lambda>m. \<not> decodable L m) (sinkReceived st)) + bundle_msgs (sinkDone st)"
  using acts_once_reach [OF assms] by (simp add: acts_once_def)

lemma sink_settles_once_witness:
  "acked (fsActions (sinkFS run6)) = [msg0] \<and>
   mset (acked (fsActions (sinkFS run6))) + mset (termed (fsActions (sinkFS run6))) \<subseteq>#
    mset (filter (\<lambda>m. \<not> decodable lib0 m) (sinkReceived run6)) + bundle_msgs (sinkDone run6)"
  using sink_settles_once [OF reach_run6] run6_acked by simp

section \<open>Isolating unpersistable rows\<close>

text \<open>C33. Once a range of the bundle has committed, the bisection against a healthy writer
  decides every remaining row correctly and in order: the rows the writer accepts are
  acknowledged, exactly those it rejects are terminated.\<close>

theorem isolate_localizes_poison:
  assumes "poison_writer env bad" "length (jobMsgs job) = length (jobEvents job)"
    "0 < isoCommitted st" "hi \<le> length (jobEvents job)"
  shows "\<exists>acts. fsActions (isolateRange env job lo hi st) = fsActions st @ acts \<and>
    acked acts = map ((!) (jobMsgs job)) (filter (\<lambda>i. \<not> bad (jobEvents job ! i)) [lo..<hi]) \<and>
    termed acts = map ((!) (jobMsgs job)) (filter (\<lambda>i. bad (jobEvents job ! i)) [lo..<hi])"
  using assms by (rule isolateRange_exact)

theorem isolate_localizes_poison_witness:
  "\<exists>acts. fsActions (isolateRange penv0 (pjob0 4 2) 0 4 (pst0\<lparr>isoCommitted := 1\<rparr>)) = fsActions pst0 @ acts \<and>
    acked acts = map ((!) (jobMsgs (pjob0 4 2))) [0, 1, 3] \<and> termed acts = [jobMsgs (pjob0 4 2) ! 2]"
proof -
  have u: "[0..<4] = [0, 1, 2, 3 :: nat]" by (simp add: upt_rec)
  have e: "jobEvents (pjob0 4 2) = [ev0, ev0, ev0\<lparr>VoidsID := ''bad''\<rparr>, ev0]"
    by (simp add: pjob0_def numeral_eq_Suc)
  have "\<not> bad0 ev0" "bad0 (ev0\<lparr>VoidsID := ''bad''\<rparr>)" by (simp_all add: bad0_def ev0_def)
  then show ?thesis
    using isolate_localizes_poison [OF poison_writer_penv0 pjob0_length(1) [of 4 2],
        of "pst0\<lparr>isoCommitted := 1\<rparr>" 4 0]
    by (simp add: u e)
qed

text \<open>C34. In a bundle of fewer than 256 rows, a pass of isolation against a healthy writer
  always makes progress: at least one message is acknowledged or terminated, so no such
  bundle redelivers unchanged.\<close>

theorem isolate_progresses:
  assumes "poison_writer env bad" "length (jobMsgs job) = length (jobEvents job)"
    "0 < length (jobEvents job)" "length (jobEvents job) < 256"
  shows "fsActions (isolate env job st) \<noteq> fsActions st"
proof -
  have "depth (length (jobEvents job)) \<le> 8" using assms(4) by (intro depth_le) simp_all
  then show ?thesis
    unfolding isolate_def
    using isolateRange_progress [OF assms(1,2,3), of "st\<lparr>isoCommitted := 0, isoAttempts := 0\<rparr>"]
    by (simp add: isolateProbeLimit_def)
qed

theorem isolate_progresses_witness:
  "fsActions (isolate penv0 (pjob0 255 0) pst0) \<noteq> fsActions pst0"
  by (rule isolate_progresses [OF poison_writer_penv0]) (simp_all add: pjob0_length)

text \<open>C35. In a bundle of 256 rows or more whose first row is unpersistable, a pass of isolation
  settles no message at all, although the writer is healthy and names the row as poison: the
  left-first descent spends its eight attempts before it reaches a single row, and the probe
  limit, meant for an unreachable writer, stops the pass.\<close>

theorem isolate_stalls_on_first_row:
  assumes "poison_writer env bad" "bad (jobEvents job ! 0)" "256 \<le> length (jobEvents job)"
  shows "fsActions (isolate env job st) = fsActions st"
proof -
  let ?st = "st\<lparr>isoCommitted := 0, isoAttempts := 0\<rparr>"
  have "8 < depth (length (jobEvents job))" using assms(3) by (intro depth_gt) simp
  moreover have "jobEvents job \<noteq> []" using assms(3) by auto
  ultimately show ?thesis
    unfolding isolate_def
    using isolateRange_first_poison [OF assms(1,2), of "length (jobEvents job)" ?st] assms(3)
    by (simp add: isolateProbeLimit_def)
qed

theorem isolate_stalls_on_first_row_witness:
  "fsActions (isolate penv0 (pjob0 256 0) pst0) = fsActions pst0"
proof (rule isolate_stalls_on_first_row [OF poison_writer_penv0])
  show "bad0 (jobEvents (pjob0 256 0) ! 0)" by (simp add: pjob0_def bad0_def)
qed (simp add: pjob0_length)

end
