(* ===== verification/Ingest_Props.thy ===== *)
theory Ingest_Props
  imports Instances
begin

text \<open>
  The properties of the ingest path: from the request, through conversion, attestation,
  splitting and publishing, to the message in the write-ahead log, and of the stores and
  streams below it.
\<close>

section \<open>Requests\<close>

text \<open>C7. A connection request is answered 200 only if every event the converter made of it,
  except fingerprints dropped for an invalid VIN, has its message in the write-ahead log.\<close>

theorem connection_200_durable:
  assumes "js_durable (pub_js (hsPub st)) wal fmsg"
    "Connection (din_handlers L G E skew now newID sp vf) r st = (st', Some resp)" "status resp = 200"
  shows "\<exists>src body c1 evs. reqSource r = Some src \<and> reqBody r = Inr body \<and>
    Convert L G skew now newID src body (hsConv st) = (c1, Inr evs) \<and>
    (\<forall>ev\<in>set evs.
       (vf \<and> (\<exists>e. Validate L G ev = Some e \<and> errors_is e ErrInvalidVIN)) \<or>
       (\<exists>sev. ev_header sev = Header ev \<and>
          MsgID (pub_sha256 (hsPub st)) (pub_lib (hsPub st)) (ev_header sev) \<in> wal (pub_state (hsPub st'))))"
proof -
  let ?h = "din_handlers L G E skew now newID sp vf"
  have "hPublishBatch ?h = PublishBatch" by (simp add: din_handlers_def)
  from stream_pub.connection_durable [OF assms(1) this header_keeping_din assms(2,3)]
  show ?thesis by (simp add: dropped_def din_handlers_def)
qed

theorem connection_200_durable_witness:
  "\<exists>st' resp. Connection h0 req0 hst0 = (st', Some resp) \<and> status resp = 200 \<and>
    (\<exists>sev. ev_header sev = hdr0 \<and> MsgID sha0 lib0 (ev_header sev) \<in> set (pub_state (hsPub st')))"
proof -
  obtain st' where c: "Connection h0 req0 hst0 = (st', Some status_ok)" using Connection_req0 ..
  have "js_durable (pub_js (hsPub hst0)) set (\<lambda>f. f)"
    using js_durable_js0 by (simp add: hst0_def)
  from connection_200_durable [OF this c]
  have "\<forall>ev\<in>set [raw0]. (\<exists>e. Validate lib0 garage0 ev = Some e \<and> errors_is e ErrInvalidVIN) \<or>
      (\<exists>sev. ev_header sev = Header ev \<and> MsgID sha0 lib0 (ev_header sev) \<in> set (pub_state (hsPub st')))"
    using Convert_req0 by (auto simp: req0_def hst0_def)
  moreover have "Validate lib0 garage0 raw0 = None"
    by (simp add: Validate_def lib0_def raw0_def hdr0_def)
  moreover have "Header raw0 = hdr0" by (simp add: raw0_def)
  ultimately show ?thesis using c by force
qed



text \<open>A publish failure decides the response of a connection request, whatever faults its
  sibling events met: an unacknowledged publish is a 503 with a Retry-After header, an event
  over the broker's limit a 413.\<close>

lemma publish_failure_decides_response:
  assumes "Connection h r st = (st', resp)" "reqSource r = Some src" "reqBody r = Inr body"
    "hConvert h src body (hsConv st) = (c1, Inr evs)"
    "collect h evs None None [] (hsStore st) = (s1, v, se, acc)"
    "hPublishBatch h acc (hsPub st) = (p1, Some e)"
    "\<not> errors_is e RuntimePanic" "\<not> errors_is e MaxBytesError" "\<not> errors_is e ErrValidation"
  shows "(errors_is e ErrPayloadTooLarge \<longrightarrow> (\<exists>x. resp = Some x \<and> status x = 413)) \<and>
    (errors_is e ErrUnavailable \<and> \<not> errors_is e ErrPayloadTooLarge \<longrightarrow>
       (\<exists>x. resp = Some x \<and> status x = 503 \<and> (''Retry-After'', ''5'') \<in> set (respHeaders x)))"
proof -
  have "resp = Some (writeError e)"
    using Connection_published [OF assms(1-4)] assms(5-7) by (auto simp: fail_def)
  then show ?thesis using assms(8,9) by (auto simp: writeError_def http_Error_def)
qed

lemma publish_failure_decides_response_witness:
  "\<exists>st' x. Connection (h0\<lparr>hPublishBatch := \<lambda>evs p. (p, Some (classifyPublishErr (errors_new ''down'')))\<rparr>)
      req0 hst0 = (st', Some x) \<and> status x = 503"
proof -
  let ?h = "h0\<lparr>hPublishBatch := \<lambda>evs p. (p, Some (classifyPublishErr (errors_new ''down'')))\<rparr>"
  obtain st' resp where c: "Connection ?h req0 hst0 = (st', resp)" by (cases "Connection ?h req0 hst0")
  obtain s1 v se acc where k: "collect ?h [raw0] None None [] (hsStore hst0) = (s1, v, se, acc)"
    by (cases "collect ?h [raw0] None None [] (hsStore hst0)")
  have "hConvert ?h ''0xA'' ''{}'' (hsConv hst0) = (NewConverter, Inr [raw0])"
    using Convert_req0 by (simp add: din_handlers_def hst0_def)
  from publish_failure_decides_response [OF c _ _ this k] c show ?thesis
    by (auto simp: req0_def classifyPublishErr_def)
qed

section \<open>Publishing\<close>

text \<open>C36. Routing: with at least one and fewer than 2 to the 32 partitions, every event has a subject, and exactly one of the
  partition streams is bound to a filter that matches it, so no event is stored twice or
  refused. The hypothesis is the broker's documented wildcard matching.\<close>

theorem wal_routes_to_one_stream:
  assumes "wildcard_semantics matches" "1 \<le> n" "n < 2 ^ 32"
  shows "\<exists>s. Subject hdr n = Some s \<and>
    (\<exists>!i. i < nat n \<and> (\<exists>f\<in>set (partitionSubjects i n). matches f s))"
proof (cases "n = 1")
  case True
  then obtain s where s: "Subject hdr n = Some s" by (simp add: Subject_def)
  have "\<exists>f\<in>set (partitionSubjects i n). matches f s" for i
    using single_filter_match [OF assms(1) _ s] True by simp
  with s True show ?thesis by (auto intro!: exI [of _ s] ex1I [of _ 0])
next
  case False
  with assms(2) have n: "1 < n" by simp
  obtain p where p: "Partition (hSubject hdr) n = Some p" "p < nat n"
    using Partition_bound [OF assms(2,3)] by blast
  then obtain s where s: "Subject hdr n = Some s" using n by (auto simp: Subject_def)
  from partition_filter_match [OF assms(1) n p(1) s] p(2) s show ?thesis
    by (auto intro!: exI [of _ s] ex1I [of _ p])
qed

theorem wal_routes_to_one_stream_witness:
  "\<exists>s. Subject hdr0 4 = Some s \<and>
    (\<exists>!i. i < nat 4 \<and> (\<exists>f\<in>set (partitionSubjects i 4).
       token_match (split_on CHR ''.'' f) (split_on CHR ''.'' s)))"
  by (rule wal_routes_to_one_stream [of "\<lambda>f s. token_match (split_on CHR ''.'' f) (split_on CHR ''.'' s)" 4 hdr0])
    (simp_all add: wildcard_semantics_def)

text \<open>C37. The pipelined batch publish equals its sequential reference: submit every event in
  order, then await every accepted one; all events are submitted whatever fails, and the error
  returned is that of the lowest failing position.\<close>

theorem publish_batch_refines_sequence:
  assumes "submit_seq evs p = (p1, Inr rs)" "await_seq rs p1 = (p2, outs)"
  shows "PublishBatch evs p = (p2, first_some outs) \<and> length outs = length evs \<and>
    (\<forall>e. snd (PublishBatch evs p) = Some e \<longleftrightarrow>
       (\<exists>i < length outs. outs ! i = Some e \<and> (\<forall>j < i. outs ! j = None)))"
  using PublishBatch_seq [OF assms] submit_seq_length [OF assms(1)] await_seq_length [OF assms(2)]
    first_some_Some_iff [of outs] by simp

theorem publish_batch_refines_sequence_witness:
  "\<exists>p2. PublishBatch [ev0\<lparr>RawEvent := raw1\<rparr>, ev0] pub0 = (p2, Some (errorf ''marshaling event e1: '' (errors_new ''json'') '''')) \<and>
     MsgID sha0 lib0 hdr0 \<in> set (pub_state p2)"
proof -
  let ?bad = "ev0\<lparr>RawEvent := raw1\<rparr>" and ?e = "errorf ''marshaling event e1: '' (errors_new ''json'') ''''"
  have bad: "submitAsync ?bad q = (q, Inl ?e)" if "pub_lib q = lib0" for q :: "(string list, nats_msg) publisher"
    using that Marshal_raw1 by (simp add: submitAsync_def)
  obtain subj where s: "Subject (ev_header ev0) 4 = Some subj"
    using Partition_bound [of 4 "hSubject (ev_header ev0)"] by (auto simp: Subject_def)
  have m: "MarshalEvent lib0 (RawEvent ev0) = Inr ''r0''" by (simp add: lib0_def ev0_def)
  let ?p1 = "observePublish (Some ?e) pub0"
  let ?m = "\<lparr>msgSubject = subj, msgData = ''r0'', msgHeader = build_header lib0 sha0 ev0\<rparr>"
  have good: "submitAsync ev0 ?p1 = (?p1\<lparr>pub_state := []\<rparr>, Inr ?m)"
    by (simp add: submitAsync_def observePublish_def s m js0_def)
  have sub: "submit_seq [?bad, ev0] pub0 = (?p1\<lparr>pub_state := []\<rparr>, Inr [Inl ?e, Inr ?m])"
    by (simp add: bad good)
  obtain p2 outs where aw: "await_seq [Inl ?e, Inr ?m] (?p1\<lparr>pub_state := []\<rparr>) = (p2, outs)"
    by (cases "await_seq [Inl ?e, Inr ?m] (?p1\<lparr>pub_state := []\<rparr>)")
  then have "outs = [Some ?e, None]" "pub_state p2 = [MsgID sha0 lib0 hdr0]"
    by (auto simp: awaitAck_def js0_def ack_error_def observePublish_def ev0_def raw0_def)
  with publish_batch_refines_sequence [OF sub aw] show ?thesis by simp
qed

text \<open>What is published is read back: the sink's parser recovers from the header and body of
  a published message the stored event, with its blob key and the id it voids. The hypothesis
  is the round trip of the event library's JSON methods.\<close>

lemma publish_parse_roundtrip:
  assumes "json_roundtrip L" "MarshalEvent L (RawEvent ev) = Inr body"
  shows "ParseMsg L (build_header L sha ev) body = Inr ev"
  using assms by (simp add: ParseMsg_def json_roundtrip_def)

theorem publish_parse_roundtrip_witness:
  "ParseMsg lib0 (build_header lib0 sha0 ev0) ''r0'' = Inr ev0"
  by (rule publish_parse_roundtrip [OF json_roundtrip_lib0]) (simp add: lib0_def ev0_def)

text \<open>Two events get the same deduplication id exactly if the digests of their header keys
  agree, and the id is 64 hexadecimal characters for a 32-byte digest.\<close>

lemma dedup_id_faithful:
  assumes "\<And>b. length (sha256 b) = 32"
  shows "(MsgID sha256 L a = MsgID sha256 L b \<longleftrightarrow> sha256 (HeaderKey L a) = sha256 (HeaderKey L b)) \<and>
    length (MsgID sha256 L a) = 64"
  using assms by (simp add: MsgID_def length_hex_encode)

theorem dedup_id_faithful_witness:
  "(MsgID sha0 lib0 hdr0 = MsgID sha0 lib0 hdr1 \<longleftrightarrow> sha0 (HeaderKey lib0 hdr0) = sha0 (HeaderKey lib0 hdr1)) \<and>
    length (MsgID sha0 lib0 hdr0) = 64"
  by (rule dedup_id_faithful [OF length_sha0])

text \<open>Each event of a batch that did not panic is counted in exactly one outcome class.\<close>

lemma publish_outcomes_counted:
  assumes "PublishBatch evs p = (p', r)" "\<And>e. r = Some e \<Longrightarrow> \<not> errors_is e RuntimePanic"
  shows "outcome_total p' = outcome_total p + length evs"
  using assms by (rule PublishBatch_no_panic_total)

theorem publish_outcomes_counted_witness:
  "\<exists>p'. Publish ev0 pub0 = (p', None) \<and> outcome_total p' = outcome_total pub0 + 1"
proof -
  obtain p' where "Publish ev0 pub0 = (p', None)" using publish_ev0 ..
  with publish_outcomes_counted [of "[ev0]" pub0 p' None] show ?thesis by (simp add: PublishBatch_def)
qed

section \<open>Streams\<close>

text \<open>C38. When provisioning succeeds, no stream of another partition layout exists, and one
  stream per partition was created or updated, in order, each with its own name, its
  partition's filter, file storage, and rejection of new messages at the size limit.\<close>

theorem ensure_streams_layout:
  assumes "EnsureStreams js cfg s = (s', Inr hs)"
  shows "(\<forall>x\<in>set (fst (StreamNames js s)). has_prefix x StreamName \<longrightarrow>
      x \<in> set (expected_names (Partitions (effective cfg)))) \<and>
    length hs = nat (Partitions (effective cfg)) \<and>
    map fst (create_trace js (effective cfg) [0..<length hs] s) =
      map (streamCfg (effective cfg)) [0..<length hs] \<and>
    distinct (map scName (map (streamCfg (effective cfg)) [0..<length hs])) \<and>
    (\<forall>i. scDiscard (streamCfg (effective cfg) i) = DiscardNew \<and>
         scStorage (streamCfg (effective cfg) i) = FileStorage \<and>
         scSubjects (streamCfg (effective cfg) i) = partitionSubjects i (Partitions (effective cfg)))"
  using assms
proof (rule EnsureStreams_successE)
  let ?c = "effective cfg"
  assume stale: "checkStaleStreams js s (Partitions ?c) = None"
    and c: "create_loop js ?c [0..<nat (Partitions ?c)] s = (s', Inr hs)"
  from create_loop_trace [OF c] have l: "length hs = nat (Partitions ?c)"
    and t: "create_trace js ?c [0..<length hs] s = zip (map (streamCfg ?c) [0..<length hs]) (map Inr hs)"
    by simp_all
  have "map scName (map (streamCfg ?c) [0..<length hs]) = expected_names (Partitions ?c)"
    by (simp add: l streamCfg_def)
  then have "distinct (map scName (map (streamCfg ?c) [0..<length hs]))"
    by (simp only: expected_names_distinct)
  with l t stale show ?thesis
    by (simp add: checkStaleStreams_None_iff streamCfg_def del: map_map)
qed

theorem ensure_streams_layout_witness:
  "\<exists>s' hs. EnsureStreams admin0 (DefaultConfig\<lparr>Partitions := 2\<rparr>) [''DIMO_SIGNALS''] = (s', Inr hs) \<and> length hs = 2"
proof -
  have e: "effective (DefaultConfig\<lparr>Partitions := 2\<rparr>) = DefaultConfig\<lparr>Partitions := 2\<rparr>"
    by (simp add: effective_def)
  have "\<exists>s' hs. EnsureStreams admin0 (DefaultConfig\<lparr>Partitions := 2\<rparr>) [''DIMO_SIGNALS''] = (s', Inr hs)"
    by (simp add: EnsureStreams_effective e checkStaleStreams_def admin0_def has_prefix_def StreamName_def
        numeral_2_eq_2)
  then obtain s' hs where "EnsureStreams admin0 (DefaultConfig\<lparr>Partitions := 2\<rparr>) [''DIMO_SIGNALS''] = (s', Inr hs)"
    by blast
  with ensure_streams_layout [OF this] show ?thesis by (simp add: e)
qed

section \<open>Payloads\<close>

text \<open>Externalizing a payload loses nothing: after a successful split into the filesystem
  store, sealed or not, a reader with the same key resolves the stored event to the payload the
  event carried. The hypotheses are the documented behaviour of the file system and, with a
  key configured, of the AEAD and the random source.\<close>

lemma split_payload_recoverable:
  assumes "wrap_ok c rng (\<lambda>s. posix_files (fs_ops s) view) s"
    "MaybeSplit (New (WrapStore c rng PutObject) prefix threshold) now uuid ev s = (s', Inr sev)"
    "decodePayload ev = Inr payload"
  shows "resolve (opened c (fs_stored view) s') sev = Some payload"
  using assms by (intro fs_sealable.wrapped.split_resolves [where sp = "New (WrapStore c rng PutObject) prefix threshold"]) simp_all

lemma split_payload_recoverable_witness:
  "\<exists>s' sev. MaybeSplit (New (WrapStore (Some aead0) rng0 PutObject) ''p/'' 1) 0 ''u'' raw0 ((), fs0) = (s', Inr sev)
     \<and> DataIndexKey sev \<noteq> [] \<and> resolve (opened (Some aead0) (fs_stored map_of) s') sev = Some ''{}''"
proof -
  have "decodePayload raw0 = Inr ''{}''" by (simp add: decodePayload_def raw0_def)
  with split_payload_recoverable [OF wrap_ok_fs0] split_raw0_external show ?thesis by blast
qed

text \<open>An event left inline carries a payload within the configured threshold, decoded size
  included, and an event moved out keeps its header and no payload.\<close>

lemma split_threshold_respected:
  assumes "MaybeSplit sp now uuid ev s = (s', Inr sev)"
  shows "(DataIndexKey sev = [] \<longrightarrow> RawEvent sev = ev \<and>
      (\<forall>payload. decodePayload ev = Inr payload \<longrightarrow> int (length payload) \<le> sp_threshold sp)) \<and>
    (DataIndexKey sev \<noteq> [] \<longrightarrow>
      RawEvent sev = \<lparr>Header = Header ev, Data = [], DataBase64 = []\<rparr>)"
  using assms
proof (cases rule: MaybeSplit_cases)
  case inline
  then show ?thesis using dataPayloadLen_bound [of ev] by (force simp: inline_event_def)
next
  case (external raw)
  then show ?thesis using buildBlobKey_nonempty by (metis (no_types))
qed

theorem split_threshold_respected_witness:
  "MaybeSplit sp0 0 ''u'' raw0 fs0 = (fs0, Inr ev0) \<and> RawEvent ev0 = raw0 \<and>
   int (length ''{}'') \<le> sp_threshold sp0"
proof -
  have "decodePayload raw0 = Inr ''{}''" "DataIndexKey ev0 = []"
    by (simp_all add: decodePayload_def raw0_def ev0_def)
  with split_threshold_respected [OF MaybeSplit_raw0 [of 0 "''u''" fs0]] MaybeSplit_raw0 show ?thesis by blast
qed

text \<open>The threshold test on a base64 payload uses the upper bound of the decoded length, so a
  payload of exactly the threshold's size can be moved out of the event although the
  documentation says it stays inline: one byte against a threshold of one byte.\<close>

lemma base64_at_threshold_is_externalized:
  "snd (MaybeSplit (New (\<lambda>key body s. (s, None)) ''p/'' 1) 0 ''u''
      \<lparr>Header = hdr0, Data = [], DataBase64 = EncodeToString ''x''\<rparr> ()) \<noteq>
    Inr (inline_event \<lparr>Header = hdr0, Data = [], DataBase64 = EncodeToString ''x''\<rparr>) \<and>
   decodePayload \<lparr>Header = hdr0, Data = [], DataBase64 = EncodeToString ''x''\<rparr> = Inr ''x''"
proof -
  let ?ev = "\<lparr>Header = hdr0, Data = [], DataBase64 = EncodeToString ''x''\<rparr>"
  have d: "decodePayload ?ev = Inr ''x''" 
    by (simp add: decodePayload_def DecodeString_EncodeToString del: EncodeToString.simps)
  have "dataPayloadLen ?ev = 3" by (simp add: dataPayloadLen_def DecodedLen_def Let_def)
  with d show ?thesis
    by (simp add: MaybeSplit_def New_def inline_event_def buildBlobKey_nonempty Let_def)
qed

text \<open>Sealed blobs: a blob that was sealed opens to its plaintext under the same object key;
  conversely a blob with the magic prefix opens only if it is the sealing of the result under
  that object key; a blob without it is returned as it is.\<close>

lemma seal_open_roundtrip:
  assumes "aead_correct c" "rng_full rng"
  shows "(Seal c rng aad p r = (r', Inr blob) \<longrightarrow> IsSealed blob \<and> Open c aad blob = Inr p) \<and>
    (IsSealed blob \<and> Open c aad blob = Inr p \<longrightarrow>
      (\<exists>nonce. length nonce = NonceSize c \<and> blob = magic @ nonce @ aeadSeal c nonce p aad)) \<and>
    (\<not> IsSealed blob \<longrightarrow> Open c aad blob = Inr blob)"
  using Open_Seal [OF assms] Seal_sealed [of c rng] Open_plain [of blob c aad] Open_sealedE [OF assms(1), of blob aad p]
  by metis

lemma seal_open_roundtrip_witness:
  "\<exists>blob. Seal aead0 rng0 ''key'' ''secret'' () = ((), Inr blob) \<and> Open aead0 ''key'' blob = Inr ''secret''"
proof -
  have "\<exists>blob. Seal aead0 rng0 ''key'' ''secret'' () = ((), Inr blob)" by (simp add: Seal_def rng0_def)
  then obtain blob where "Seal aead0 rng0 ''key'' ''secret'' () = ((), Inr blob)" by blast
  with seal_open_roundtrip [OF aead0_correct rng0_full, of "''key''" "''secret''" "()" "()" blob]
  show ?thesis by blast
qed

text \<open>C39. The filesystem store writes objects in one step: a successful put changes exactly the
  object's file, a failed put changes no file but a temporary one, so a reader never sees part
  of an object.\<close>

theorem fsstore_put_atomic:
  assumes "posix_files (fs_ops c) view" "PutObject k b c = (c', r)"
  shows "(r = None \<longrightarrow> view (fs_state c') = (view (fs_state c))(fs_path c k \<mapsto> b)) \<and>
    (r \<noteq> None \<longrightarrow> (\<forall>p. \<not> is_temp p \<longrightarrow> view (fs_state c') p = view (fs_state c) p))"
  using PutObject_success [OF assms(1)] PutObject_failure [OF assms(1)] assms(2) by (cases r) auto

theorem fsstore_put_atomic_witness:
  "\<exists>c'. PutObject ''a/b'' ''x'' fs0 = (c', None) \<and>
     map_of (fs_state c') = (map_of (fs_state fs0))(fs_path fs0 ''a/b'' \<mapsto> ''x'')"
proof -
  obtain c' where c: "PutObject ''a/b'' ''x'' fs0 = (c', None)" using put_fs0 ..
  have "posix_files (fs_ops fs0) map_of" by (simp add: fs0_def posix_os0)
  from fsstore_put_atomic [OF this c] c show ?thesis by blast
qed

section \<open>Conversion\<close>

text \<open>C40. Every event the converter returns has a canonical DID as subject and producer, the
  canonical form of the client's address as source, an allowed type, JSON content and a valid
  id; and it returns at least one. When headers can be marshalled, every failure is a
  validation error.\<close>

theorem convert_canonical:
  "(Convert L G skew now newID src body c = (c', Inr evs) \<longrightarrow>
     evs \<noteq> [] \<and> (\<forall>ev\<in>set evs. connection_event L ev \<and>
       hSource (Header ev) = AddressHex L (HexToAddress L src))) \<and>
   (Convert L G skew now newID src body c = (c', Inl e) \<and> (\<forall>h. \<exists>b. HeaderJSON L h = Inr b) \<longrightarrow>
     errors_is e ErrValidation)"
  using Convert_success [of L G skew now newID src body c c' evs]
    Convert_error [of L G skew now newID src body c c' e] by blast

theorem convert_canonical_witness:
  "connection_event lib0 raw0 \<and> hSource (Header raw0) = AddressHex lib0 (HexToAddress lib0 ''0xA'')"
  using convert_canonical [of lib0 garage0 minute 5000000 "''k1''" "''0xA''" "''{}''" NewConverter NewConverter "[raw0]"]
    Convert_req0 by simp

text \<open>The table of future-timestamp warnings, keyed by strings devices choose, never holds
  more than its bound, with one entry per producer.\<close>

lemma warn_table_bounded:
  assumes "distinct (map fst (lastFutureWarn c))" "length (lastFutureWarn c) \<le> maxFutureWarnProducers"
    "Convert L G skew now newID src body c = (c', r)"
  shows "distinct (map fst (lastFutureWarn c')) \<and> length (lastFutureWarn c') \<le> maxFutureWarnProducers"
  using warn_inv_Convert [OF assms(3)] assms(1,2) by (simp add: warn_inv_def)

theorem warn_table_bounded_witness:
  "length (lastFutureWarn (fst (Convert lib0 garage0 minute (-1000000000000) ''k1'' ''0xA'' ''{}'' NewConverter)))
     \<le> maxFutureWarnProducers"
proof -
  have "distinct (map fst (lastFutureWarn NewConverter))"
    "length (lastFutureWarn NewConverter) \<le> maxFutureWarnProducers"
    by (simp_all add: NewConverter_def)
  from warn_table_bounded [OF this surjective_pairing] show ?thesis by blast
qed

end
