(* ===== verification/Lake_Catalog.thy ===== *)
theory Lake_Catalog
  imports Lake_Writer Fsstore
begin

text \<open>
  \<^verbatim>\<open>internal/lake/lake.go\<close> and \<^verbatim>\<open>internal/lake/ddl.go\<close>: opening the lake. The embedded DuckDB with
  the DuckLake catalog attached is the record \<open>cat_ops\<close> over an opaque state. A statement
  that changes something is sent with its text; a query is sent with \<open>catSelect\<close>, which can
  fail, and its answer is computed from the views of the state the record gives (the rows of
  the tables the query reads). Times of the database are microseconds since the Unix epoch,
  the resolution of its timestamps.
\<close>

section \<open>The database\<close>

datatype sql_arg = AText string | AInt int

type_synonym epoch_us = int

record snapshot_row =
  snapshot_id :: int
  snapshot_time :: epoch_us

record progress_row =
  consumer :: string
  cursor :: int
  updated_at :: epoch_us

record table_row =
  table_name :: string
  file_count :: int
  file_size_bytes :: int

record 'd cat_ops =
  catConnect :: "'d \<Rightarrow> 'd \<times> go_error option"
  catSetMaxOpenConns :: "int \<Rightarrow> 'd \<Rightarrow> 'd"
  catCloseDB :: "'d \<Rightarrow> 'd"
  catMkdirAll :: "string \<Rightarrow> 'd \<Rightarrow> 'd \<times> go_error option"
  catExec :: "string \<Rightarrow> 'd \<Rightarrow> 'd \<times> go_error option"
  catSelect :: "'d \<Rightarrow> 'd \<times> go_error option"
  catQuery :: "string \<Rightarrow> 'd \<Rightarrow> 'd \<times> (nat \<times> go_error option) result"
  catConn :: "'d \<Rightarrow> 'd \<times> nat result"
  catConnExec :: "ctx_kind \<Rightarrow> string \<Rightarrow> sql_arg list \<Rightarrow> nat \<Rightarrow> 'd \<Rightarrow> 'd \<times> go_error option"
  catConnClose :: "nat \<Rightarrow> 'd \<Rightarrow> 'd"
  catBeginTx :: "'d \<Rightarrow> 'd \<times> nat result"
  catTxExec :: "string \<Rightarrow> nat \<Rightarrow> 'd \<Rightarrow> 'd \<times> go_error option"
  catTxQuery :: "string \<Rightarrow> nat \<Rightarrow> 'd \<Rightarrow> 'd \<times> (nat \<times> go_error option) result"
  catTxCommit :: "nat \<Rightarrow> 'd \<Rightarrow> 'd \<times> go_error option"
  catTxRollback :: "nat \<Rightarrow> 'd \<Rightarrow> 'd"
  catWait :: "duration \<Rightarrow> 'd \<Rightarrow> 'd \<times> go_error option"
  catCtxErr :: "'d \<Rightarrow> go_error option"
  catClock :: "'d \<Rightarrow> go_time"
  catTick :: "'d \<Rightarrow> 'd \<times> bool"
  catNow :: "'d \<Rightarrow> epoch_us"
  catProgress :: "'d \<Rightarrow> progress_row list"
  catSnapshots :: "'d \<Rightarrow> snapshot_row list"
  catTableInfo :: "'d \<Rightarrow> table_row list"
  catPause :: "'d \<Rightarrow> epoch_us list"
  catHasTable :: "string \<Rightarrow> 'd \<Rightarrow> bool"
  catPartitionColumns :: "'d \<Rightarrow> nat"
  catSortSpecs :: "'d \<Rightarrow> nat"
  catEncrypted :: "'d \<Rightarrow> bool option"

text \<open>A Go function body that returns at the first error.\<close>

definition err_then :: "('d \<Rightarrow> 'd \<times> go_error option) \<Rightarrow> ('d \<Rightarrow> 'd \<times> go_error option) \<Rightarrow> 'd \<Rightarrow> 'd \<times> go_error option" where
  "err_then f g d = (case f d of (d1, Some e) \<Rightarrow> (d1, Some e) | (d1, None) \<Rightarrow> g d1)"

definition wrap_err :: "string \<Rightarrow> ('d \<Rightarrow> 'd \<times> go_error option) \<Rightarrow> 'd \<Rightarrow> 'd \<times> go_error option" where
  "wrap_err p f d = (case f d of (d1, Some e) \<Rightarrow> (d1, Some (errorf p e '''')) | (d1, None) \<Rightarrow> (d1, None))"

fun exec_all :: "('d \<Rightarrow> 'd \<times> go_error option) list \<Rightarrow> 'd \<Rightarrow> 'd \<times> go_error option" where
  "exec_all [] d = (d, None)"
| "exec_all (f # fs) d = err_then f (exec_all fs) d"

section \<open>Text\<close>

definition sq :: char where "sq = ch 39"

definition show_bool :: "bool \<Rightarrow> string" where
  "show_bool b = (if b then ''true'' else ''false'')"

text \<open>\<^verbatim>\<open>sqlString\<close>: the quote is doubled (\<^verbatim>\<open>strings.ReplaceAll\<close>).\<close>

definition escape_quotes :: "string \<Rightarrow> string" where
  "escape_quotes v = concat (map (\<lambda>c. if c = sq then [sq, sq] else [c]) v)"

definition sqlString :: "string \<Rightarrow> string" where
  "sqlString v = [sq] @ escape_quotes v @ [sq]"

definition credentialBearing :: "string \<Rightarrow> bool" where
  "credentialBearing q \<longleftrightarrow> contains q ''SECRET'' \<or> contains q ''ATTACH''"

text \<open>\<^verbatim>\<open>WriteRune\<close>: the UTF-8 encoding of a rune.\<close>

definition encode_rune :: "nat \<Rightarrow> string" where
  "encode_rune r =
     map ch (if r < 0x80 then [r]
      else if r < 0x800 then [0xC0 + r div 64, 0x80 + r mod 64]
      else if r < 0x10000 then [0xE0 + r div 4096, 0x80 + r div 64 mod 64, 0x80 + r mod 64]
      else [0xF0 + r div 262144, 0x80 + r div 4096 mod 64, 0x80 + r div 64 mod 64, 0x80 + r mod 64])"

text \<open>The placeholder: an ellipsis (U+2026) between quotes.\<close>

definition placeholder :: string where
  "placeholder = [sq, ch 0xE2, ch 0x80, ch 0xA6, sq]"

fun scrub_loop :: "bool \<Rightarrow> nat list \<Rightarrow> string" where
  "scrub_loop inQuote [] = ''''"
| "scrub_loop inQuote (r # rs) =
     (if r = 39 \<and> \<not> inQuote then placeholder @ scrub_loop True rs
      else if r = 39 \<and> inQuote then scrub_loop False rs
      else if \<not> inQuote then encode_rune r @ scrub_loop inQuote rs
      else scrub_loop inQuote rs)"

definition scrubQuotedLiterals :: "string \<Rightarrow> string" where
  "scrubQuotedLiterals s = scrub_loop False (runes s)"

definition redact :: "string \<Rightarrow> string" where
  "redact q = (if \<not> credentialBearing q then q else scrubQuotedLiterals q)"

definition redactErr :: "string \<Rightarrow> go_error \<Rightarrow> go_error" where
  "redactErr q err =
     (if \<not> credentialBearing q then err else errors_new (scrubQuotedLiterals (err_text err)))"

section \<open>Configuration\<close>

record lake_config =
  CatalogDSN :: string
  DataPath :: string
  S3Region :: string
  S3AccessKeyID :: string
  S3SecretAccessKey :: string
  S3Endpoint :: string
  S3KMSKeyID :: string
  Encrypted :: bool
  cfgMemoryLimit :: string
  Threads :: int
  TargetFileSize :: string
  RowGroupSize :: int
  Compression :: string
  ParquetVersion :: string
  ExtensionDir :: string
  TempDirectory :: string
  MaxConns :: int

definition isPostgresDSN :: "string \<Rightarrow> bool" where
  "isPostgresDSN dsn \<longleftrightarrow> has_prefix dsn ''postgres://'' \<or> has_prefix dsn ''postgresql://'' \<or>
     contains dsn ''host='' \<or> contains dsn ''dbname=''"

definition catalogURI :: "string \<Rightarrow> string" where
  "catalogURI dsn =
     (if isPostgresDSN dsn then ''ducklake:postgres:'' @ dsn else ''ducklake:'' @ dsn)"

definition pgCatalogConnectTimeout :: nat where "pgCatalogConnectTimeout = 10"

definition withCatalogConnectTimeout :: "string \<Rightarrow> string" where
  "withCatalogConnectTimeout dsn =
     (if \<not> isPostgresDSN dsn \<or> contains dsn ''connect_timeout'' then dsn
      else if has_prefix dsn ''postgres://'' \<or> has_prefix dsn ''postgresql://''
        then dsn @ (if CHR ''?'' \<in> set dsn then ''&'' else ''?'') @ ''connect_timeout='' @ show_nat pgCatalogConnectTimeout
      else dsn @ '' connect_timeout='' @ show_nat pgCatalogConnectTimeout)"

definition metaTarget :: "string \<Rightarrow> string" where
  "metaTarget catalogDSN =
     (if isPostgresDSN catalogDSN then catalogDSN else catalogDSN @ ''.progress.db'')"

definition metaAttachOpts :: "string \<Rightarrow> string" where
  "metaAttachOpts catalogDSN = (if isPostgresDSN catalogDSN then '' (TYPE postgres)'' else '''')"

definition parquetVersionLiteral :: "string \<Rightarrow> string" where
  "parquetVersionLiteral v = (if v = ''1'' \<or> v = ''2'' then v else '''')"

definition compressionLiteral :: "string \<Rightarrow> string" where
  "compressionLiteral v =
     (let c = to_lower v
      in if c \<in> {''zstd'', ''lz4'', ''snappy'', ''uncompressed''} then c else ''snappy'')"

text \<open>\<open>parseURL\<close> is \<^verbatim>\<open>url.Parse\<close>: the scheme and the host.\<close>

definition s3_location_parts :: "(string \<Rightarrow> (string \<times> string) result) \<Rightarrow> lake_config \<Rightarrow> string list" where
  "s3_location_parts parseURL cfg =
     (if S3Region cfg \<noteq> [] then [''REGION '' @ sqlString (S3Region cfg)] else [])
     @ (if S3KMSKeyID cfg \<noteq> [] then [''KMS_KEY_ID '' @ sqlString (S3KMSKeyID cfg)] else [])
     @ (if S3Endpoint cfg = [] then []
        else let (host, useSSL) =
                   (case parseURL (S3Endpoint cfg) of
                      Inr (scheme, h) \<Rightarrow>
                        if h \<noteq> [] then (h, scheme \<noteq> ''http'') else (S3Endpoint cfg, True)
                    | Inl _ \<Rightarrow> (S3Endpoint cfg, True))
             in [''ENDPOINT '' @ sqlString host, ''URL_STYLE '' @ [sq] @ ''path'' @ [sq],
                 ''USE_SSL '' @ show_bool useSSL])"

definition s3SecretSQL :: "(string \<Rightarrow> (string \<times> string) result) \<Rightarrow> lake_config \<Rightarrow> string" where
  "s3SecretSQL parseURL cfg =
     (let parts = [''TYPE s3''] @
            (if S3AccessKeyID cfg \<noteq> []
             then [''PROVIDER config'', ''KEY_ID '' @ sqlString (S3AccessKeyID cfg),
                   ''SECRET '' @ sqlString (S3SecretAccessKey cfg)]
             else [''PROVIDER credential_chain'']) @
            s3_location_parts parseURL cfg
      in ''CREATE OR REPLACE SECRET lake_s3 ('' @ intercalate '', '' parts @ '')'')"

section \<open>Schema\<close>

definition RawTable :: string where "RawTable = ''raw_events''"

definition nl_tab :: "nat \<Rightarrow> string" where "nl_tab n = [CHR 0x0A] @ replicate n (CHR 0x09)"

definition rawEventsCreate :: string where
  \<open>rawEventsCreate =
     ''CREATE TABLE IF NOT EXISTS lake.raw_events ('' @ nl_tab 2 @
     intercalate ('','' @ nl_tab 2)
       [''subject VARCHAR'', ''"time" TIMESTAMP WITH TIME ZONE'', ''type VARCHAR'', ''id VARCHAR'',
        ''source VARCHAR'', ''producer VARCHAR'', ''data_content_type VARCHAR'', ''data_version VARCHAR'',
        ''extras VARCHAR'', ''data VARCHAR'', ''data_base64 BLOB'', ''data_index_key VARCHAR'',
        ''voids_id VARCHAR''] @ '')''\<close>

definition layout_partitioned :: string where
  \<open>layout_partitioned =
     ''ALTER TABLE lake.raw_events SET PARTITIONED BY (type, year("time"), month("time"), day("time"))''\<close>

definition layout_sorted :: string where
  \<open>layout_sorted = ''ALTER TABLE lake.raw_events SET SORTED BY (subject, "time")''\<close>

definition rawEventsLayout :: "string list" where
  "rawEventsLayout = [layout_partitioned, layout_sorted]"

definition rawEventsDDL :: "string list" where
  "rawEventsDDL = [rawEventsCreate] @ rawEventsLayout"

definition consumerProgressDDL :: string where
  "consumerProgressDDL =
     ''CREATE TABLE IF NOT EXISTS meta.din_consumer_progress ('' @ nl_tab 1 @ ''consumer VARCHAR,''
     @ nl_tab 1 @ ''snapshot_id BIGINT,'' @ nl_tab 1 @ ''updated_at TIMESTAMP WITH TIME ZONE)''"

section \<open>The backfill pause\<close>

definition backfillPauseStaleness :: duration where "backfillPauseStaleness = 30 * minute"

definition ensureBackfillPauseTable :: "'d cat_ops \<Rightarrow> 'd \<Rightarrow> 'd \<times> go_error option" where
  "ensureBackfillPauseTable l =
     catExec l ''CREATE TABLE IF NOT EXISTS meta.lake_backfill_pause (updated_at TIMESTAMP WITH TIME ZONE)''"

text \<open>The deferred rollback runs on every path after the transaction began; after a commit it
  does nothing (\<^verbatim>\<open>sql.ErrTxDone\<close>), which is left to \<open>catTxRollback\<close>.\<close>

definition heartbeatBackfillPause :: "'d cat_ops \<Rightarrow> 'd \<Rightarrow> 'd \<times> go_error option" where
  "heartbeatBackfillPause l d =
     err_then (ensureBackfillPauseTable l)
       (\<lambda>d1. case catBeginTx l d1 of
               (d2, Inl e) \<Rightarrow> (d2, Some e)
             | (d2, Inr tx) \<Rightarrow>
                 (case err_then (catTxExec l ''DELETE FROM meta.lake_backfill_pause'' tx)
                         (err_then (catTxExec l ''INSERT INTO meta.lake_backfill_pause (updated_at) VALUES (now())'' tx)
                            (catTxCommit l tx)) d2 of
                    (d3, r) \<Rightarrow> (catTxRollback l tx d3, r))) d"

definition clearBackfillPause :: "'d cat_ops \<Rightarrow> 'd \<Rightarrow> 'd \<times> go_error option" where
  "clearBackfillPause l =
     err_then (ensureBackfillPauseTable l) (catExec l ''DELETE FROM meta.lake_backfill_pause'')"

definition pause_fresh :: "'d cat_ops \<Rightarrow> 'd \<Rightarrow> bool" where
  "pause_fresh l d \<longleftrightarrow>
     (\<exists>u\<in>set (catPause l d). catNow l d - u < whole_seconds backfillPauseStaleness * 1000000)"

definition backfillPauseActive :: "'d cat_ops \<Rightarrow> 'd \<Rightarrow> 'd \<times> bool result" where
  "backfillPauseActive l d =
     (case ensureBackfillPauseTable l d of
        (d1, Some e) \<Rightarrow> (d1, Inl e)
      | (d1, None) \<Rightarrow>
          (case catSelect l d1 of
             (d2, Some e) \<Rightarrow> (d2, Inl e)
           | (d2, None) \<Rightarrow> (d2, Inr (pause_fresh l d2))))"

section \<open>Layout\<close>

definition isPartitioned :: "'d cat_ops \<Rightarrow> 'd \<Rightarrow> 'd \<times> bool result" where
  "isPartitioned l d =
     (case catSelect l d of
        (d1, Some e) \<Rightarrow> (d1, Inl e) | (d1, None) \<Rightarrow> (d1, Inr (0 < catPartitionColumns l d1)))"

definition isSorted :: "'d cat_ops \<Rightarrow> 'd \<Rightarrow> 'd \<times> bool result" where
  "isSorted l d =
     (case catSelect l d of
        (d1, Some e) \<Rightarrow> (d1, Inl e) | (d1, None) \<Rightarrow> (d1, Inr (0 < catSortSpecs l d1)))"

definition ok_true :: "bool result \<Rightarrow> bool" where
  "ok_true r = (case r of Inr b \<Rightarrow> b | Inl _ \<Rightarrow> False)"

definition assert_spec :: "'d cat_ops \<Rightarrow> bool \<Rightarrow> string \<Rightarrow> 'd \<Rightarrow> 'd \<times> go_error option" where
  "assert_spec l present q d =
     (if present then (d, None)
      else wrap_err (''lake re-assert layout '' @ fmt_q q @ '': '') (catExec l q) d)"

definition reassertLayout :: "'d cat_ops \<Rightarrow> 'd \<Rightarrow> 'd \<times> go_error option" where
  "reassertLayout l d =
     (case backfillPauseActive l d of
        (d1, paused) \<Rightarrow>
          if ok_true paused then (d1, None)
          else case isPartitioned l d1 of
            (d2, partitioned) \<Rightarrow>
              (case isSorted l d2 of
                 (d3, sorted_r) \<Rightarrow>
                   err_then (assert_spec l (ok_true partitioned) layout_partitioned)
                     (assert_spec l (ok_true sorted_r) layout_sorted) d3))"

definition tryEnsureSchema :: "'d cat_ops \<Rightarrow> 'd \<Rightarrow> 'd \<times> go_error option" where
  "tryEnsureSchema l d =
     (case catSelect l d of
        (d1, Some e) \<Rightarrow> (d1, Some (errorf ''lake: checking schema: '' e ''''))
      | (d1, None) \<Rightarrow>
          if catHasTable l RawTable d1 then reassertLayout l d1
          else exec_all (map (\<lambda>q. wrap_err (''lake schema '' @ fmt_q q @ '': '') (catExec l q)) rawEventsDDL) d1)"

definition ensureSchema :: "'d cat_ops \<Rightarrow> 'd \<Rightarrow> 'd \<times> go_error option" where
  "ensureSchema l = retryCatalog (catWait l) (tryEnsureSchema l)"

section \<open>Options\<close>

definition duckdbDefaultRowGroupSize :: int where "duckdbDefaultRowGroupSize = 122880"

record lake_option =
  optName :: string
  optValueSQL :: string
  optTable :: string

definition write_options :: "lake_config \<Rightarrow> lake_option list" where
  "write_options cfg =
     [\<lparr>optName = ''parquet_compression'', optValueSQL = sqlString (compressionLiteral (Compression cfg)), optTable = ''''\<rparr>,
      \<lparr>optName = ''parquet_row_group_size'', optValueSQL = show_int duckdbDefaultRowGroupSize, optTable = ''''\<rparr>]
     @ (let v = parquetVersionLiteral (ParquetVersion cfg)
        in if v \<noteq> [] then [\<lparr>optName = ''parquet_version'', optValueSQL = v, optTable = ''''\<rparr>] else [])
     @ (if TargetFileSize cfg \<noteq> []
        then [\<lparr>optName = ''target_file_size'', optValueSQL = sqlString (TargetFileSize cfg), optTable = ''''\<rparr>] else [])
     @ (if 0 < RowGroupSize cfg
        then [\<lparr>optName = ''parquet_row_group_size'', optValueSQL = show_int (RowGroupSize cfg), optTable = RawTable\<rparr>] else [])"

definition set_option_sql :: "lake_option \<Rightarrow> string" where
  "set_option_sql opt =
     (if optTable opt \<noteq> []
      then ''CALL lake.set_option('' @ sqlString (optName opt) @ '', '' @ optValueSQL opt @
           '', table_name => '' @ sqlString (optTable opt) @ '')''
      else ''CALL lake.set_option('' @ sqlString (optName opt) @ '', '' @ optValueSQL opt @ '')'')"

definition tryAssertOptions :: "'d cat_ops \<Rightarrow> lake_config \<Rightarrow> 'd \<Rightarrow> 'd \<times> go_error option" where
  "tryAssertOptions l cfg =
     exec_all (map (\<lambda>opt. wrap_err (''lake set_option '' @ optName opt @ '': '') (catExec l (set_option_sql opt)))
       (write_options cfg))"

definition assertOptions :: "'d cat_ops \<Rightarrow> lake_config \<Rightarrow> 'd \<Rightarrow> 'd \<times> go_error option" where
  "assertOptions l cfg = retryCatalog (catWait l) (tryAssertOptions l cfg)"

section \<open>Opening\<close>

definition assertEncryptionState :: "'d cat_ops \<Rightarrow> lake_config \<Rightarrow> 'd \<Rightarrow> 'd \<times> go_error option" where
  "assertEncryptionState l cfg d =
     (case catSelect l d of
        (d1, Some e) \<Rightarrow> (d1, Some (errorf ''lake: reading catalog encryption state: '' e ''''))
      | (d1, None) \<Rightarrow>
          (case catEncrypted l d1 of
             None \<Rightarrow> (d1, None)
           | Some actual \<Rightarrow>
               if actual \<noteq> Encrypted cfg
               then (d1, Some (errors_new
                 (''lake: catalog encryption mismatch '' @ [ch 0xE2, ch 0x80, ch 0x94] @
                  '' catalog is encrypted='' @ show_bool actual @
                  '' but LAKE_ENCRYPTION_ENABLED='' @ show_bool (Encrypted cfg) @
                  ''; encryption is fixed at catalog creation and cannot be changed on an existing catalog (create a fresh catalog to change it)'')))
               else (d1, None)))"

definition attach_lake :: "lake_config \<Rightarrow> string" where
  "attach_lake cfg =
     ''ATTACH IF NOT EXISTS '' @ sqlString (catalogURI (withCatalogConnectTimeout (CatalogDSN cfg))) @ '' AS lake ('' @
     intercalate '', '' ([''DATA_PATH '' @ sqlString (DataPath cfg)] @ (if Encrypted cfg then [''ENCRYPTED''] else [])) @ '')''"

definition attach_meta :: "lake_config \<Rightarrow> string" where
  "attach_meta cfg =
     (let dsn = withCatalogConnectTimeout (CatalogDSN cfg)
      in ''ATTACH IF NOT EXISTS '' @ sqlString (metaTarget dsn) @ '' AS meta'' @ metaAttachOpts dsn)"

definition bootstrap_setup :: "(string \<Rightarrow> (string \<times> string) result) \<Rightarrow> lake_config \<Rightarrow> string list" where
  "bootstrap_setup parseURL cfg =
     (if ExtensionDir cfg \<noteq> [] then [''SET extension_directory = '' @ sqlString (ExtensionDir cfg)] else [])
     @ (if cfgMemoryLimit cfg \<noteq> [] then [''SET memory_limit = '' @ sqlString (cfgMemoryLimit cfg)] else [])
     @ (if TempDirectory cfg \<noteq> [] then [''SET temp_directory = '' @ sqlString (TempDirectory cfg)] else [])
     @ (if 0 < Threads cfg then [''SET threads = '' @ show_int (Threads cfg)] else [])
     @ [''SET preserve_insertion_order = false'']
     @ [''INSTALL ducklake'', ''LOAD ducklake'']
     @ (if isPostgresDSN (CatalogDSN cfg) then [''INSTALL postgres'', ''LOAD postgres''] else [])
     @ (if has_prefix (DataPath cfg) ''s3://'' then [''INSTALL httpfs'', ''LOAD httpfs'', s3SecretSQL parseURL cfg] else [])
     @ [attach_lake cfg, attach_meta cfg]"

definition run_setup :: "'d cat_ops \<Rightarrow> string \<Rightarrow> 'd \<Rightarrow> 'd \<times> go_error option" where
  "run_setup l q d =
     (case catExec l q d of
        (d1, Some e) \<Rightarrow>
          (d1, Some (errorf (''lake bootstrap '' @ fmt_q (redact q) @ '': '') (redactErr q e) ''''))
      | (d1, None) \<Rightarrow> (d1, None))"

definition bootstrap ::
  "(string \<Rightarrow> (string \<times> string) result) \<Rightarrow> 'd cat_ops \<Rightarrow> lake_config \<Rightarrow> 'd \<Rightarrow> 'd \<times> go_error option" where
  "bootstrap parseURL l cfg =
     err_then (exec_all (map (run_setup l) (bootstrap_setup parseURL cfg)))
       (err_then (assertEncryptionState l cfg)
          (err_then (wrap_err ''lake bootstrap consumer-progress table: ''
                       (retryCatalog (catWait l) (catExec l consumerProgressDDL)))
             (err_then (ensureSchema l) (assertOptions l cfg))))"

text \<open>\<^verbatim>\<open>filepath.Dir\<close> of any path: \<^verbatim>\<open>Clean\<close> of what stands up to the last slash.\<close>

definition rel_step :: "string list \<Rightarrow> string \<Rightarrow> string list" where
  "rel_step acc c =
     (if c = [] \<or> c = ''.'' then acc
      else if c = ''..'' \<and> acc \<noteq> [] \<and> last acc \<noteq> ''..'' then butlast acc else acc @ [c])"

definition dir_of :: "string \<Rightarrow> string" where
  "dir_of p =
     (let comps = butlast (split_on CHR ''/'' p)
      in if filepath_IsAbs p then rooted (foldl clean_step [] comps)
         else let cs = foldl rel_step [] comps in if cs = [] then ''.'' else intercalate ''/'' cs)"

definition Open_lake ::
  "(string \<Rightarrow> (string \<times> string) result) \<Rightarrow> 'd cat_ops \<Rightarrow> lake_config \<Rightarrow> 'd \<Rightarrow> 'd \<times> go_error option" where
  "Open_lake parseURL l cfg d =
     (if CatalogDSN cfg = [] \<or> DataPath cfg = []
      then (d, Some (errors_new ''lake: CatalogDSN and DataPath are required''))
      else err_then
        (\<lambda>d. if isPostgresDSN (CatalogDSN cfg) then (d, None)
             else wrap_err ''lake: creating catalog dir: '' (catMkdirAll l (dir_of (CatalogDSN cfg))) d)
        (err_then (wrap_err ''lake: opening duckdb: '' (catConnect l))
           (\<lambda>d1. case bootstrap parseURL l cfg
                        (catSetMaxOpenConns l (if MaxConns cfg = 0 then 8 else MaxConns cfg) d1) of
                   (d2, Some e) \<Rightarrow> (catCloseDB l d2, Some e)
                 | (d2, None) \<Rightarrow> (d2, None))) d)"

section \<open>Lemmas: quoting and redaction\<close>

text \<open>An ASCII byte never ends up inside a multi-byte rune, so the decoder can be cut there.\<close>

lemma decode_rune_append_ascii:
  assumes "b < 0x80" "xs \<noteq> []"
  shows "decode_rune (xs @ b # ys) = decode_rune xs"
proof -
  from assms(2) obtain b0 bs where x: "xs = b0 # bs" by (cases xs) auto
  have nc: "b < second_lo n" "\<not> cont b" for n
    using assms(1) by (simp_all add: second_lo_def cont_def)
  consider "bs = []" | b1 where "bs = [b1]" | b1 b2 where "bs = [b1, b2]"
    | b1 b2 b3 r where "bs = b1 # b2 # b3 # r"
    by (metis list.exhaust)
  then show ?thesis by cases (simp_all add: x nc)
qed

lemma decode_rune_width_le: "xs \<noteq> [] \<Longrightarrow> snd (decode_rune xs) \<le> length xs"
  by (cases xs rule: decode_rune.cases) (auto split: list.splits)

lemma runes_of_append_ascii:
  assumes "b < 0x80"
  shows "runes_of (xs @ b # ys) = runes_of xs @ b # runes_of ys"
proof (induction xs rule: runes_of.induct)
  case 1
  show ?case using assms by simp
next
  case (2 x xs)
  have d: "decode_rune (x # xs @ b # ys) = decode_rune (x # xs)"
    using decode_rune_append_ascii [OF assms, of "x # xs" ys] by simp
  have w: "snd (decode_rune (x # xs)) \<le> length (x # xs)" by (rule decode_rune_width_le) simp
  then have "drop (snd (decode_rune (x # xs))) (x # xs @ b # ys) = drop (snd (decode_rune (x # xs))) (x # xs) @ b # ys"
    using drop_append [of "snd (decode_rune (x # xs))" "x # xs" "b # ys"] by simp
  with 2 d show ?case by simp
qed

lemma of_char_sq [simp]: "of_char sq = (39 :: nat)"
  by (simp add: sq_def)

lemma runes_append_sq: "runes (s @ sq # t) = runes s @ 39 # runes t"
  by (simp add: runes_def runes_of_append_ascii)

lemma scrub_loop_append:
  "scrub_loop q (as @ bs) = scrub_loop q as @ scrub_loop (q \<noteq> odd (length (filter (\<lambda>r. r = 39) as))) bs"
  by (induction as arbitrary: q) auto

lemma filter_eq_Nil: "x \<notin> set v \<Longrightarrow> filter (\<lambda>c. c = x) v = []"
  by (auto simp: filter_empty_conv)

lemma runes_of_quotes: "length (filter (\<lambda>r. r = 39) (runes_of (map of_char s))) = length (filter (\<lambda>c. c = sq) s)"
proof (induction "length s" arbitrary: s rule: less_induct)
  case less
  show ?case
  proof (cases "sq \<in> set s")
    case True
    then obtain a b where s: "s = a @ sq # b" "sq \<notin> set a" by (meson split_list_first)
    then have "length a < length s" "length b < length s" by simp_all
    with less [of a] less [of b] s(1) show ?thesis by (simp add: runes_of_append_ascii)
  next
    case False
    have "39 \<notin> set (runes_of bs)" if "39 \<notin> set bs" for bs
      using that
    proof (induction bs rule: runes_of.induct)
      case (2 b bs)
      have ne: "fst (decode_rune (b # bs)) \<noteq> 39"
        using "2.prems" by (auto simp: rune_error_def second_lo_def second_hi_def split: list.splits if_splits)
      have "39 \<notin> set (drop (snd (decode_rune (b # bs))) (b # bs))"
        using "2.prems" by (meson in_set_dropD)
      with 2 ne show ?case by simp
    qed simp
    moreover have "39 \<notin> (of_char ` set s :: nat set)"
      using False by (metis (no_types, lifting) char_of_char imageE sq_def)
    ultimately have "39 \<notin> set (runes_of (map of_char s))" by (metis list.set_map)
    then show ?thesis by (simp only: filter_eq_Nil [OF False] filter_eq_Nil list.size(3) if_True simp_thms)
  qed
qed

lemma escape_quotes_append [simp]: "escape_quotes (a @ b) = escape_quotes a @ escape_quotes b"
  by (simp add: escape_quotes_def)

lemma escape_quotes_no: "sq \<notin> set a \<Longrightarrow> escape_quotes a = a"
  by (induction a) (auto simp: escape_quotes_def)

text \<open>A literal inside a statement: its body leaves no trace but the number of quotes in it.\<close>

lemma scrub_body: "scrub_loop True (runes (escape_quotes v @ sq # t)) =
    concat (replicate (length (filter (\<lambda>c. c = sq) v)) placeholder) @ scrub_loop False (runes t)"
proof (induction "length v" arbitrary: v rule: less_induct)
  case less
  have skip: "scrub_loop True rs = ''''" if "39 \<notin> set rs" for rs
    using that by (induction rs) auto
  have nq: "39 \<notin> set (runes a)" if "sq \<notin> set a" for a
    using runes_of_quotes [of a] that
    by (metis (mono_tags, lifting) filter_False filter_empty_conv length_0_conv runes_def)
  have par: "even (length (filter (\<lambda>r. r = 39) (runes a)))" if "sq \<notin> set a" for a
    using nq [OF that] by (metis (mono_tags, lifting) even_zero filter_False list.size(3))
  show ?case
  proof (cases "sq \<in> set v")
    case False
    then show ?thesis
      by (simp add: escape_quotes_no runes_append_sq scrub_loop_append skip nq par filter_eq_Nil)
  next
    case True
    then obtain a b where v: "v = a @ sq # b" "sq \<notin> set a" by (meson split_list_first)
    have e: "escape_quotes v @ sq # t = a @ sq # [] @ sq # (escape_quotes b @ sq # t)"
      using v by (simp add: escape_quotes_no) (simp add: escape_quotes_def)
    have "length b < length v" using v by simp
    note IH = less [OF this]
    have "scrub_loop True (runes (escape_quotes v @ sq # t)) =
        placeholder @ scrub_loop True (runes (escape_quotes b @ sq # t))"
      unfolding e runes_append_sq using v(2) nq par skip
      by (simp add: scrub_loop_append) (simp add: runes_def)
    with IH v show ?thesis by (simp add: filter_eq_Nil)
  qed
qed

lemma scrub_literal:
  assumes "even (length (filter (\<lambda>c. c = sq) p))"
  shows "scrubQuotedLiterals (p @ sqlString v @ t) =
     scrubQuotedLiterals p @ concat (replicate (Suc (length (filter (\<lambda>c. c = sq) v))) placeholder)
       @ scrubQuotedLiterals t"
proof -
  have "p @ sqlString v @ t = p @ sq # (escape_quotes v @ sq # t)" by (simp add: sqlString_def)
  moreover have "even (length (filter (\<lambda>r. r = 39) (runes p)))"
    using assms runes_of_quotes [of p] by (simp add: runes_def)
  moreover have "scrub_loop False (runes (p @ sq # u)) = scrubQuotedLiterals p @ placeholder @ scrub_loop True (runes u)"
    if "even (length (filter (\<lambda>r. r = 39) (runes p)))" for u
    unfolding runes_append_sq scrub_loop_append scrubQuotedLiterals_def using that by simp
  ultimately show ?thesis
    unfolding scrubQuotedLiterals_def [of "p @ _"] by (simp add: scrub_body scrubQuotedLiterals_def [of t])
qed

lemma sqlString_even: "even (length (filter (\<lambda>c. c = sq) (sqlString v)))"
proof -
  have "even (length (filter (\<lambda>c. c = sq) (escape_quotes v)))"
    by (induction v) (auto simp: escape_quotes_def)
  then show ?thesis by (simp add: sqlString_def)
qed

end
