(* ===== verification/Float64.thy ===== *)
theory Float64
  imports Complex_Main Din_Prelude
begin

text \<open>
  Go's \<^verbatim>\<open>float64\<close>, as far as the program uses it: comparisons, which are exact, and the
  conversions to and from integers. A number is its exact value; both zeros are \<open>Fin 0\<close>.
  Printing and parsing decimal text belong to \<^verbatim>\<open>fmt\<close> and \<^verbatim>\<open>strconv\<close> and are the record
  \<open>float_lib\<close>.
\<close>

datatype float64 = NaN | PosInf | NegInf | Fin rat

record float_lib =
  ParseFloat :: "string \<Rightarrow> float64 option"
  FormatG :: "float64 \<Rightarrow> string"

fun f_less :: "float64 \<Rightarrow> float64 \<Rightarrow> bool" where
  "f_less (Fin a) (Fin b) = (a < b)"
| "f_less NegInf b = (b \<noteq> NaN \<and> b \<noteq> NegInf)"
| "f_less (Fin a) b = (b = PosInf)"
| "f_less PosInf b = False"
| "f_less NaN b = False"

definition f_eq :: "float64 \<Rightarrow> float64 \<Rightarrow> bool" where
  "f_eq a b \<longleftrightarrow> a \<noteq> NaN \<and> a = b"

definition f_le :: "float64 \<Rightarrow> float64 \<Rightarrow> bool" where
  "f_le a b \<longleftrightarrow> f_less a b \<or> f_eq a b"

text \<open>Multiplication by a positive power of two: exact (an overflow is out of the range of the
  conversion that follows it).\<close>

fun f_scale :: "float64 \<Rightarrow> int \<Rightarrow> float64" where
  "f_scale (Fin q) k = Fin (q * of_int k)"
| "f_scale x k = x"

text \<open>Truncation towards zero, and \<^verbatim>\<open>int64(x)\<close>: outside the range, and on the values that are not
  finite, the result is the one of amd64.\<close>

definition rat_trunc :: "rat \<Rightarrow> int" where
  "rat_trunc q = (if q < 0 then - \<lfloor>- q\<rfloor> else \<lfloor>q\<rfloor>)"

fun f_to_int64 :: "float64 \<Rightarrow> int" where
  "f_to_int64 (Fin q) = (if in_int64 (rat_trunc q) then rat_trunc q else - (2 ^ 63))"
| "f_to_int64 x = - (2 ^ 63)"

text \<open>\<^verbatim>\<open>float64(x)\<close> of an integer that is not negative: 53 significant bits, ties to even.\<close>

fun bit_len :: "nat \<Rightarrow> nat" where
  "bit_len n = (if n = 0 then 0 else Suc (bit_len (n div 2)))"

declare bit_len.simps [simp del]

definition round53 :: "int \<Rightarrow> int" where
  "round53 x =
     (let k = bit_len (nat x) - 53; u = 2 ^ k; q = x div u; r = x mod u
      in if 2 * r < u \<or> (2 * r = u \<and> even q) then q * u else (q + 1) * u)"

lemma f_le_Fin [simp]: "f_le (Fin a) (Fin b) \<longleftrightarrow> a \<le> b"
  by (auto simp: f_le_def f_eq_def)

lemma not_f_less_NaN [simp]: "\<not> f_less NaN a" "\<not> f_less a NaN"
  by (cases a; simp)+

lemma bit_len_le: "n < 2 ^ k \<Longrightarrow> bit_len n \<le> k"
proof (induction k arbitrary: n)
  case 0
  then show ?case by (simp add: bit_len.simps)
next
  case (Suc k)
  then have "n div 2 < 2 ^ k" by auto
  with Suc.IH [of "n div 2"] show ?case by (simp add: bit_len.simps [of n])
qed

lemma round53_exact: "0 \<le> x \<Longrightarrow> x < 2 ^ 53 \<Longrightarrow> round53 x = x"
proof -
  assume "0 \<le> x" "x < 2 ^ 53"
  then have "nat x < 2 ^ 53" by (simp add: nat_less_iff)
  then have "bit_len (nat x) - 53 = 0" using bit_len_le [of "nat x" 53] by simp
  then show ?thesis by (simp add: round53_def)
qed

end
