(* ===== verification/Maintain.thy ===== *)
theory Maintain
  imports Lake_Catalog Float64
begin

text \<open>
  \<^verbatim>\<open>internal/lake/consumer.go\<close> and \<^verbatim>\<open>internal/lake/maintain.go\<close>: the progress table of the
  downstream consumers and the maintenance cycle of the lake, with its expiry of old
  snapshots held back by the slowest live consumer, its bounded merges and its restart
  backstop.

  An epoch the code carries as a \<^verbatim>\<open>float64\<close> number of seconds is here its whole number of
  microseconds, the resolution of the timestamps it comes from and of the verb \<^verbatim>\<open>%f\<close> that prints
  it. The merge loop ends when the wall clock passes its deadline; it takes a number of
  iterations as fuel and is \<open>None\<close> when they do not suffice. Durations of steps and log lines
  are not modelled; the counters and gauges are.
\<close>

section \<open>Consumers\<close>

definition RecordConsumerProgress :: "'d cat_ops \<Rightarrow> string \<Rightarrow> int \<Rightarrow> 'd \<Rightarrow> 'd \<times> go_error option" where
  "RecordConsumerProgress l cons snapshotID d =
     (case catConn l d of
        (d0, Inl e) \<Rightarrow> (d0, Some e)
      | (d0, Inr conn) \<Rightarrow>
          let rollback = (\<lambda>d. fst (catConnExec l WithoutCancel ''ROLLBACK'' [] conn d));
              guarded = (\<lambda>msg q args next d.
                case catConnExec l RequestCtx q args conn d of
                  (d', Some e) \<Rightarrow> (rollback d', Some (errorf msg e ''''))
                | (d', None) \<Rightarrow> next d')
          in case (case catConnExec l RequestCtx ''BEGIN'' [] conn d0 of
                     (d1, Some e) \<Rightarrow> (d1, Some e)
                   | (d1, None) \<Rightarrow>
                       guarded ''consumer progress delete: ''
                         ''DELETE FROM meta.din_consumer_progress WHERE consumer = ?'' [AText cons]
                         (guarded ''consumer progress insert: ''
                            ''INSERT INTO meta.din_consumer_progress VALUES (?, ?, now())'' [AText cons, AInt snapshotID]
                            (guarded ''consumer progress commit: '' ''COMMIT'' [] (\<lambda>d. (d, None)))) d1) of
               (d2, r) \<Rightarrow> (catConnClose l conn d2, r))"

text \<open>\<^verbatim>\<open>updated_at > now() - INTERVAL 'n seconds'\<close>\<close>

definition live :: "'d cat_ops \<Rightarrow> duration \<Rightarrow> 'd \<Rightarrow> progress_row \<Rightarrow> bool" where
  "live l staleness d p \<longleftrightarrow> catNow l d - whole_seconds staleness * 1000000 < updated_at p"

definition ConsumerFloor :: "'d cat_ops \<Rightarrow> duration \<Rightarrow> 'd \<Rightarrow> 'd \<times> int option result" where
  "ConsumerFloor l staleness d =
     (case catSelect l d of
        (d1, Some e) \<Rightarrow> (d1, Inl (errorf ''consumer floor: '' e ''''))
      | (d1, None) \<Rightarrow>
          let cs = map cursor (filter (live l staleness d1) (catProgress l d1))
          in (d1, Inr (if cs = [] then None else Some (Min (set cs)))))"

record stale_consumer =
  stName :: string
  stSnapshotID :: int
  stAge :: epoch_us

definition StaleConsumers :: "'d cat_ops \<Rightarrow> duration \<Rightarrow> 'd \<Rightarrow> 'd \<times> stale_consumer list result" where
  "StaleConsumers l staleness d =
     (case catSelect l d of
        (d1, Some e) \<Rightarrow> (d1, Inl (errorf ''stale consumers: '' e ''''))
      | (d1, None) \<Rightarrow>
          (d1, Inr (map (\<lambda>p. \<lparr>stName = consumer p, stSnapshotID = cursor p, stAge = catNow l d1 - updated_at p\<rparr>)
                      (filter (\<lambda>p. \<not> live l staleness d1 p) (catProgress l d1)))))"

definition UnconsumedExpiringCount :: "'d cat_ops \<Rightarrow> int \<Rightarrow> epoch_us \<Rightarrow> 'd \<Rightarrow> 'd \<times> nat result" where
  "UnconsumedExpiringCount l cur cutoffEpoch d =
     (case catSelect l d of
        (d1, Some e) \<Rightarrow> (d1, Inl (errorf ''unconsumed expiring count: '' e ''''))
      | (d1, None) \<Rightarrow>
          (d1, Inr (length (filter (\<lambda>s. cur < snapshot_id s \<and> snapshot_time s < cutoffEpoch) (catSnapshots l d1)))))"

section \<open>Configuration of the maintainer\<close>

record maint_config =
  Interval :: duration
  SnapshotKeep :: duration
  ConsumerStaleness :: duration
  OrphanRetention :: duration
  FileCleanupGrace :: duration
  MergeMaxFilesPerCall :: int
  MemoryLimit :: string
  RewriteDeleteThreshold :: float64

definition defaultRewriteDeleteThreshold :: float64 where "defaultRewriteDeleteThreshold = Fin (1 / 2)"
definition defaultFileCleanupGrace :: duration where "defaultFileCleanupGrace = 30 * minute"

definition applyDefaults_maint :: "maint_config \<Rightarrow> maint_config" where
  "applyDefaults_maint c =
     (let or_dflt = (\<lambda>x dflt. if x = (0 :: int) then dflt else x)
      in c\<lparr>Interval := or_dflt (Interval c) (15 * minute),
           SnapshotKeep := or_dflt (SnapshotKeep c) (72 * hour),
           ConsumerStaleness := or_dflt (ConsumerStaleness c) hour,
           OrphanRetention := or_dflt (OrphanRetention c) (7 * 24 * hour),
           FileCleanupGrace := or_dflt (FileCleanupGrace c) defaultFileCleanupGrace,
           RewriteDeleteThreshold := (if f_eq (RewriteDeleteThreshold c) (Fin 0)
              then defaultRewriteDeleteThreshold else RewriteDeleteThreshold c)\<rparr>)"

definition maxConsecutiveCycleFailures :: nat where "maxConsecutiveCycleFailures = 4"
definition maintStepTimeout :: duration where "maintStepTimeout = 30 * minute"
definition mergeCycleBudget :: duration where "mergeCycleBudget = maintStepTimeout"
definition mergeRampStartFiles :: int where "mergeRampStartFiles = 32"
definition mergeMinFilesPerCall :: int where "mergeMinFilesPerCall = 1"
definition mergeMaxFilesHardCeiling :: int where "mergeMaxFilesHardCeiling = 1000"
definition mergeMaxFilesFallback :: int where "mergeMaxFilesFallback = 256"

text \<open>\<^verbatim>\<open>parseByteSize\<close>.\<close>

definition byte_units :: "(string \<times> int) list" where
  "byte_units =
     [(''tib'', 2 ^ 40), (''gib'', 2 ^ 30), (''mib'', 2 ^ 20), (''kib'', 2 ^ 10),
      (''tb'', 2 ^ 40), (''gb'', 2 ^ 30), (''mb'', 2 ^ 20), (''kb'', 2 ^ 10), (''b'', 1)]"

fun match_unit :: "string \<Rightarrow> (string \<times> int) list \<Rightarrow> string \<times> int" where
  "match_unit lower [] = (lower, 1)"
| "match_unit lower ((suffix, unit) # us) =
     (if has_suffix lower suffix then (trim_space (take (length lower - length suffix) lower), unit)
      else match_unit lower us)"

definition parseByteSize :: "float_lib \<Rightarrow> string \<Rightarrow> int" where
  "parseByteSize F s0 =
     (let s = trim_space s0
      in if s = [] then 0
         else let (num, unit) = match_unit (to_lower s) byte_units
              in case ParseFloat F num of
                   None \<Rightarrow> 0
                 | Some v \<Rightarrow> if f_less v (Fin 0) then 0 else f_to_int64 (f_scale v unit))"

section \<open>The maintainer\<close>

record maint_metrics =
  maintCycles :: nat
  maintErrors :: "string list"
  maintOldestSnapshotAge :: "epoch_us option"
  maintLastSuccess :: go_time
  maintFloorBinding :: bool
  staleConsumers :: nat
  consumerDropped :: "(string \<times> nat) list"
  maintDataFiles :: "(string \<times> int) list"
  maintAvgDataFileBytes :: "(string \<times> rat) list"
  mergeOOMBackoffs :: nat
  mergeFilesPerCall :: int

definition zero_metrics :: maint_metrics where
  "zero_metrics = \<lparr>maintCycles = 0, maintErrors = [], maintOldestSnapshotAge = None, maintLastSuccess = 0,
     maintFloorBinding = False, staleConsumers = 0, consumerDropped = [], maintDataFiles = [],
     maintAvgDataFileBytes = [], mergeOOMBackoffs = 0, mergeFilesPerCall = 0\<rparr>"

record 'd maint =
  mLake :: "'d cat_ops"
  mDB :: 'd
  mCfg :: maint_config
  mergeRamp :: int
  memBudgetBytes :: int
  mMetrics :: maint_metrics
  mFloat :: float_lib

definition NewMaintainer :: "float_lib \<Rightarrow> 'd cat_ops \<Rightarrow> 'd \<Rightarrow> maint_config \<Rightarrow> 'd maint" where
  "NewMaintainer F l d cfg0 =
     (let cfg = applyDefaults_maint cfg0
      in \<lparr>mLake = l, mDB = d, mCfg = cfg, mergeRamp = mergeRampStartFiles,
          memBudgetBytes = parseByteSize F (MemoryLimit cfg), mMetrics = zero_metrics, mFloat = F\<rparr>)"

definition metric :: "(maint_metrics \<Rightarrow> maint_metrics) \<Rightarrow> 'd maint \<Rightarrow> 'd maint" where
  "metric f m = m\<lparr>mMetrics := f (mMetrics m)\<rparr>"

definition inc_error :: "string \<Rightarrow> 'd maint \<Rightarrow> 'd maint" where
  "inc_error step = metric (\<lambda>x. x\<lparr>maintErrors := step # maintErrors x\<rparr>)"

section \<open>Running statements\<close>

definition execCount :: "'d cat_ops \<Rightarrow> string \<Rightarrow> 'd \<Rightarrow> 'd \<times> nat \<times> go_error option" where
  "execCount l q d =
     (case catQuery l q d of
        (d1, Inl e) \<Rightarrow> (d1, 0, Some e) | (d1, Inr (n, rowsErr)) \<Rightarrow> (d1, n, rowsErr))"

definition drainCount :: "'d cat_ops \<Rightarrow> nat \<Rightarrow> string \<Rightarrow> 'd \<Rightarrow> 'd \<times> nat \<times> go_error option" where
  "drainCount l tx q d =
     (case catTxQuery l q tx d of
        (d1, Inl e) \<Rightarrow> (d1, 0, Some e) | (d1, Inr (n, rowsErr)) \<Rightarrow> (d1, n, rowsErr))"

definition execCountTxn :: "'d cat_ops \<Rightarrow> string \<Rightarrow> 'd \<Rightarrow> 'd \<times> nat \<times> go_error option" where
  "execCountTxn l q d =
     (case catBeginTx l d of
        (d1, Inl e) \<Rightarrow> (d1, 0, Some e)
      | (d1, Inr tx) \<Rightarrow>
          (case drainCount l tx q d1 of
             (d2, n, Some e) \<Rightarrow> (catTxRollback l tx d2, n, Some e)
           | (d2, n, None) \<Rightarrow>
               (case catTxCommit l tx d2 of (d3, r) \<Rightarrow> (catTxRollback l tx d3, n, r))))"

text \<open>The retried closure also assigns the row count.\<close>

definition count_fn :: "('d \<Rightarrow> 'd \<times> nat \<times> go_error option) \<Rightarrow> 'd \<times> nat \<Rightarrow> ('d \<times> nat) \<times> go_error option" where
  "count_fn exec dn = (case exec (fst dn) of (d1, n, e) \<Rightarrow> ((d1, n), e))"

definition count_wait :: "'d cat_ops \<Rightarrow> duration \<Rightarrow> 'd \<times> nat \<Rightarrow> ('d \<times> nat) \<times> go_error option" where
  "count_wait l t dn = (case catWait l t (fst dn) of (d1, e) \<Rightarrow> ((d1, snd dn), e))"

type_synonym maint_step = "string \<times> string"

definition runStepWith ::
  "maint_step \<Rightarrow> ('d cat_ops \<Rightarrow> string \<Rightarrow> 'd \<Rightarrow> 'd \<times> nat \<times> go_error option) \<Rightarrow> 'd maint
     \<Rightarrow> 'd maint \<times> nat \<times> go_error option" where
  "runStepWith step exec m =
     (let l = mLake m
      in case retryCatalog (count_wait l) (count_fn (exec l (snd step))) (mDB m, 0) of
           ((d, n), Some e) \<Rightarrow> (inc_error (fst step) (m\<lparr>mDB := d\<rparr>), n, Some e)
         | ((d, n), None) \<Rightarrow> (m\<lparr>mDB := d\<rparr>, n, None))"

definition runStep :: "maint_step \<Rightarrow> 'd maint \<Rightarrow> 'd maint \<times> nat \<times> go_error option" where
  "runStep step = runStepWith step execCount"

section \<open>Merging\<close>

definition isOutOfMemory :: "go_error \<Rightarrow> bool" where
  "isOutOfMemory err =
     (let msg = to_lower (err_text err) in contains msg ''out of memory'' \<or> contains msg ''could not allocate'')"

text \<open>\<^verbatim>\<open>max(file_size_bytes / file_count)\<close> over the tables with files, truncated.\<close>

definition maxAvgFileBytes :: "'d maint \<Rightarrow> 'd maint \<times> int" where
  "maxAvgFileBytes m =
     (let l = mLake m
      in case catSelect l (mDB m) of
           (d1, Some e) \<Rightarrow> (m\<lparr>mDB := d1\<rparr>, 0)
         | (d1, None) \<Rightarrow>
             let avgs = map (\<lambda>t. of_int (file_size_bytes t) / of_int (file_count t) :: rat)
                          (filter (\<lambda>t. 0 < file_count t) (catTableInfo l d1))
             in (m\<lparr>mDB := d1\<rparr>,
                 if avgs = [] \<or> Max (set avgs) \<le> 0 then 0 else f_to_int64 (Fin (Max (set avgs)))))"

definition mergeCeiling :: "'d maint \<Rightarrow> 'd maint \<times> int" where
  "mergeCeiling m =
     (if 0 < MergeMaxFilesPerCall (mCfg m)
      then (m, min (MergeMaxFilesPerCall (mCfg m)) mergeMaxFilesHardCeiling)
      else if memBudgetBytes m \<le> 0 then (m, mergeMaxFilesFallback)
      else case maxAvgFileBytes m of
        (m1, avg) \<Rightarrow>
          if avg \<le> 0 then (m1, mergeMaxFilesFallback)
          else let budget = round53 (memBudgetBytes m) div 2;
                   derived = quot budget avg
               in (m1, min (max derived mergeMinFilesPerCall) mergeMaxFilesHardCeiling))"

definition merge_sql :: "int \<Rightarrow> string" where
  "merge_sql filesCap =
     ''CALL ducklake_merge_adjacent_files('' @ sqlString ''lake'' @ '', max_compacted_files => '' @ show_int filesCap @ '')''"

definition merge_call :: "int \<Rightarrow> 'd maint \<Rightarrow> 'd maint \<times> nat \<times> go_error option" where
  "merge_call filesCap m =
     (let l = mLake m
      in case retryCatalogIf (count_wait l) (count_fn (execCount l (merge_sql filesCap)))
                (\<lambda>e. \<not> isOutOfMemory e) (mDB m, 0) of
           ((d, n), e) \<Rightarrow> (m\<lparr>mDB := d\<rparr>, n, e))"

fun merge_loop :: "nat \<Rightarrow> go_time \<Rightarrow> int \<Rightarrow> nat \<Rightarrow> 'd maint \<Rightarrow> ('d maint \<times> nat \<times> go_error option) option" where
  "merge_loop 0 deadline ceil subCalls m = None"
| "merge_loop (Suc fuel) deadline ceil subCalls m =
     (case catCtxErr (mLake m) (mDB m) of
        Some e \<Rightarrow> Some (m, subCalls, Some e)
      | None \<Rightarrow>
          if \<not> catClock (mLake m) (mDB m) < deadline then Some (m, subCalls, None)
          else let filesCap = min (max (mergeRamp m) mergeMinFilesPerCall) ceil
               in (case merge_call filesCap m of
                    (m1, n, Some err) \<Rightarrow>
                      if isOutOfMemory err
                      then Some (metric (\<lambda>x. x\<lparr>mergeOOMBackoffs := mergeOOMBackoffs x + 1\<rparr>)
                             (m1\<lparr>mergeRamp := max (quot filesCap 2) mergeMinFilesPerCall\<rparr>), subCalls, None)
                      else Some (m1, subCalls, Some err)
                  | (m1, n, None) \<Rightarrow>
                      if n = 0 then Some (m1, subCalls, None)
                      else merge_loop fuel deadline ceil (subCalls + 1)
                             (m1\<lparr>mergeRamp := min (filesCap * 2) ceil\<rparr>)))"

definition runBoundedMerge :: "nat \<Rightarrow> 'd maint \<Rightarrow> ('d maint \<times> nat \<times> go_error option) option" where
  "runBoundedMerge fuel m =
     (let deadline = catClock (mLake m) (mDB m) + mergeCycleBudget
      in case mergeCeiling m of
           (m1, ceil) \<Rightarrow>
             map_option (\<lambda>(m2, subCalls, e). (metric (\<lambda>x. x\<lparr>mergeFilesPerCall := mergeRamp m2\<rparr>) m2, subCalls, e))
               (merge_loop fuel deadline ceil 0 (m1\<lparr>mergeRamp := min (mergeRamp m1) ceil\<rparr>)))"

section \<open>Expiring\<close>

text \<open>The cutoff, the floor snapshot and whether the floor binds.\<close>

definition expireCutoff :: "'d maint \<Rightarrow> 'd maint \<times> (epoch_us \<times> int \<times> bool) result" where
  "expireCutoff m =
     (let l = mLake m; keepSecs = whole_seconds (SnapshotKeep (mCfg m));
          retention = (\<lambda>d. catNow l d - keepSecs * 1000000)
      in case ConsumerFloor l (ConsumerStaleness (mCfg m)) (mDB m) of
           (d1, Inl e) \<Rightarrow> (m\<lparr>mDB := d1\<rparr>, Inl e)
         | (d1, Inr None) \<Rightarrow>
             (case catSelect l d1 of
                (d2, Some e) \<Rightarrow> (m\<lparr>mDB := d2\<rparr>, Inl (errorf ''expire retention epoch: '' e ''''))
              | (d2, None) \<Rightarrow> (m\<lparr>mDB := d2\<rparr>, Inr (retention d2, 0, False)))
         | (d1, Inr (Some flr)) \<Rightarrow>
             (case catSelect l d1 of
                (d2, Some e) \<Rightarrow> (m\<lparr>mDB := d2\<rparr>, Inl (errorf ''expire floor bound: '' e ''''))
              | (d2, None) \<Rightarrow>
                  let ts = map snapshot_time (filter (\<lambda>s. flr < snapshot_id s) (catSnapshots l d2))
                  in (m\<lparr>mDB := d2\<rparr>,
                      if ts = [] \<or> retention d2 \<le> Min (set ts) then Inr (retention d2, flr, False)
                      else Inr (Min (set ts), flr, True))))"

definition fmt_f :: "epoch_us \<Rightarrow> string" where
  "fmt_f us =
     (if us < 0 then ''-'' else '''') @ show_nat (nat \<bar>us\<bar> div 1000000) @ ''.'' @ pad0 6 (show_nat (nat \<bar>us\<bar> mod 1000000))"

definition expire_sql :: "epoch_us \<Rightarrow> string" where
  "expire_sql cutoff =
     ''CALL ducklake_expire_snapshots('' @ sqlString ''lake'' @ '', older_than => to_timestamp('' @ fmt_f cutoff @ ''))''"

definition expireSQL :: "'d maint \<Rightarrow> 'd maint \<times> string result" where
  "expireSQL m =
     (case expireCutoff m of
        (m1, Inl e) \<Rightarrow> (m1, Inl e)
      | (m1, Inr (cutoff, floorSnapshot, floorBinding)) \<Rightarrow>
          if floorBinding
          then (metric (\<lambda>x. x\<lparr>maintFloorBinding := True\<rparr>) m1, Inr (expire_sql cutoff))
          else (metric (\<lambda>x. x\<lparr>maintFloorBinding := False\<rparr>) m1, Inr (expire_sql cutoff)))"

section \<open>Health\<close>

fun report_loop :: "epoch_us \<Rightarrow> stale_consumer list \<Rightarrow> 'd maint \<Rightarrow> 'd maint" where
  "report_loop cutoff [] m = m"
| "report_loop cutoff (c # cs) m =
     (case UnconsumedExpiringCount (mLake m) (stSnapshotID c) cutoff (mDB m) of
        (d1, Inl e) \<Rightarrow> report_loop cutoff cs (m\<lparr>mDB := d1\<rparr>)
      | (d1, Inr lost) \<Rightarrow>
          report_loop cutoff cs
            (if 0 < lost
             then metric (\<lambda>x. x\<lparr>consumerDropped := (stName c, lost) # consumerDropped x\<rparr>) (m\<lparr>mDB := d1\<rparr>)
             else m\<lparr>mDB := d1\<rparr>))"

definition reportConsumerHealth :: "'d maint \<Rightarrow> 'd maint" where
  "reportConsumerHealth m =
     (if ConsumerStaleness (mCfg m) \<le> 0 then m
      else case StaleConsumers (mLake m) (ConsumerStaleness (mCfg m)) (mDB m) of
        (d1, Inl e) \<Rightarrow> m\<lparr>mDB := d1\<rparr>
      | (d1, Inr stale) \<Rightarrow>
          let m1 = metric (\<lambda>x. x\<lparr>staleConsumers := length stale\<rparr>) (m\<lparr>mDB := d1\<rparr>)
          in if stale = [] then m1
             else case expireCutoff m1 of
                    (m2, Inl e) \<Rightarrow> m2
                  | (m2, Inr (cutoff, _, _)) \<Rightarrow> report_loop cutoff stale m2)"

definition recordOldestSnapshotAge :: "'d maint \<Rightarrow> 'd maint" where
  "recordOldestSnapshotAge m =
     (let l = mLake m
      in case catSelect l (mDB m) of
           (d1, Some e) \<Rightarrow> m\<lparr>mDB := d1\<rparr>
         | (d1, None) \<Rightarrow>
             if catSnapshots l d1 = [] then m\<lparr>mDB := d1\<rparr>
             else metric (\<lambda>x. x\<lparr>maintOldestSnapshotAge :=
                    Some (catNow l d1 - Min (snapshot_time ` set (catSnapshots l d1)))\<rparr>) (m\<lparr>mDB := d1\<rparr>))"

definition set_gauge :: "string \<Rightarrow> 'v \<Rightarrow> (string \<times> 'v) list \<Rightarrow> (string \<times> 'v) list" where
  "set_gauge k v g = (k, v) # filter (\<lambda>p. fst p \<noteq> k) g"

definition file_gauges :: "table_row \<Rightarrow> maint_metrics \<Rightarrow> maint_metrics" where
  "file_gauges t x =
     x\<lparr>maintDataFiles := set_gauge (table_name t) (file_count t) (maintDataFiles x),
       maintAvgDataFileBytes := set_gauge (table_name t)
         (if 0 < file_count t then of_int (file_size_bytes t) / of_int (file_count t) else 0)
         (maintAvgDataFileBytes x)\<rparr>"

definition recordDataFileCounts :: "'d maint \<Rightarrow> 'd maint" where
  "recordDataFileCounts m =
     (let l = mLake m
      in case catSelect l (mDB m) of
           (d1, Some e) \<Rightarrow> m\<lparr>mDB := d1\<rparr>
         | (d1, None) \<Rightarrow> metric (fold file_gauges (catTableInfo l d1)) (m\<lparr>mDB := d1\<rparr>))"

section \<open>The cycle\<close>

definition flush_sql :: string where
  "flush_sql = ''CALL ducklake_flush_inlined_data('' @ sqlString ''lake'' @ '')''"

definition rewrite_sql :: "float_lib \<Rightarrow> float64 \<Rightarrow> string" where
  "rewrite_sql F threshold =
     ''CALL ducklake_rewrite_data_files('' @ sqlString ''lake'' @ '', delete_threshold => '' @ FormatG F threshold @ '')''"

definition older_than :: "duration \<Rightarrow> string" where
  "older_than d = '', older_than => now() - INTERVAL '' @ [sq] @ show_int (whole_seconds d) @ '' seconds'' @ [sq] @ '')''"

definition cleanup_sql :: "maint_config \<Rightarrow> string" where
  "cleanup_sql cfg =
     (if 0 \<le> FileCleanupGrace cfg
      then ''CALL ducklake_cleanup_old_files('' @ sqlString ''lake'' @ older_than (FileCleanupGrace cfg)
      else ''CALL ducklake_cleanup_old_files('' @ sqlString ''lake'' @ '', cleanup_all => true)'')"

definition orphan_sql :: "duration \<Rightarrow> string" where
  "orphan_sql d = ''CALL ducklake_delete_orphaned_files('' @ sqlString ''lake'' @ older_than d"

definition post_steps :: "maint_config \<Rightarrow> string result \<Rightarrow> maint_step list" where
  "post_steps cfg expire =
     (case expire of Inr q \<Rightarrow> [(''expire_snapshots'', q)] | Inl _ \<Rightarrow> [])
     @ [(''cleanup_old_files'', cleanup_sql cfg)]
     @ (if 0 \<le> OrphanRetention cfg then [(''delete_orphaned_files'', orphan_sql (OrphanRetention cfg))] else [])"

definition recordErr :: "string \<Rightarrow> go_error option \<Rightarrow> go_error option \<Rightarrow> go_error option" where
  "recordErr name err firstErr =
     (case err of
        None \<Rightarrow> firstErr
      | Some e \<Rightarrow> (case firstErr of None \<Rightarrow> Some (errorf (name @ '': '') e '''') | Some f \<Rightarrow> Some f))"

text \<open>The loop over the last steps: \<open>Inl\<close> is the return of the context's error.\<close>

fun post_loop :: "maint_step list \<Rightarrow> go_error option \<Rightarrow> 'd maint \<Rightarrow> 'd maint \<times> (go_error + go_error option)" where
  "post_loop [] firstErr m = (m, Inr firstErr)"
| "post_loop (step # steps) firstErr m =
     (case catCtxErr (mLake m) (mDB m) of
        Some e \<Rightarrow> (m, Inl e)
      | None \<Rightarrow>
          (case runStep step m of
             (m1, n, err) \<Rightarrow> post_loop steps (recordErr (fst step) err firstErr) m1))"

definition reassert_step :: "'d maint \<Rightarrow> 'd maint \<times> go_error option" where
  "reassert_step m =
     (case retryCatalog (catWait (mLake m)) (reassertLayout (mLake m)) (mDB m) of
        (d1, Some e) \<Rightarrow> (inc_error ''reassert_layout'' (m\<lparr>mDB := d1\<rparr>), recordErr ''reassert_layout'' (Some e) None)
      | (d1, None) \<Rightarrow> (m\<lparr>mDB := d1\<rparr>, None))"

definition expire_decision :: "go_error option \<Rightarrow> 'd maint \<Rightarrow> 'd maint \<times> string result \<times> go_error option" where
  "expire_decision firstErr m =
     (case expireSQL m of
        (m1, Inl e) \<Rightarrow> (inc_error ''expire_snapshots'' m1, Inl e, recordErr ''expire_snapshots'' (Some e) firstErr)
      | (m1, Inr q) \<Rightarrow> (m1, Inr q, firstErr))"

text \<open>Flushing and rewriting; \<open>Inl\<close> is the return of the context's error.\<close>

definition prepare_steps :: "go_error option \<Rightarrow> 'd maint \<Rightarrow> 'd maint \<times> (go_error + go_error option)" where
  "prepare_steps firstErr m =
     (case catCtxErr (mLake m) (mDB m) of
        Some e \<Rightarrow> (m, Inl e)
      | None \<Rightarrow>
          (case runStep (''flush_inlined_data'', flush_sql) m of
             (m1, n, err) \<Rightarrow>
               let firstErr1 = recordErr ''flush_inlined_data'' err firstErr
               in if \<not> f_le (Fin 0) (RewriteDeleteThreshold (mCfg m1)) then (m1, Inr firstErr1)
                  else case catCtxErr (mLake m1) (mDB m1) of
                    Some e \<Rightarrow> (m1, Inl e)
                  | None \<Rightarrow>
                      (case runStepWith (''rewrite_data_files'',
                               rewrite_sql (mFloat m1) (RewriteDeleteThreshold (mCfg m1))) execCountTxn m1 of
                         (m2, k, err2) \<Rightarrow> (m2, Inr (recordErr ''rewrite_data_files'' err2 firstErr1)))))"

definition merge_step :: "nat \<Rightarrow> go_error option \<Rightarrow> 'd maint \<Rightarrow> ('d maint \<times> go_error option) option" where
  "merge_step fuel firstErr m =
     (if catCtxErr (mLake m) (mDB m) \<noteq> None then Some (m, firstErr)
      else map_option
        (\<lambda>(m1, k, mergeErr). case mergeErr of
             None \<Rightarrow> (m1, firstErr)
           | Some e \<Rightarrow> (inc_error ''merge_adjacent_files'' m1, recordErr ''merge_adjacent_files'' (Some e) firstErr))
        (runBoundedMerge fuel m))"

definition finish_cycle :: "go_error option \<Rightarrow> 'd maint \<Rightarrow> 'd maint" where
  "finish_cycle firstErr m =
     recordDataFileCounts (recordOldestSnapshotAge
       (if firstErr = None
        then metric (\<lambda>x. x\<lparr>maintCycles := maintCycles x + 1, maintLastSuccess := catClock (mLake m) (mDB m)\<rparr>) m
        else m))"

definition Cycle :: "nat \<Rightarrow> 'd maint \<Rightarrow> ('d maint \<times> go_error option) option" where
  "Cycle fuel m =
     (case reassert_step m of
        (m1, err1) \<Rightarrow>
          (case expire_decision err1 (reportConsumerHealth m1) of
             (m2, expire, err2) \<Rightarrow>
               (case prepare_steps err2 m2 of
                  (m3, Inl ctxErr) \<Rightarrow> Some (m3, Some ctxErr)
                | (m3, Inr err3) \<Rightarrow>
                    (case merge_step fuel err3 m3 of
                       None \<Rightarrow> None
                     | Some (m4, err4) \<Rightarrow>
                         (case post_loop (post_steps (mCfg m4) expire) err4 m4 of
                            (m5, Inl ctxErr) \<Rightarrow> Some (m5, Some ctxErr)
                          | (m5, Inr firstErr) \<Rightarrow> Some (finish_cycle firstErr m5, firstErr))))))"

section \<open>The loop\<close>

definition wedged_error :: "nat \<Rightarrow> go_error \<Rightarrow> go_error" where
  "wedged_error k e =
     errorf (''maintenance wedged after '' @ show_nat k @ '' consecutive cycle failures: '') e ''''"

text \<open>\<^verbatim>\<open>Run\<close>: \<open>catTick\<close> is the \<^verbatim>\<open>select\<close>, true when the ticker fired; \<open>cycles\<close> bounds the number of
  cycles looked at, and the result is \<open>None\<close> while the loop is still going.\<close>

fun run_loop :: "nat \<Rightarrow> nat \<Rightarrow> nat \<Rightarrow> 'd maint \<Rightarrow> ('d maint \<times> go_error option) option" where
  "run_loop 0 fuel consecutiveFailures m = None"
| "run_loop (Suc cycles) fuel consecutiveFailures m =
     (case Cycle fuel m of
        None \<Rightarrow> None
      | Some (m1, err) \<Rightarrow>
          let decision =
            (case err of
               None \<Rightarrow> Inr 0
             | Some e \<Rightarrow>
                 if errors_is e CtxCanceled then Inl None
                 else if maxConsecutiveCycleFailures \<le> consecutiveFailures + 1
                   then Inl (Some (wedged_error (consecutiveFailures + 1) e))
                 else Inr (consecutiveFailures + 1))
          in case decision of
               Inl r \<Rightarrow> Some (m1, r)
             | Inr k \<Rightarrow>
                 (case catTick (mLake m1) (mDB m1) of
                    (d2, True) \<Rightarrow> run_loop cycles fuel k (m1\<lparr>mDB := d2\<rparr>)
                  | (d2, False) \<Rightarrow> Some (m1\<lparr>mDB := d2\<rparr>, None)))"

definition Run_maint :: "nat \<Rightarrow> nat \<Rightarrow> 'd maint \<Rightarrow> ('d maint \<times> go_error option) option" where
  "Run_maint cycles fuel = run_loop cycles fuel 0"

end
