(* ===== verification/Maintain_Inv.thy ===== *)
theory Maintain_Inv
  imports Maintain
begin

text \<open>
  Invariants of the database across a maintenance cycle: a property the statements of the
  code keep is kept by every operation of the maintainer, and by the whole cycle when the
  expiry it decided on keeps it too.
\<close>

section \<open>Properties the database keeps\<close>

definition keeps :: "('d \<Rightarrow> bool) \<Rightarrow> ('d \<Rightarrow> 'd \<times> 'x) \<Rightarrow> bool" where
  "keeps I f \<longleftrightarrow> (\<forall>d. I d \<longrightarrow> I (fst (f d)))"

text \<open>\<open>Q\<close> are the maintenance calls in question.\<close>

definition cat_closed :: "'d cat_ops \<Rightarrow> string set \<Rightarrow> ('d \<Rightarrow> bool) \<Rightarrow> bool" where
  "cat_closed l Q I \<longleftrightarrow>
     (\<forall>q. keeps I (catExec l q)) \<and> keeps I (catSelect l) \<and> (\<forall>t. keeps I (catWait l t)) \<and>
     keeps I (catBeginTx l) \<and> (\<forall>q tx. keeps I (catTxQuery l q tx)) \<and> (\<forall>tx. keeps I (catTxCommit l tx)) \<and>
     (\<forall>tx d. I d \<longrightarrow> I (catTxRollback l tx d)) \<and> (\<forall>q\<in>Q. keeps I (catQuery l q))"

lemma keepsD: "keeps I f \<Longrightarrow> I d \<Longrightarrow> f d = (d', x) \<Longrightarrow> I d'"
  by (metis fst_conv keeps_def)

lemma keepsI: "(\<And>d d' x. I d \<Longrightarrow> f d = (d', x) \<Longrightarrow> I d') \<Longrightarrow> keeps I f"
  by (metis keeps_def prod.collapse)

lemma cat_closed_fst:
  assumes "cat_closed l Q I" "I d"
  shows "I (fst (catExec l q d))" "I (fst (catSelect l d))" "I (fst (catWait l t d))"
    "I (fst (catBeginTx l d))" "I (fst (catTxQuery l q tx d))" "I (fst (catTxCommit l tx d))"
    "I (catTxRollback l tx d)" "q \<in> Q \<Longrightarrow> I (fst (catQuery l q d))"
  using assms unfolding cat_closed_def keeps_def by simp_all

lemma err_then_keeps: "keeps I f \<Longrightarrow> keeps I g \<Longrightarrow> keeps I (err_then f g)"
  by (rule keepsI) (auto simp: err_then_def split: prod.splits option.splits dest: keepsD)

lemma wrap_err_keeps: "keeps I f \<Longrightarrow> keeps I (wrap_err p f)"
  by (rule keepsI) (auto simp: wrap_err_def split: prod.splits option.splits dest: keepsD)

lemma retry_keeps:
  assumes "\<And>t. keeps I (w t)" "keeps I f"
  shows "keeps I (retryCatalogIf w f sr)" "keeps I (retryCatalog w f)"
proof -
  have "I d' " if "I d" "retry_loop 0 w f s d = (d', r)" for s d d' r
    using retry_loop_inv [of I f w d 0 s d' r] that keepsD [OF assms(1)] keepsD [OF assms(2)] by blast
  then show "keeps I (retryCatalogIf w f sr)" "keeps I (retryCatalog w f)"
    by (auto simp: retryCatalogIf_def retryCatalog_def intro!: keepsI)
qed

lemma reassertLayout_keeps:
  assumes C: "cat_closed l Q I"
  shows "keeps I (reassertLayout l)"
proof -
  note ops = cat_closed_fst [OF C]
  have ex: "keeps I (catExec l q)" for q by (simp add: keeps_def ops)
  have spec: "I (fst (assert_spec l b q d))" if "I d" for b q d
    using wrap_err_keeps [OF ex] that unfolding assert_spec_def keeps_def by simp
  then have both: "keeps I (err_then (assert_spec l b q) (assert_spec l b' q'))" for b q b' q'
    by (intro err_then_keeps) (simp_all add: keeps_def)
  have sel: "I (fst (isPartitioned l d))" "I (fst (isSorted l d))" if "I d" for d
    using ops(2) [OF that]
    by (simp_all add: isPartitioned_def isSorted_def case_prod_beta split: option.splits)
  have pause: "I (fst (backfillPauseActive l d))" if "I d" for d
    using ops(1) [OF that] ops(2)
    by (simp add: backfillPauseActive_def ensureBackfillPauseTable_def case_prod_beta split: option.splits)
  show ?thesis
    unfolding keeps_def reassertLayout_def case_prod_beta
    using pause sel both [unfolded keeps_def] by simp
qed

section \<open>Operations of the maintainer\<close>

text \<open>What no operation changes.\<close>

definition same_frame :: "'d maint \<Rightarrow> 'd maint \<Rightarrow> bool" where
  "same_frame m m' \<longleftrightarrow> mLake m' = mLake m \<and> mCfg m' = mCfg m \<and> mFloat m' = mFloat m \<and>
     memBudgetBytes m' = memBudgetBytes m"

definition safe_step :: "'d cat_ops \<Rightarrow> ('d \<Rightarrow> bool) \<Rightarrow> 'd maint \<Rightarrow> 'd maint \<Rightarrow> bool" where
  "safe_step l I m m' \<longleftrightarrow> (mLake m = l \<longrightarrow> I (mDB m) \<longrightarrow> I (mDB m')) \<and> same_frame m m'"

lemma safe_step_refl [simp]: "safe_step l I m m"
  by (simp add: safe_step_def same_frame_def)

lemma safe_step_trans: "safe_step l I m m1 \<Longrightarrow> safe_step l I m1 m2 \<Longrightarrow> safe_step l I m m2"
  by (auto simp: safe_step_def same_frame_def)

lemma safe_step_db: "(mLake m = l \<Longrightarrow> I (mDB m) \<Longrightarrow> I d) \<Longrightarrow> safe_step l I m (m\<lparr>mDB := d\<rparr>)"
  by (simp add: safe_step_def same_frame_def)

lemma safe_step_metric [simp]: "safe_step l I m (metric f m') \<longleftrightarrow> safe_step l I m m'"
  by (simp add: safe_step_def same_frame_def metric_def)

lemma safe_step_inc_error [simp]: "safe_step l I m (inc_error s m') \<longleftrightarrow> safe_step l I m m'"
  by (simp add: inc_error_def)

lemma safe_step_ramp [simp]: "safe_step l I m (m'\<lparr>mergeRamp := k\<rparr>) \<longleftrightarrow> safe_step l I m m'"
  by (simp add: safe_step_def same_frame_def)

lemma safe_step_ramp_left [simp]: "safe_step l I (m\<lparr>mergeRamp := k\<rparr>) m' \<longleftrightarrow> safe_step l I m m'"
  by (simp add: safe_step_def same_frame_def)

lemma safe_step_lake: "safe_step l I m m' \<Longrightarrow> mLake m = l \<Longrightarrow> mLake m' = l"
  by (simp add: safe_step_def same_frame_def)

lemma count_keeps:
  assumes C: "cat_closed l Q I"
  shows "keeps (\<lambda>dn. I (fst dn)) (count_wait l t)"
    and "keeps I ex \<Longrightarrow> keeps (\<lambda>dn. I (fst dn)) (count_fn ex)"
  by (simp_all add: keeps_def count_wait_def count_fn_def case_prod_beta cat_closed_fst [OF C])

lemma execCount_safe:
  assumes "cat_closed l Q I" "q \<in> Q"
  shows "keeps I (execCount l q)"
  using cat_closed_fst(8) [OF assms(1) _ assms(2)]
  by (simp add: keeps_def execCount_def case_prod_beta split: sum.splits)

lemma execCountTxn_safe:
  assumes C: "cat_closed l Q I"
  shows "keeps I (execCountTxn l q)"
proof -
  note ops = cat_closed_fst [OF C]
  have drain: "I (fst (drainCount l tx q d))" if "I d" for tx d
    using ops(5) [OF that] by (simp add: drainCount_def case_prod_beta split: sum.splits)
  show ?thesis
    unfolding keeps_def execCountTxn_def case_prod_beta
    using ops(4,6,7) drain by (simp split: sum.splits option.splits)
qed

lemma runStepWith_safe:
  assumes C: "cat_closed l Q I"
    and ex: "keeps I (exec l (snd step))"
    and r: "runStepWith step exec m = (m', n, e)" and l: "mLake m = l"
  shows "safe_step l I m m'"
proof -
  have k: "keeps (\<lambda>dn. I (fst dn)) (retryCatalog (count_wait l) (count_fn (exec l (snd step))))"
    by (rule retry_keeps(2) [OF count_keeps(1) [OF C] count_keeps(2) [OF C ex]])
  obtain d k e' where x: "retryCatalog (count_wait l) (count_fn (exec l (snd step))) (mDB m, 0) = ((d, k), e')"
    by (metis surj_pair)
  have "safe_step l I m (m\<lparr>mDB := d\<rparr>)"
    by (rule safe_step_db) (use keepsD [OF k _ x] in simp)
  with r x l show ?thesis
    by (auto simp: runStepWith_def Let_def split: option.splits)
qed

lemmas runStep_safe = runStepWith_safe [where exec = execCount, folded runStep_def, OF _ execCount_safe]

section \<open>Merging\<close>

lemma mergeCeiling_bounds:
  assumes "mergeCeiling m = (m', c)"
  shows "1 \<le> c \<and> c \<le> mergeMaxFilesHardCeiling"
  using assms
  by (auto simp: mergeCeiling_def mergeMaxFilesHardCeiling_def mergeMaxFilesFallback_def
      mergeMinFilesPerCall_def Let_def split: if_splits prod.splits)

lemma maxAvgFileBytes_safe:
  assumes C: "cat_closed l Q I" and "maxAvgFileBytes m = (m', a)" "mLake m = l"
  shows "safe_step l I m m'"
  using assms(2,3) cat_closed_fst(2) [OF C]
  by (auto simp: maxAvgFileBytes_def Let_def case_prod_beta split: option.splits intro!: safe_step_db)

lemma mergeCeiling_safe:
  assumes C: "cat_closed l Q I" and "mergeCeiling m = (m', a)" "mLake m = l"
  shows "safe_step l I m m'"
  using assms(2,3) maxAvgFileBytes_safe [OF C]
  by (auto simp: mergeCeiling_def Let_def split: if_splits prod.splits)

lemma merge_call_safe:
  assumes C: "cat_closed l Q I" and q: "merge_sql k \<in> Q"
    and r: "merge_call k m = (m', n, e)" and l: "mLake m = l"
  shows "safe_step l I m m'" "mergeRamp m' = mergeRamp m"
proof -
  let ?f = "retryCatalogIf (count_wait l) (count_fn (execCount l (merge_sql k))) (\<lambda>e. \<not> isOutOfMemory e)"
  have k: "keeps (\<lambda>dn. I (fst dn)) ?f"
    by (rule retry_keeps(1) [OF count_keeps(1) [OF C] count_keeps(2) [OF C execCount_safe [OF C q]]])
  obtain d j e' where x: "?f (mDB m, 0) = ((d, j), e')" by (metis surj_pair)
  have "safe_step l I m (m\<lparr>mDB := d\<rparr>)"
    by (rule safe_step_db) (use keepsD [OF k _ x] in simp)
  with r x l show "safe_step l I m m'" "mergeRamp m' = mergeRamp m"
    by (auto simp: merge_call_def Let_def)
qed

lemma merge_cap_bounds:
  "1 \<le> c \<Longrightarrow> 1 \<le> min (max r mergeMinFilesPerCall) c \<and> min (max r mergeMinFilesPerCall) c \<le> c"
  by (simp add: mergeMinFilesPerCall_def)

text \<open>The calls of the loop are merges of at least one and at most \<open>ceil\<close> files, and the ramp
  never leaves that range once a call was made.\<close>

lemma merge_loop_safe:
  assumes C: "cat_closed l Q I" and Q: "\<And>k. 1 \<le> k \<Longrightarrow> k \<le> ceil \<Longrightarrow> merge_sql k \<in> Q" and c: "1 \<le> ceil"
  shows "merge_loop fuel deadline ceil s m = Some (m', s', e) \<Longrightarrow> mLake m = l \<Longrightarrow>
     safe_step l I m m' \<and> (mergeRamp m \<le> ceil \<longrightarrow> mergeRamp m' \<le> ceil) \<and> (1 \<le> mergeRamp m \<longrightarrow> 1 \<le> mergeRamp m')"
proof (induction fuel arbitrary: s m)
  case (Suc fuel)
  define cap where "cap = min (max (mergeRamp m) mergeMinFilesPerCall) ceil"
  obtain m1 n r where mc: "merge_call cap m = (m1, n, r)" by (cases "merge_call cap m")
  have cb: "1 \<le> cap" "cap \<le> ceil" unfolding cap_def using merge_cap_bounds [OF c] by blast+
  note safe = merge_call_safe [OF C Q [OF cb] mc Suc.prems(2)]
  have half: "quot cap 2 \<le> cap" using cb(1) quot_nonneg [of cap 2] by linarith
  consider "m' = m"
    | "m' = m1"
    | "m' = metric (\<lambda>x. x\<lparr>mergeOOMBackoffs := mergeOOMBackoffs x + 1\<rparr>)
             (m1\<lparr>mergeRamp := max (quot cap 2) mergeMinFilesPerCall\<rparr>)"
    | "merge_loop fuel deadline ceil (s + 1) (m1\<lparr>mergeRamp := min (cap * 2) ceil\<rparr>) = Some (m', s', e)"
  proof (cases "catCtxErr (mLake m) (mDB m) = None \<and> catClock (mLake m) (mDB m) < deadline")
    case True
    then show thesis
      using Suc.prems(1) that unfolding merge_loop.simps Let_def cap_def [symmetric] mc
      by (cases r; cases "n = 0") (simp_all split: if_splits)
  next
    case False
    with Suc.prems(1) that(1) show thesis by (auto split: option.splits)
  qed
  then show ?case
  proof cases
    case 3
    then have "mergeRamp m' = max (quot cap 2) 1" by (simp add: metric_def mergeMinFilesPerCall_def)
    then have "1 \<le> mergeRamp m'" "mergeRamp m' \<le> ceil" using cb half c by linarith+
    moreover have "safe_step l I m m'" using 3 safe(1) by simp
    ultimately show ?thesis by blast
  next
    case 4
    have l1: "mLake (m1\<lparr>mergeRamp := min (cap * 2) ceil\<rparr>) = l"
      using safe_step_lake [OF safe(1) Suc.prems(2)] by simp
    from Suc.IH [OF 4 l1] safe(1) cb c show ?thesis
      by (auto intro: safe_step_trans)
  qed (use safe in simp_all)
qed simp

lemma runBoundedMerge_safe:
  assumes C: "cat_closed l Q I" and Q: "\<And>k. 1 \<le> k \<Longrightarrow> k \<le> snd (mergeCeiling m) \<Longrightarrow> merge_sql k \<in> Q"
    and r: "runBoundedMerge fuel m = Some (m', s, e)" and l: "mLake m = l"
  shows "safe_step l I m m'" "mergeRamp m' \<le> snd (mergeCeiling m)"
proof -
  obtain m1 c where mc: "mergeCeiling m = (m1, c)" by (cases "mergeCeiling m")
  note s1 = mergeCeiling_safe [OF C mc l]
  have c1: "1 \<le> c" using mergeCeiling_bounds [OF mc] by blast
  from r mc obtain m2 where ml: "merge_loop fuel (catClock (mLake m) (mDB m) + mergeCycleBudget) c 0
      (m1\<lparr>mergeRamp := min (mergeRamp m1) c\<rparr>) = Some (m2, s, e)"
    and m': "m' = metric (\<lambda>x. x\<lparr>mergeFilesPerCall := mergeRamp m2\<rparr>) m2"
    by (auto simp: runBoundedMerge_def Let_def)
  have l1: "mLake (m1\<lparr>mergeRamp := min (mergeRamp m1) c\<rparr>) = l" using safe_step_lake [OF s1 l] by simp
  have Q': "merge_sql k \<in> Q" if "1 \<le> k" "k \<le> c" for k using Q that mc by simp
  have ms: "safe_step l I (m1\<lparr>mergeRamp := min (mergeRamp m1) c\<rparr>) m2" "mergeRamp m2 \<le> c"
    using merge_loop_safe [OF C Q' c1 ml l1] by simp_all
  have "safe_step l I m m2" using safe_step_trans [OF s1] ms(1) by simp
  then show "safe_step l I m m'" by (simp add: m')
  show "mergeRamp m' \<le> snd (mergeCeiling m)" using ms(2) mc by (simp add: m' metric_def)
qed

section \<open>The cycle\<close>

lemma ConsumerFloor_keeps:
  assumes C: "cat_closed l Q I"
  shows "keeps I (ConsumerFloor l st)" "keeps I (StaleConsumers l st)" "keeps I (UnconsumedExpiringCount l cur c)"
  using cat_closed_fst(2) [OF C]
  by (simp_all add: keeps_def ConsumerFloor_def StaleConsumers_def UnconsumedExpiringCount_def
      case_prod_beta Let_def split: option.splits)

lemma expireCutoff_safe:
  assumes C: "cat_closed l Q I" and r: "expireCutoff m = (m', x)" and l: "mLake m = l"
  shows "safe_step l I m m'"
proof -
  note sel = cat_closed_fst(2) [OF C]
  obtain d1 f where cf: "ConsumerFloor l (ConsumerStaleness (mCfg m)) (mDB m) = (d1, f)"
    by (cases "ConsumerFloor l (ConsumerStaleness (mCfg m)) (mDB m)")
  have i1: "I d1" if "I (mDB m)" using keepsD [OF ConsumerFloor_keeps(1) [OF C] that cf] .
  have i2: "I (fst (catSelect l d1))" if "I (mDB m)" using sel [OF i1 [OF that]] .
  have "m' = m\<lparr>mDB := d1\<rparr> \<or> m' = m\<lparr>mDB := fst (catSelect l d1)\<rparr>"
    using r cf l
    by (auto simp: expireCutoff_def Let_def split: sum.splits option.splits prod.splits)
  then show ?thesis using i1 i2 by (auto intro!: safe_step_db)
qed

lemma expireSQL_safe:
  assumes C: "cat_closed l Q I" and "expireSQL m = (m', x)" "mLake m = l"
  shows "safe_step l I m m'"
  using assms(2,3) expireCutoff_safe [OF C]
  by (auto simp: expireSQL_def split: prod.splits sum.splits if_splits)

lemma expireSQL_cutoff:
  assumes "expireSQL m = (m', Inr q)"
  shows "\<exists>m1 c f b. expireCutoff m = (m1, Inr (c, f, b)) \<and> q = expire_sql c"
  using assms by (auto simp: expireSQL_def split: prod.splits sum.splits if_splits)

lemma report_loop_safe:
  assumes C: "cat_closed l Q I"
  shows "mLake m = l \<Longrightarrow> safe_step l I m (report_loop cutoff cs m)"
proof (induction cs arbitrary: m)
  case (Cons c cs)
  obtain d1 x where u: "UnconsumedExpiringCount (mLake m) (stSnapshotID c) cutoff (mDB m) = (d1, x)"
    by (cases "UnconsumedExpiringCount (mLake m) (stSnapshotID c) cutoff (mDB m)")
  have s1: "safe_step l I m (m\<lparr>mDB := d1\<rparr>)"
    by (rule safe_step_db) (use keepsD [OF ConsumerFloor_keeps(3) [OF C]] u in blast)
  have s2: "safe_step l I m (report_loop cutoff cs m1)" if "safe_step l I m m1" for m1
    using safe_step_trans [OF that Cons.IH [OF safe_step_lake [OF that Cons.prems]]] .
  show ?case
    using s2 s1 by (cases x) (simp_all add: u)
qed simp

lemma reportConsumerHealth_safe:
  assumes C: "cat_closed l Q I" and l: "mLake m = l"
  shows "safe_step l I m (reportConsumerHealth m)"
proof -
  obtain d1 x where u: "StaleConsumers (mLake m) (ConsumerStaleness (mCfg m)) (mDB m) = (d1, x)"
    by (cases "StaleConsumers (mLake m) (ConsumerStaleness (mCfg m)) (mDB m)")
  let ?m1 = "metric (\<lambda>y. y\<lparr>staleConsumers := length (projr x)\<rparr>) (m\<lparr>mDB := d1\<rparr>)"
  have s1: "safe_step l I m (m\<lparr>mDB := d1\<rparr>)"
    by (rule safe_step_db) (use keepsD [OF ConsumerFloor_keeps(2) [OF C]] u in blast)
  have s2: "safe_step l I m (metric g (m\<lparr>mDB := d1\<rparr>))" for g using s1 by simp
  have s3: "safe_step l I m m2" if "expireCutoff (metric g (m\<lparr>mDB := d1\<rparr>)) = (m2, y)" for g m2 y
    using safe_step_trans [OF s2 expireCutoff_safe [OF C that]] l by (simp add: metric_def)
  have s4: "safe_step l I m (report_loop c cs m2)" if "safe_step l I m m2" for c cs m2
    using safe_step_trans [OF that report_loop_safe [OF C safe_step_lake [OF that l]]] .
  show ?thesis
    using s1 s2 s3 s4
    by (auto simp: reportConsumerHealth_def Let_def u split: sum.splits prod.splits)
qed

lemma reassert_step_safe:
  assumes C: "cat_closed l Q I" and r: "reassert_step m = (m', e)" and l: "mLake m = l"
  shows "safe_step l I m m'"
proof -
  have k: "keeps I (retryCatalog (catWait l) (reassertLayout l))"
    by (intro retry_keeps(2) reassertLayout_keeps [OF C]) (simp add: keeps_def cat_closed_fst [OF C])
  obtain d1 x where u: "retryCatalog (catWait l) (reassertLayout l) (mDB m) = (d1, x)"
    by (cases "retryCatalog (catWait l) (reassertLayout l) (mDB m)")
  have "safe_step l I m (m\<lparr>mDB := d1\<rparr>)"
    by (rule safe_step_db) (use keepsD [OF k _ u] in blast)
  with r l u show ?thesis by (cases x) (auto simp: reassert_step_def)
qed

lemma prepare_steps_safe:
  assumes C: "cat_closed l Q I" and Q: "flush_sql \<in> Q"
    and r: "prepare_steps e m = (m', x)" and l: "mLake m = l"
  shows "safe_step l I m m'"
proof -
  obtain m1 n err where f: "runStep (''flush_inlined_data'', flush_sql) m = (m1, n, err)"
    by (metis surj_pair)
  have s1: "safe_step l I m m1" by (rule runStep_safe [OF C C _ f l]) (simp add: Q)
  obtain m2 k err2 where w: "runStepWith (''rewrite_data_files'',
      rewrite_sql (mFloat m1) (RewriteDeleteThreshold (mCfg m1))) execCountTxn m1 = (m2, k, err2)"
    by (metis surj_pair)
  have s2: "safe_step l I m1 m2"
    by (rule runStepWith_safe [OF C execCountTxn_safe [OF C] w safe_step_lake [OF s1 l]])
  have "m' = m \<or> m' = m1 \<or> m' = m2"
    using r f w by (auto simp: prepare_steps_def Let_def split: option.splits if_splits)
  then show ?thesis using s1 safe_step_trans [OF s1 s2] by auto
qed

lemma merge_step_safe:
  assumes C: "cat_closed l Q I"
    and Q: "\<And>k. 1 \<le> k \<Longrightarrow> k \<le> mergeMaxFilesHardCeiling \<Longrightarrow> merge_sql k \<in> Q"
    and r: "merge_step fuel e m = Some (m', x)" and l: "mLake m = l"
  shows "safe_step l I m m'"
proof -
  have Q': "merge_sql k \<in> Q" if "1 \<le> k" "k \<le> snd (mergeCeiling m)" for k
    using Q [OF that(1)] that(2) mergeCeiling_bounds [of m] by (metis order_trans prod.collapse)
  have "safe_step l I m m1" if "runBoundedMerge fuel m = Some (m1, s, me)" for m1 s me
    using runBoundedMerge_safe(1) [OF C Q' that l] .
  with r show ?thesis
    by (auto simp: merge_step_def split: if_splits option.splits)
qed

lemma post_loop_safe:
  assumes C: "cat_closed l Q I"
  shows "snd ` set steps \<subseteq> Q \<Longrightarrow> mLake m = l \<Longrightarrow> post_loop steps e m = (m', x) \<Longrightarrow> safe_step l I m m'"
proof (induction steps arbitrary: e m)
  case (Cons step steps)
  obtain m1 n err where f: "runStep step m = (m1, n, err)" by (metis surj_pair)
  have s1: "safe_step l I m m1" by (rule runStep_safe [OF C C _ f Cons.prems(2)]) (use Cons.prems(1) in simp)
  have "m' = m \<or> (\<exists>e'. post_loop steps e' m1 = (m', x))"
    using Cons.prems(3) f by (auto split: option.splits)
  then show ?case
    using safe_step_trans [OF s1 Cons.IH] Cons.prems(1) safe_step_lake [OF s1 Cons.prems(2)] by auto
qed simp

lemma finish_cycle_safe:
  assumes C: "cat_closed l Q I" and l: "mLake m = l"
  shows "safe_step l I m (finish_cycle e m)"
proof -
  have rec: "safe_step l I x (recordOldestSnapshotAge x)" "safe_step l I x (recordDataFileCounts x)"
    if "mLake x = l" for x
  proof -
    have "safe_step l I x (x\<lparr>mDB := fst (catSelect l (mDB x))\<rparr>)"
      by (rule safe_step_db) (rule cat_closed_fst(2) [OF C])
    with that show "safe_step l I x (recordOldestSnapshotAge x)" "safe_step l I x (recordDataFileCounts x)"
      by (auto simp: recordOldestSnapshotAge_def recordDataFileCounts_def Let_def split: prod.splits option.splits)
  qed
  let ?m0 = "if e = None then metric (\<lambda>x. x\<lparr>maintCycles := maintCycles x + 1,
      maintLastSuccess := catClock (mLake m) (mDB m)\<rparr>) m else m"
  have s0: "safe_step l I m ?m0" by simp
  note s1 = safe_step_trans [OF s0 rec(1) [OF safe_step_lake [OF s0 l]]]
  show ?thesis
    unfolding finish_cycle_def by (rule safe_step_trans [OF s1 rec(2) [OF safe_step_lake [OF s1 l]]])
qed

text \<open>The calls of a cycle besides the expiry.\<close>

definition cycle_calls :: "maint_config \<Rightarrow> string set" where
  "cycle_calls cfg =
     {flush_sql, cleanup_sql cfg}
     \<union> (if 0 \<le> OrphanRetention cfg then {orphan_sql (OrphanRetention cfg)} else {})
     \<union> merge_sql ` {1..mergeMaxFilesHardCeiling}"

lemma cat_closed_insert:
  "cat_closed l Q I \<Longrightarrow> keeps I (catQuery l q) \<Longrightarrow> cat_closed l (insert q Q) I"
  by (simp add: cat_closed_def)

lemma post_steps_calls:
  "snd ` set (post_steps cfg (Inr q)) \<subseteq> insert q (cycle_calls cfg)"
  "snd ` set (post_steps cfg (Inl e)) \<subseteq> cycle_calls cfg"
  by (auto simp: post_steps_def cycle_calls_def)

lemma expire_decision_safe:
  assumes C: "cat_closed l Q I" and "expire_decision e m = (m', x, e')" "mLake m = l"
  shows "safe_step l I m m'"
  using assms(2,3) expireSQL_safe [OF C]
  by (auto simp: expire_decision_def split: prod.splits sum.splits)

lemma Cycle_keeps:
  assumes C: "cat_closed l (cycle_calls (mCfg m)) I"
    and E: "\<And>m1 m2 c f b. same_frame m m1 \<Longrightarrow> I (mDB m1) \<Longrightarrow> expireCutoff m1 = (m2, Inr (c, f, b)) \<Longrightarrow>
      keeps I (catQuery l (expire_sql c))"
    and r: "Cycle fuel m = Some (m', res)" and l: "mLake m = l" and i: "I (mDB m)"
  shows "I (mDB m')"
proof -
  obtain m1 e1 where x1: "reassert_step m = (m1, e1)" by (cases "reassert_step m")
  let ?h = "reportConsumerHealth m1"
  obtain m2 q e2 where x2: "expire_decision e1 ?h = (m2, q, e2)" by (metis surj_pair)
  obtain m3 y where x3: "prepare_steps e2 m2 = (m3, y)" by (cases "prepare_steps e2 m2")
  note s1 = reassert_step_safe [OF C x1 l]
  note sh = safe_step_trans [OF s1 reportConsumerHealth_safe [OF C safe_step_lake [OF s1 l]]]
  note s2 = safe_step_trans [OF sh expire_decision_safe [OF C x2 safe_step_lake [OF sh l]]]
  have fl: "flush_sql \<in> cycle_calls (mCfg m)" by (simp add: cycle_calls_def)
  note s3 = safe_step_trans [OF s2 prepare_steps_safe [OF C fl x3 safe_step_lake [OF s2 l]]]
  have ok: "I (mDB x)" if "safe_step l I m x" for x using that l i by (simp add: safe_step_def)
  have mq: "merge_sql k \<in> cycle_calls (mCfg m)" if "1 \<le> k" "k \<le> mergeMaxFilesHardCeiling" for k
    using that by (simp add: cycle_calls_def)
  have post: "cat_closed l (snd ` set (post_steps (mCfg m) q)) I"
  proof (cases q)
    case (Inl e)
    then show ?thesis using post_steps_calls(2) [of "mCfg m" e] C by (auto simp: cat_closed_def)
  next
    case (Inr t)
    with x2 obtain m9 where "expireSQL ?h = (m9, Inr t)"
      by (auto simp: expire_decision_def split: prod.splits sum.splits)
    from expireSQL_cutoff [OF this] obtain m8 c f b where
      "expireCutoff ?h = (m8, Inr (c, f, b))" and t: "t = expire_sql c" by blast
    from E [OF _ ok [OF sh] this(1)] sh have "keeps I (catQuery l t)" by (simp add: t safe_step_def)
    from cat_closed_insert [OF C this] post_steps_calls(1) [of "mCfg m" t]
    show ?thesis by (auto simp: Inr cat_closed_def)
  qed
  show ?thesis
  proof (cases y)
    case (Inl e)
    with r x1 x2 x3 have "m' = m3" by (simp add: Cycle_def)
    with ok s3 show ?thesis by simp
  next
    case (Inr e3)
    with r x1 x2 x3 obtain m4 e4 where x4: "merge_step fuel e3 m3 = Some (m4, e4)"
      by (auto simp: Cycle_def split: option.splits)
    note s4 = safe_step_trans [OF s3 merge_step_safe [OF C mq x4 safe_step_lake [OF s3 l]]]
    have cfg: "mCfg m4 = mCfg m" using s4 by (simp add: safe_step_def same_frame_def)
    obtain m5 z where x5: "post_loop (post_steps (mCfg m) q) e4 m4 = (m5, z)"
      by (cases "post_loop (post_steps (mCfg m) q) e4 m4")
    note s5 = safe_step_trans [OF s4 post_loop_safe [OF post subset_refl safe_step_lake [OF s4 l] x5]]
    note s6 = safe_step_trans [OF s5 finish_cycle_safe [OF C safe_step_lake [OF s5 l]]]
    from r x1 x2 x3 x4 x5 Inr cfg have "m' = m5 \<or> (\<exists>e. m' = finish_cycle e m5)"
      by (auto simp: Cycle_def split: sum.splits)
    then show ?thesis using ok [OF s5] ok [OF s6] by auto
  qed
qed

section \<open>The cutoff\<close>

text \<open>A snapshot a statement of the maintainer must not take: it is younger than the retention,
  or a live consumer has not consumed it.\<close>

definition young :: "'d cat_ops \<Rightarrow> maint_config \<Rightarrow> snapshot_row \<Rightarrow> 'd \<Rightarrow> bool" where
  "young l cfg s d \<longleftrightarrow> catNow l d - whole_seconds (SnapshotKeep cfg) * 1000000 \<le> snapshot_time s"

definition unconsumed :: "'d cat_ops \<Rightarrow> maint_config \<Rightarrow> snapshot_row \<Rightarrow> 'd \<Rightarrow> bool" where
  "unconsumed l cfg s d \<longleftrightarrow>
     (\<exists>p\<in>set (catProgress l d). live l (ConsumerStaleness cfg) d p \<and> cursor p < snapshot_id s)"

lemma ConsumerFloor_min:
  assumes "ConsumerFloor l st d = (d1, Inr f)" and p: "p \<in> set (catProgress l d1)" "live l st d1 p"
  shows "\<exists>k. f = Some k \<and> k \<le> cursor p"
proof -
  let ?cs = "map cursor (filter (live l st d1) (catProgress l d1))"
  have f: "f = (if ?cs = [] then None else Some (Min (set ?cs)))"
    using assms(1) by (auto simp: ConsumerFloor_def Let_def split: prod.splits option.splits)
  have m: "cursor p \<in> set ?cs" using p by auto
  then have "Min (set ?cs) \<le> cursor p" by (intro Min_le) simp_all
  moreover have "?cs \<noteq> []" using m by (metis empty_iff list.set(1))
  ultimately show ?thesis using f by (metis (no_types, lifting))
qed

lemma ConsumerFloor_state: "ConsumerFloor l st d = (d1, r) \<Longrightarrow> d1 = fst (catSelect l d)"
  by (auto simp: ConsumerFloor_def Let_def split: prod.splits option.splits)

lemma expireCutoff_Inr:
  assumes "expireCutoff m = (m', Inr (c, f, b))"
  obtains fl where "ConsumerFloor (mLake m) (ConsumerStaleness (mCfg m)) (mDB m) =
      (fst (catSelect (mLake m) (mDB m)), Inr fl)"
    and "mDB m' = fst (catSelect (mLake m) (fst (catSelect (mLake m) (mDB m))))"
    and "c \<le> catNow (mLake m) (mDB m') - whole_seconds (SnapshotKeep (mCfg m)) * 1000000"
    and "\<And>k s. fl = Some k \<Longrightarrow> s \<in> set (catSnapshots (mLake m) (mDB m')) \<Longrightarrow> k < snapshot_id s \<Longrightarrow> c \<le> snapshot_time s"
proof -
  let ?l = "mLake m"
  obtain d1 r where cf: "ConsumerFloor ?l (ConsumerStaleness (mCfg m)) (mDB m) = (d1, r)"
    by (cases "ConsumerFloor ?l (ConsumerStaleness (mCfg m)) (mDB m)")
  note d1 = ConsumerFloor_state [OF cf]
  obtain d2 e where sel: "catSelect ?l d1 = (d2, e)" by (cases "catSelect ?l d1")
  from assms cf obtain fl where r: "r = Inr fl"
    by (auto simp: expireCutoff_def Let_def split: sum.splits)
  let ?ret = "catNow ?l d2 - whole_seconds (SnapshotKeep (mCfg m)) * 1000000"
  show ?thesis
  proof (cases fl)
    case None
    with assms cf r sel have "mDB m' = d2" "c = ?ret"
      by (auto simp: expireCutoff_def Let_def split: option.splits)
    with that [of fl] cf r sel d1 None show ?thesis by simp
  next
    case (Some k)
    let ?ts = "map snapshot_time (filter (\<lambda>s. k < snapshot_id s) (catSnapshots ?l d2))"
    from assms cf r sel Some have m': "mDB m' = d2"
      and c: "c = (if ?ts = [] \<or> ?ret \<le> Min (set ?ts) then ?ret else Min (set ?ts))"
      by (auto simp: expireCutoff_def Let_def split: option.splits if_splits)
    have le: "c \<le> ?ret" using c by auto
    have "c \<le> snapshot_time s" if "s \<in> set (catSnapshots ?l d2)" "k < snapshot_id s" for s
    proof -
      have in_ts: "snapshot_time s \<in> set ?ts" using that by auto
      then have "Min (set ?ts) \<le> snapshot_time s" by (intro Min_le) simp_all
      moreover have "?ts \<noteq> []" using in_ts by (metis empty_iff list.set(1))
      ultimately show ?thesis using c by (auto split: if_splits)
    qed
    with that [of fl] cf r sel d1 Some m' le show ?thesis by simp
  qed
qed

text \<open>The documented behaviour of the catalog: only an expiry removes a snapshot, and only one
  older than its cutoff.\<close>

definition ducklake_snapshots :: "'d cat_ops \<Rightarrow> bool" where
  "ducklake_snapshots l \<longleftrightarrow>
     (\<forall>s. cat_closed l {q. \<forall>c. q \<noteq> expire_sql c} (\<lambda>d. s \<in> set (catSnapshots l d))) \<and>
     (\<forall>s c. c \<le> snapshot_time s \<longrightarrow> keeps (\<lambda>d. s \<in> set (catSnapshots l d)) (catQuery l (expire_sql c)))"

lemma cat_closed_conj: "cat_closed l Q I \<Longrightarrow> cat_closed l Q J \<Longrightarrow> cat_closed l Q (\<lambda>d. I d \<and> J d)"
  by (simp add: cat_closed_def keeps_def)

lemma cat_closed_mono: "cat_closed l Q I \<Longrightarrow> Q' \<subseteq> Q \<Longrightarrow> cat_closed l Q' I"
  by (auto simp: cat_closed_def)

lemma cycle_calls_no_expiry: "cycle_calls cfg \<subseteq> {q. \<forall>c. q \<noteq> expire_sql c}"
proof -
  have "flush_sql \<noteq> expire_sql c" "cleanup_sql cfg \<noteq> expire_sql c" "orphan_sql d \<noteq> expire_sql c"
    "merge_sql k \<noteq> expire_sql c" for c d k
    by (simp_all add: flush_sql_def cleanup_sql_def orphan_sql_def merge_sql_def expire_sql_def)
  then show ?thesis by (auto simp: cycle_calls_def)
qed

lemma expireCutoff_protects:
  assumes "expireCutoff m = (m', Inr (c, f, b))" and l: "mLake m = l"
    and C: "cat_closed l Q I" and i: "I (mDB m)" and s: "\<And>d. I d \<Longrightarrow> s \<in> set (catSnapshots l d)"
    and p: "(\<forall>d. I d \<longrightarrow> young l (mCfg m) s d) \<or> (\<forall>d. I d \<longrightarrow> unconsumed l (mCfg m) s d)"
  shows "c \<le> snapshot_time s"
proof -
  from expireCutoff_Inr [OF assms(1)] obtain fl where
    cf: "ConsumerFloor l (ConsumerStaleness (mCfg m)) (mDB m) = (fst (catSelect l (mDB m)), Inr fl)"
    and m': "mDB m' = fst (catSelect l (fst (catSelect l (mDB m))))"
    and ret: "c \<le> catNow l (mDB m') - whole_seconds (SnapshotKeep (mCfg m)) * 1000000"
    and fl: "\<And>k s. fl = Some k \<Longrightarrow> s \<in> set (catSnapshots l (mDB m')) \<Longrightarrow> k < snapshot_id s \<Longrightarrow> c \<le> snapshot_time s"
    unfolding l by metis
  have i1: "I (fst (catSelect l (mDB m)))" by (rule cat_closed_fst(2) [OF C i])
  have i2: "I (mDB m')" unfolding m' by (rule cat_closed_fst(2) [OF C i1])
  from p show ?thesis
  proof
    assume "\<forall>d. I d \<longrightarrow> young l (mCfg m) s d"
    with i2 ret show ?thesis by (auto simp: young_def)
  next
    assume "\<forall>d. I d \<longrightarrow> unconsumed l (mCfg m) s d"
    with i1 obtain p where "p \<in> set (catProgress l (fst (catSelect l (mDB m))))"
      "live l (ConsumerStaleness (mCfg m)) (fst (catSelect l (mDB m))) p" "cursor p < snapshot_id s"
      by (auto simp: unconsumed_def)
    with ConsumerFloor_min [OF cf this(1,2)] fl [OF _ s [OF i2]] show ?thesis by force
  qed
qed

lemma Cycle_protects:
  assumes D: "ducklake_snapshots l" and C: "cat_closed l UNIV I" and l: "mLake m = l" and i: "I (mDB m)"
    and p: "(\<forall>d. I d \<longrightarrow> young l (mCfg m) s d) \<or> (\<forall>d. I d \<longrightarrow> unconsumed l (mCfg m) s d)"
    and r: "Cycle fuel m = Some (m', res)" and s: "s \<in> set (catSnapshots l (mDB m))"
  shows "s \<in> set (catSnapshots l (mDB m')) \<and> I (mDB m')"
proof -
  let ?J = "\<lambda>d. I d \<and> s \<in> set (catSnapshots l d)"
  have J: "cat_closed l (cycle_calls (mCfg m)) ?J"
    using D C by (intro cat_closed_conj cat_closed_mono [OF _ cycle_calls_no_expiry] cat_closed_mono [OF C])
      (simp_all add: ducklake_snapshots_def)
  have "?J (mDB m')"
  proof (rule Cycle_keeps [OF J _ r l])
    fix m1 m2 c f b
    assume "same_frame m m1" "?J (mDB m1)" "expireCutoff m1 = (m2, Inr (c, f, b))"
    then have "c \<le> snapshot_time s"
      using expireCutoff_protects [of m1 m2 c f b l "cycle_calls (mCfg m)" ?J s] l p J
      by (auto simp: same_frame_def)
    with D C show "keeps ?J (catQuery l (expire_sql c))"
      by (simp add: ducklake_snapshots_def cat_closed_def keeps_def)
  qed (use i s in simp)
  then show ?thesis by blast
qed

section \<open>The merge loop ends\<close>

text \<open>Every call takes some time, and the clock does not go back.\<close>

definition calls_take :: "'d cat_ops \<Rightarrow> duration \<Rightarrow> bool" where
  "calls_take l \<delta> \<longleftrightarrow> 0 < \<delta> \<and>
     (\<forall>q d. catClock l d + \<delta> \<le> catClock l (fst (catQuery l q d))) \<and>
     (\<forall>t d. catClock l d \<le> catClock l (fst (catWait l t d))) \<and>
     (\<forall>d. catClock l d \<le> catClock l (fst (catSelect l d)))"

lemma retry_loop_first:
  assumes "retry_loop a w f sr d = (d', r)" "f d = (d1, r1)" "I d1"
    and "keeps I f" "\<And>t. keeps I (w t)"
  shows "I d'"
proof (cases "\<exists>e d2. r1 = Some e \<and> w (int (a + 1) * 500 * millisecond) d1 = (d2, None) \<and>
    retry_loop (a + 1) w f sr d2 = (d', r)")
  case True
  then obtain d2 where d2: "w (int (a + 1) * 500 * millisecond) d1 = (d2, None)"
    and rest: "retry_loop (a + 1) w f sr d2 = (d', r)" by blast
  have "I d2" using keepsD [OF assms(5,3) d2] .
  with retry_loop_inv [of I f w d2 "a + 1" sr d' r] rest keepsD [OF assms(4)] keepsD [OF assms(5)]
  show ?thesis by blast
next
  case False
  with assms(1-3) keepsD [OF assms(5,3)] show ?thesis
    by (auto simp: retry_loop.simps [of a] split: option.splits if_splits prod.splits)
qed

lemma merge_call_clock:
  assumes T: "calls_take l \<delta>" and r: "merge_call k m = (m', n, e)" and l: "mLake m = l"
  shows "catClock l (mDB m) + \<delta> \<le> catClock l (mDB m') \<and> mLake m' = l"
proof -
  let ?f = "count_fn (execCount l (merge_sql k))"
  let ?I = "\<lambda>dn. catClock l (mDB m) + \<delta> \<le> catClock l (fst dn)"
  obtain d j e' where x: "retry_loop 0 (count_wait l) ?f (\<lambda>e. \<not> isOutOfMemory e) (mDB m, 0) = ((d, j), e')"
    by (metis surj_pair)
  obtain dn1 r1 where f1: "?f (mDB m, 0) = (dn1, r1)" by (cases "?f (mDB m, 0)")
  have fst_f: "fst (fst (?f dn)) = fst (catQuery l (merge_sql k) (fst dn))" for dn
    by (simp add: count_fn_def execCount_def case_prod_beta split: sum.splits)
  have fst_w: "fst (fst (count_wait l t dn)) = fst (catWait l t (fst dn))" for t dn
    by (simp add: count_wait_def case_prod_beta)
  have q: "catClock l d + \<delta> \<le> catClock l (fst (catQuery l p d))" and w: "catClock l d \<le> catClock l (fst (catWait l t d))"
    and pos: "0 < \<delta>" for d p t using T by (simp_all add: calls_take_def)
  have "?I dn1" using q [of "mDB m"] fst_f [of "(mDB m, 0)"] f1 by simp
  moreover have "keeps ?I ?f" unfolding keeps_def fst_f using q pos by (meson add_increasing2 less_imp_le order_trans)
  moreover have "keeps ?I (count_wait l t)" for t unfolding keeps_def fst_w using w by (meson order_trans)
  ultimately have "?I (d, j)" by (rule retry_loop_first [OF x f1])
  with r x l show ?thesis by (auto simp: merge_call_def retryCatalogIf_def Let_def)
qed

lemma merge_loop_terminates:
  assumes T: "calls_take l \<delta>"
  shows "mLake m = l \<Longrightarrow> 0 < fuel \<Longrightarrow> deadline - catClock l (mDB m) \<le> (int fuel - 1) * \<delta> \<Longrightarrow>
     \<exists>x. merge_loop fuel deadline ceil s m = Some x"
proof (induction fuel arbitrary: s m)
  case (Suc fuel)
  let ?cap = "min (max (mergeRamp m) mergeMinFilesPerCall) ceil"
  obtain m1 n r where mc: "merge_call ?cap m = (m1, n, r)" by (metis surj_pair)
  note adv = merge_call_clock [OF T mc Suc.prems(1)]
  show ?case
  proof (cases "catClock l (mDB m) < deadline")
    case True
    with Suc.prems(3) have pos: "0 < int fuel * \<delta>" by simp
    have dpos: "0 < \<delta>" using T by (simp add: calls_take_def)
    with pos have f0: "0 < fuel" by (simp add: zero_less_mult_iff)
    have "deadline - catClock l (mDB m1) \<le> (int fuel - 1) * \<delta>"
      using adv Suc.prems(3) by (simp add: algebra_simps)
    with Suc.IH [of "m1\<lparr>mergeRamp := min (?cap * 2) ceil\<rparr>" "s + 1"] f0 adv
    have "\<exists>x. merge_loop fuel deadline ceil (s + 1) (m1\<lparr>mergeRamp := min (?cap * 2) ceil\<rparr>) = Some x" by simp
    with mc show ?thesis by (auto simp: Let_def split: option.splits)
  next
    case False
    with Suc.prems(1) show ?thesis by (auto split: option.splits)
  qed
qed simp

lemma runBoundedMerge_terminates:
  assumes T: "calls_take l \<delta>" and l: "mLake m = l" and f: "0 < fuel" "mergeCycleBudget \<le> (int fuel - 1) * \<delta>"
  shows "\<exists>x. runBoundedMerge fuel m = Some x"
proof -
  obtain m1 c where mc: "mergeCeiling m = (m1, c)" by (cases "mergeCeiling m")
  have "mDB m1 = mDB m \<or> mDB m1 = fst (catSelect l (mDB m))" and l1: "mLake m1 = l"
    using mc l by (auto simp: mergeCeiling_def maxAvgFileBytes_def Let_def split: if_splits prod.splits option.splits)
  then have "catClock l (mDB m) \<le> catClock l (mDB m1)" using T by (auto simp: calls_take_def)
  with f(2) have "catClock l (mDB m) + mergeCycleBudget - catClock l (mDB m1) \<le> (int fuel - 1) * \<delta>" by simp
  with merge_loop_terminates [OF T, of "m1\<lparr>mergeRamp := min (mergeRamp m1) c\<rparr>" fuel] l1 f(1) mc l
  obtain x where "merge_loop fuel (catClock l (mDB m) + mergeCycleBudget) c 0 (m1\<lparr>mergeRamp := min (mergeRamp m1) c\<rparr>) = Some x"
    by fastforce
  with mc l show ?thesis by (cases x) (simp add: runBoundedMerge_def)
qed

lemma Cycle_terminates:
  assumes T: "calls_take l \<delta>" and l: "mLake m = l" and f: "0 < fuel" "mergeCycleBudget \<le> (int fuel - 1) * \<delta>"
  shows "\<exists>m' res. Cycle fuel m = Some (m', res)"
proof -
  have C: "cat_closed l UNIV (\<lambda>_. True)" by (simp add: cat_closed_def keeps_def)
  obtain m1 e1 where x1: "reassert_step m = (m1, e1)" by (cases "reassert_step m")
  obtain m2 q e2 where x2: "expire_decision e1 (reportConsumerHealth m1) = (m2, q, e2)" by (metis surj_pair)
  obtain m3 y where x3: "prepare_steps e2 m2 = (m3, y)" by (cases "prepare_steps e2 m2")
  note l1 = safe_step_lake [OF reassert_step_safe [OF C x1 l] l]
  note lh = safe_step_lake [OF reportConsumerHealth_safe [OF C l1] l1]
  note l2 = safe_step_lake [OF expire_decision_safe [OF C x2 lh] lh]
  note l3 = safe_step_lake [OF prepare_steps_safe [OF C UNIV_I x3 l2] l2]
  obtain x where "runBoundedMerge fuel m3 = Some x" using runBoundedMerge_terminates [OF T l3 f] by blast
  then have "\<exists>z. merge_step fuel e m3 = Some z" for e by (auto simp: merge_step_def)
  then obtain m4 e4 where "\<And>e. y = Inr e \<Longrightarrow> merge_step fuel e m3 = Some (m4, e4)"
    by (cases y) (auto, metis surj_pair)
  then show ?thesis
    using x1 x2 x3 by (cases y) (auto simp: Cycle_def split: prod.splits sum.splits)
qed

end
