(* ===== verification/Lake_Instances.thy ===== *)
theory Lake_Instances
  imports Maintain_Inv
begin

text \<open>
  A small catalog database: it keeps its tables in a record, reads the cutoff out of an expiry
  call, writes down the calls it gets and answers them from a script. It meets the hypotheses
  of the theorems about the lake and serves to evaluate them.
\<close>

record catdb =
  cNow :: epoch_us
  cClock :: go_time
  cProgress :: "progress_row list"
  cSnapshots :: "snapshot_row list"
  cLog :: "string list"
  cScript :: "(nat \<times> go_error option) result list"
  cPartitioned :: nat
  cSorted :: nat
  cPause :: "epoch_us list"
  cEncrypted :: bool

section \<open>Reading a cutoff\<close>

definition expire_prefix :: string where
  "expire_prefix = ''CALL ducklake_expire_snapshots('' @ sqlString ''lake'' @ '', older_than => to_timestamp(''"

definition read_us :: "string \<Rightarrow> epoch_us" where
  "read_us s =
     (if has_prefix s ''-'' then - int (read_nat (filter (\<lambda>c. c \<noteq> CHR ''.'') (tl s)))
      else int (read_nat (filter (\<lambda>c. c \<noteq> CHR ''.'') s)))"

definition read_cutoff :: "string \<Rightarrow> epoch_us option" where
  "read_cutoff q =
     (let c = read_us (take (length q - length expire_prefix - 2) (drop (length expire_prefix) q))
      in if expire_sql c = q then Some c else None)"

lemma read_cutoff_Some: "read_cutoff q = Some c \<Longrightarrow> q = expire_sql c"
  by (auto simp: read_cutoff_def Let_def split: if_splits)

lemma read_nat_append: "read_nat (s @ t) = read_nat s * 10 ^ length t + read_nat t"
proof (induction t rule: rev_induct)
  case (snoc c t)
  then show ?case by (simp add: read_nat_def algebra_simps)
qed (simp add: read_nat_def)

lemma length_show_nat: "n < 10 ^ k \<Longrightarrow> 0 < k \<Longrightarrow> length (show_nat n) \<le> k"
proof (induction n arbitrary: k rule: show_nat.induct)
  case (1 n)
  show ?case
  proof (cases "n < 10")
    case False
    with "1.prems" have "k \<noteq> 0" "k \<noteq> 1" by auto
    then obtain j where k: "k = Suc j" "0 < j" by (cases k) auto
    then have "n div 10 < 10 ^ j" using "1.prems" by (simp add: less_mult_imp_div_less)
    with 1 False k show ?thesis by (simp add: show_nat.simps [of n])
  qed (use 1 in \<open>simp add: show_nat.simps [of n]\<close>)
qed

lemma no_dot: "filter (\<lambda>c. c \<noteq> CHR ''.'') (pad0 w (show_nat n)) = pad0 w (show_nat n)"
  "filter (\<lambda>c. c \<noteq> CHR ''.'') (show_nat n) = show_nat n"
proof -
  have "filter (\<lambda>c. c \<noteq> CHR ''.'') xs = xs" if "CHR ''.'' \<notin> set xs" for xs
    using that by (induction xs) auto
  then show "filter (\<lambda>c. c \<noteq> CHR ''.'') (pad0 w (show_nat n)) = pad0 w (show_nat n)"
    "filter (\<lambda>c. c \<noteq> CHR ''.'') (show_nat n) = show_nat n"
    using show_nat_no_dot [of w n] show_nat_no_dot [of 0 n] by (simp_all add: pad0_def)
qed

lemma read_us_fmt_f: "read_us (fmt_f us) = us"
proof -
  let ?n = "nat \<bar>us\<bar>"
  let ?s = "show_nat (?n div 1000000) @ ''.'' @ pad0 6 (show_nat (?n mod 1000000))"
  have "length (show_nat (?n mod 1000000)) \<le> 6" by (rule length_show_nat) simp_all
  then have "length (pad0 6 (show_nat (?n mod 1000000))) = 6" by (simp add: pad0_def)
  then have r: "read_nat (filter (\<lambda>c. c \<noteq> CHR ''.'') ?s) = ?n"
    by (simp add: no_dot read_nat_append read_show_nat read_pad0)
  have np: "\<not> has_prefix ?s ''-''"
  proof -
    obtain c r where c: "show_nat (?n div 1000000) = c # r"
      by (metis list.exhaust show_nat.simps snoc_eq_iff_butlast not_Cons_self2)
    then have "48 \<le> (of_char c :: nat)" using show_nat_digits [of c "?n div 1000000"] by simp
    then show ?thesis by (auto simp: c has_prefix_def)
  qed
  show ?thesis
  proof (cases "us < 0")
    case True
    then have "fmt_f us = CHR ''-'' # ?s" by (simp add: fmt_f_def)
    with r True show ?thesis by (simp add: read_us_def has_prefix_def)
  next
    case False
    then have "fmt_f us = ?s" by (simp add: fmt_f_def)
    with r np False show ?thesis by (simp add: read_us_def)
  qed
qed

lemma read_cutoff_expire: "read_cutoff (expire_sql c) = Some c"
proof -
  have q: "expire_sql c = expire_prefix @ fmt_f c @ ''))''" by (simp add: expire_sql_def expire_prefix_def)
  have "take (length (expire_sql c) - length expire_prefix - 2) (drop (length expire_prefix) (expire_sql c)) = fmt_f c"
    unfolding q by simp
  then show ?thesis by (simp add: read_cutoff_def read_us_fmt_f)
qed

section \<open>The database\<close>

definition query0 :: "string \<Rightarrow> catdb \<Rightarrow> catdb \<times> (nat \<times> go_error option) result" where
  "query0 q d =
     (let d1 = d\<lparr>cClock := cClock d + second, cLog := cLog d @ [q], cScript := tl (cScript d),
                cSnapshots := (case read_cutoff q of
                   Some c \<Rightarrow> filter (\<lambda>s. c \<le> snapshot_time s) (cSnapshots d) | None \<Rightarrow> cSnapshots d)\<rparr>
      in (d1, case cScript d of [] \<Rightarrow> Inr (0, None) | r # _ \<Rightarrow> r))"

definition exec_cat0 :: "string \<Rightarrow> catdb \<Rightarrow> catdb" where
  "exec_cat0 q d =
     (if q = layout_partitioned then d\<lparr>cPartitioned := 4\<rparr>
      else if q = layout_sorted then d\<lparr>cSorted := 1\<rparr> else d)"

definition cat0 :: "catdb cat_ops" where
  "cat0 = \<lparr>catConnect = (\<lambda>d. (d, None)), catSetMaxOpenConns = (\<lambda>n d. d), catCloseDB = (\<lambda>d. d),
     catMkdirAll = (\<lambda>p d. (d, None)), catExec = (\<lambda>q d. (exec_cat0 q d, None)), catSelect = (\<lambda>d. (d, None)),
     catQuery = query0, catConn = (\<lambda>d. (d, Inr 0)), catConnExec = (\<lambda>k q args c d. (d, None)),
     catConnClose = (\<lambda>c d. d), catBeginTx = (\<lambda>d. (d, Inr 0)), catTxExec = (\<lambda>q tx d. (d, None)),
     catTxQuery = (\<lambda>q tx d. (d, Inr (0, None))), catTxCommit = (\<lambda>tx d. (d, None)), catTxRollback = (\<lambda>tx d. d),
     catWait = (\<lambda>t d. (d, None)), catCtxErr = (\<lambda>d. None), catClock = cClock, catTick = (\<lambda>d. (d, True)),
     catNow = cNow, catProgress = cProgress, catSnapshots = cSnapshots,
     catTableInfo = (\<lambda>d. [\<lparr>table_name = ''raw_events'', file_count = 10, file_size_bytes = 40960\<rparr>]),
     catPause = cPause, catHasTable = (\<lambda>t d. True), catPartitionColumns = cPartitioned,
     catSortSpecs = cSorted, catEncrypted = (\<lambda>d. Some (cEncrypted d))\<rparr>"

lemmas cat0_simps = cat0_def cat_ops.simps

definition float0 :: float_lib where
  "float0 = \<lparr>ParseFloat = (\<lambda>s. if s = ''1'' then Some (Fin 1) else None), FormatG = (\<lambda>x. ''0.5'')\<rparr>"

definition mcfg0 :: maint_config where
  "mcfg0 = \<lparr>Interval = 0, SnapshotKeep = 0, ConsumerStaleness = 0, OrphanRetention = 0, FileCleanupGrace = 0,
     MergeMaxFilesPerCall = 0, MemoryLimit = ''1GB'', RewriteDeleteThreshold = Fin 0\<rparr>"

definition snap0 :: snapshot_row where "snap0 = \<lparr>snapshot_id = 7, snapshot_time = 1000000\<rparr>"

text \<open>A consumer that reported just now and has consumed up to snapshot 6, thirty days after
  snapshot 7 was made.\<close>

definition catdb0 :: catdb where
  "catdb0 = \<lparr>cNow = 2592000000000, cClock = 0,
     cProgress = [\<lparr>consumer = ''dq'', cursor = 6, updated_at = 2592000000000\<rparr>],
     cSnapshots = [\<lparr>snapshot_id = 3, snapshot_time = 500000\<rparr>, snap0], cLog = [], cScript = [],
     cPartitioned = 4, cSorted = 1, cPause = [], cEncrypted = True\<rparr>"

definition maint0 :: "catdb maint" where "maint0 = NewMaintainer float0 cat0 catdb0 mcfg0"

lemma query0_snapshots: "read_cutoff q = None \<Longrightarrow> cSnapshots (fst (query0 q d)) = cSnapshots d"
  by (simp add: query0_def Let_def)

lemma exec_cat0_frame [simp]:
  "cSnapshots (exec_cat0 q d) = cSnapshots d" "cNow (exec_cat0 q d) = cNow d"
  "cProgress (exec_cat0 q d) = cProgress d" "cLog (exec_cat0 q d) = cLog d" "cClock (exec_cat0 q d) = cClock d"
  by (simp_all add: exec_cat0_def)

lemma query0_frame [simp]:
  "cNow (fst (query0 q d)) = cNow d" "cProgress (fst (query0 q d)) = cProgress d"
  "cClock (fst (query0 q d)) = cClock d + second" "cLog (fst (query0 q d)) = cLog d @ [q]"
  by (simp_all add: query0_def Let_def)

lemma ducklake_snapshots_cat0: "ducklake_snapshots cat0"
proof -
  have "read_cutoff q = None" if "\<forall>c. q \<noteq> expire_sql c" for q
    using that read_cutoff_Some [of q] by (cases "read_cutoff q") auto
  moreover have "cSnapshots (fst (query0 (expire_sql c) d)) = filter (\<lambda>s. c \<le> snapshot_time s) (cSnapshots d)" for c d
    by (simp add: query0_def Let_def read_cutoff_expire)
  ultimately show ?thesis
    by (simp add: ducklake_snapshots_def cat_closed_def keeps_def cat0_simps query0_snapshots)
qed

lemma calls_take_cat0: "calls_take cat0 second"
  by (simp add: calls_take_def cat0_simps duration_defs)

text \<open>What no statement of the database changes.\<close>

definition same_report :: "catdb \<Rightarrow> bool" where
  "same_report d \<longleftrightarrow> cNow d = cNow catdb0 \<and> cProgress d = cProgress catdb0"

lemma same_report_closed: "cat_closed cat0 UNIV same_report"
  by (simp add: cat_closed_def keeps_def same_report_def cat0_simps)

lemma maint0_simps [simp]: "mLake maint0 = cat0" "mDB maint0 = catdb0" "mCfg maint0 = applyDefaults_maint mcfg0"
  by (simp_all add: maint0_def NewMaintainer_def Let_def)

lemma maint0_db: "maint0\<lparr>mDB := catdb0\<rparr> = maint0"
  by (simp add: maint0_def NewMaintainer_def Let_def)

lemma catdb0_sel:
  "cNow catdb0 = 2592000000000" "cProgress catdb0 = [\<lparr>consumer = ''dq'', cursor = 6, updated_at = 2592000000000\<rparr>]"
  "cSnapshots catdb0 = [\<lparr>snapshot_id = 3, snapshot_time = 500000\<rparr>, snap0]"
  by (simp_all add: catdb0_def)

lemma unconsumed_snap0: "same_report d \<Longrightarrow> unconsumed cat0 (applyDefaults_maint mcfg0) snap0 d"
  by (simp add: unconsumed_def live_def same_report_def catdb0_def snap0_def cat0_simps mcfg0_def
      applyDefaults_maint_def whole_seconds_def quot_def duration_defs)

end
