(* ===== verification/Maintain_Props.thy ===== *)
theory Maintain_Props
  imports Lake_Instances
begin

text \<open>The properties of the maintenance of the lake, with what they need beyond the invariants.\<close>

section \<open>Helper lemmas\<close>

definition fails :: "go_error option \<Rightarrow> bool" where
  "fails r \<longleftrightarrow> (\<exists>e. r = Some e \<and> \<not> errors_is e CtxCanceled)"

text \<open>The results of the cycles of a run, as long as the ticker fires.\<close>

fun cycle_results :: "nat \<Rightarrow> nat \<Rightarrow> 'd maint \<Rightarrow> go_error option list" where
  "cycle_results 0 fuel m = []"
| "cycle_results (Suc n) fuel m =
     (case Cycle fuel m of
        None \<Rightarrow> []
      | Some (m1, err) \<Rightarrow>
          err # (case catTick (mLake m1) (mDB m1) of
                   (d2, True) \<Rightarrow> cycle_results n fuel (m1\<lparr>mDB := d2\<rparr>) | (d2, False) \<Rightarrow> []))"

lemma run_loop_wedged:
  "run_loop n fuel k m = Some (m', Some e) \<Longrightarrow> k < 4 \<Longrightarrow>
     \<exists>j e0. j < length (cycle_results n fuel m) \<and> 3 \<le> j + k \<and>
       (\<forall>i\<le>j. j < i + 4 \<longrightarrow> fails (cycle_results n fuel m ! i)) \<and>
       cycle_results n fuel m ! j = Some e0 \<and> e = wedged_error 4 e0"
proof (induction n arbitrary: k m)
  case (Suc n)
  from Suc.prems obtain m1 err where cy: "Cycle fuel m = Some (m1, err)" by (auto split: option.splits)
  obtain d2 b where t: "catTick (mLake m1) (mDB m1) = (d2, b)" by (cases "catTick (mLake m1) (mDB m1)")
  let ?rs = "cycle_results n fuel (m1\<lparr>mDB := d2\<rparr>)"
  have next_step: ?case
    if "run_loop n fuel k' (m1\<lparr>mDB := d2\<rparr>) = Some (m', Some e)" "b" "k' < 4"
      "k' = 0 \<or> (fails err \<and> k' = k + 1)" for k'
  proof -
    from Suc.IH [OF that(1,3)] obtain j e0 where j: "j < length ?rs" "3 \<le> j + k'"
      "\<forall>i\<le>j. j < i + 4 \<longrightarrow> fails (?rs ! i)" "?rs ! j = Some e0" "e = wedged_error 4 e0" by blast
    have rs: "cycle_results (Suc n) fuel m = err # ?rs" using cy t that(2) by simp
    have "fails ((err # ?rs) ! i)" if "i \<le> Suc j" "Suc j < i + 4" for i
      using that j(2,3) \<open>k' = 0 \<or> fails err \<and> k' = k + 1\<close> by (cases i) auto
    moreover have "3 \<le> Suc j + k" using j(2) that(4) by auto
    ultimately show ?case
      unfolding rs using j by (intro exI [of _ "Suc j"] exI [of _ e0]) auto
  qed
  show ?case
  proof (cases "fails err")
    case True
    then obtain e1 where e1: "err = Some e1" "\<not> errors_is e1 CtxCanceled" by (auto simp: fails_def)
    show ?thesis
    proof (cases "k = 3")
      case True
      with Suc.prems cy e1 have "e = wedged_error 4 e1" by (simp add: maxConsecutiveCycleFailures_def)
      with cy True \<open>fails err\<close> e1 show ?thesis by (intro exI [of _ 0] exI [of _ e1]) (auto split: prod.splits bool.splits)
    next
      case False
      with Suc.prems cy e1 t have "run_loop n fuel (k + 1) (m1\<lparr>mDB := d2\<rparr>) = Some (m', Some e)" "b"
        by (auto simp: maxConsecutiveCycleFailures_def split: bool.splits)
      with next_step [of "k + 1"] False Suc.prems(2) \<open>fails err\<close> show ?thesis by simp
    qed
  next
    case False
    then have "err = None \<or> (\<exists>e1. err = Some e1 \<and> errors_is e1 CtxCanceled)" by (auto simp: fails_def)
    with Suc.prems cy t have "run_loop n fuel 0 (m1\<lparr>mDB := d2\<rparr>) = Some (m', Some e)" "b"
      by (auto split: bool.splits)
    with next_step [of 0] show ?thesis by simp
  qed
qed simp

lemma run_loop_gives_up:
  "k < 4 \<Longrightarrow> 4 \<le> n + k \<Longrightarrow> 4 \<le> length (cycle_results n fuel m) + k \<Longrightarrow>
   (\<And>i. i < 4 - k \<Longrightarrow> fails (cycle_results n fuel m ! i)) \<Longrightarrow>
   \<exists>m' e0. run_loop n fuel k m = Some (m', Some (wedged_error 4 e0))"
proof (induction n arbitrary: k m)
  case (Suc n)
  from Suc.prems obtain m1 err where cy: "Cycle fuel m = Some (m1, err)" by (auto split: option.splits)
  obtain d2 b where t: "catTick (mLake m1) (mDB m1) = (d2, b)" by (cases "catTick (mLake m1) (mDB m1)")
  have "fails err" using Suc.prems(4) [of 0] Suc.prems(1) cy by simp
  then obtain e1 where e1: "err = Some e1" "\<not> errors_is e1 CtxCanceled" by (auto simp: fails_def)
  show ?case
  proof (cases "k = 3")
    case True
    with cy e1 show ?thesis by (auto simp: maxConsecutiveCycleFailures_def)
  next
    case False
    with Suc.prems(1) have k1: "k + 1 < 4" by simp
    have b: "b" using Suc.prems(3) k1 cy t by (auto split: bool.splits)
    let ?m2 = "m1\<lparr>mDB := d2\<rparr>"
    have rs: "cycle_results (Suc n) fuel m = err # cycle_results n fuel ?m2" using cy t b by simp
    have "\<exists>m' e0. run_loop n fuel (k + 1) ?m2 = Some (m', Some (wedged_error 4 e0))"
    proof (rule Suc.IH [OF k1])
      show "4 \<le> n + (k + 1)" using Suc.prems(2) by simp
      show "4 \<le> length (cycle_results n fuel ?m2) + (k + 1)" using Suc.prems(3) rs by simp
      show "fails (cycle_results n fuel ?m2 ! i)" if "i < 4 - (k + 1)" for i
        using Suc.prems(4) [of "Suc i"] that rs by simp
    qed
    with cy e1 t b k1 show ?thesis by (simp add: maxConsecutiveCycleFailures_def)
  qed
qed simp

text \<open>A view of the database that writes down the maintenance calls.\<close>

definition logs_calls :: "'d cat_ops \<Rightarrow> ('d \<Rightarrow> string list) \<Rightarrow> bool" where
  "logs_calls l calls \<longleftrightarrow>
     (\<forall>q d. calls (fst (catQuery l q d)) = calls d @ [q]) \<and>
     (\<forall>xs. cat_closed l {} (\<lambda>d. calls d = xs))"

lemma logs_calls_closed:
  assumes "logs_calls l calls"
  shows "cat_closed l Q (\<lambda>d. \<exists>qs. calls d = xs @ qs \<and> set qs \<subseteq> Q)"
proof -
  have "cat_closed l {} (\<lambda>x. calls x = calls d)" for d using assms by (simp add: logs_calls_def)
  note eqs = cat_closed_fst(1-7) [OF this refl]
  have "keeps (\<lambda>d. \<exists>qs. calls d = xs @ qs \<and> set qs \<subseteq> Q) (catQuery l q)" if "q \<in> Q" for q
    using assms that by (auto simp: keeps_def logs_calls_def)
  moreover have "cat_closed l {} (\<lambda>d. \<exists>qs. calls d = xs @ qs \<and> set qs \<subseteq> Q)"
    using eqs by (simp add: cat_closed_def keeps_def)
  ultimately show ?thesis by (simp add: cat_closed_def)
qed

lemma logs_calls_cat0: "logs_calls cat0 cLog"
  by (simp add: logs_calls_def cat_closed_def keeps_def cat0_simps)

text \<open>When the context is done, a cycle stops before its first call and returns the context's
  error.\<close>

lemma Cycle_ctx_done:
  assumes "\<And>d. catCtxErr l d = Some e" "mLake m = l"
  shows "\<exists>m'. Cycle fuel m = Some (m', Some e) \<and> mLake m' = l"
proof -
  have C: "cat_closed l UNIV (\<lambda>_. True)" by (simp add: cat_closed_def keeps_def)
  obtain m1 e1 where x1: "reassert_step m = (m1, e1)" by (cases "reassert_step m")
  obtain m2 q e2 where x2: "expire_decision e1 (reportConsumerHealth m1) = (m2, q, e2)" by (metis surj_pair)
  note l1 = safe_step_lake [OF reassert_step_safe [OF C x1 assms(2)] assms(2)]
  note lh = safe_step_lake [OF reportConsumerHealth_safe [OF C l1] l1]
  note l2 = safe_step_lake [OF expire_decision_safe [OF C x2 lh] lh]
  then have "prepare_steps e2 m2 = (m2, Inl e)" using assms(1) by (simp add: prepare_steps_def)
  with x1 x2 l2 show ?thesis by (simp add: Cycle_def)
qed

lemma cycle_results_ctx_done:
  assumes "\<And>d. catCtxErr l d = Some e" "\<And>d. catTick l d = (d, True)"
  shows "mLake m = l \<Longrightarrow> cycle_results n fuel m = replicate n (Some e)"
proof (induction n arbitrary: m)
  case (Suc n)
  obtain m' where c: "Cycle fuel m = Some (m', Some e)" "mLake m' = l"
    using Cycle_ctx_done [OF assms(1) Suc.prems] by blast
  with Suc.IH [of m'] assms(2) show ?case by simp
qed simp

definition maint1 :: "catdb maint" where
  "maint1 = maint0\<lparr>mLake := cat0\<lparr>catCtxErr := \<lambda>d. Some (sentinel_error CtxDeadlineExceeded)\<rparr>\<rparr>"

lemma cycle_results_maint1: "cycle_results n fuel maint1 = replicate n (Some (sentinel_error CtxDeadlineExceeded))"
  by (rule cycle_results_ctx_done [where l = "mLake maint1"]) (simp_all add: maint1_def cat0_simps)

lemma orphan_sql_distinct:
  "orphan_sql d \<noteq> flush_sql" "orphan_sql d \<noteq> cleanup_sql cfg" "orphan_sql d \<noteq> merge_sql k" "orphan_sql d \<noteq> expire_sql c"
  by (simp_all add: orphan_sql_def flush_sql_def cleanup_sql_def merge_sql_def expire_sql_def)

definition cleanup_all_sql :: string where
  "cleanup_all_sql = ''CALL ducklake_cleanup_old_files('' @ sqlString ''lake'' @ '', cleanup_all => true)''"

lemma cleanup_all_distinct:
  "cleanup_all_sql \<noteq> flush_sql" "cleanup_all_sql \<noteq> merge_sql k" "cleanup_all_sql \<noteq> expire_sql c"
  "cleanup_all_sql \<noteq> orphan_sql d" "0 \<le> FileCleanupGrace cfg \<Longrightarrow> cleanup_all_sql \<noteq> cleanup_sql cfg"
  by (simp_all add: cleanup_all_sql_def orphan_sql_def flush_sql_def cleanup_sql_def merge_sql_def expire_sql_def older_than_def)

lemma Cycle_calls:
  assumes L: "logs_calls l calls" and l: "mLake m = l" and r: "Cycle fuel m = Some (m', res)"
  shows "\<exists>qs. calls (mDB m') = calls (mDB m) @ qs \<and> set qs \<subseteq> cycle_calls (mCfg m) \<union> range expire_sql"
proof -
  let ?Q = "cycle_calls (mCfg m) \<union> range expire_sql"
  let ?I = "\<lambda>d. \<exists>qs. calls d = calls (mDB m) @ qs \<and> set qs \<subseteq> ?Q"
  have C: "cat_closed l ?Q ?I" by (rule logs_calls_closed [OF L])
  have "?I (mDB m')"
  proof (rule Cycle_keeps [OF cat_closed_mono [OF C] _ r l])
    show "keeps ?I (catQuery l (expire_sql c))" for c using C by (simp add: cat_closed_def)
  qed auto
  then show ?thesis .
qed

lemma Min_insert_cases:
  fixes r :: "'a :: linorder"
  shows "Min (insert r (set ts)) = (if ts = [] \<or> r \<le> Min (set ts) then r else Min (set ts))"
  by (cases "ts = []") (auto simp: min_def)

lemma cutoff_cases:
  fixes r :: "'a :: linorder"
  assumes "(c, b) = (if ts = [] \<or> r \<le> Min (set ts) then (r, False) else (Min (set ts), True))"
  shows "c = Min (insert r (set ts))" "b \<longleftrightarrow> c < r"
proof -
  have "c = Min (insert r (set ts)) \<and> (b \<longleftrightarrow> c < r)"
  proof (cases "ts = [] \<or> r \<le> Min (set ts)")
    case True
    with assms have "c = r" "\<not> b" by (simp_all only: if_True prod.inject not_False_eq_True simp_thms)
    with True show ?thesis by (simp only: Min_insert_cases if_True order.irrefl simp_thms)
  next
    case False
    with assms have "c = Min (set ts)" "b" by (simp_all only: if_False prod.inject simp_thms)
    moreover have "Min (set ts) < r" using False by (meson not_le)
    ultimately show ?thesis using False by (simp only: Min_insert_cases if_False simp_thms)
  qed
  then show "c = Min (insert r (set ts))" "b \<longleftrightarrow> c < r" by blast+
qed

section \<open>Expiry\<close>







section \<open>Merging\<close>

text \<open>C14. Merging is bounded: the calls of a merge pass are merges of at least one file and at most the
  pass's ceiling, itself at most a thousand, and the ramp the next pass starts from stays
  within that ceiling, whatever the calls return.\<close>

theorem merge_calls_bounded:
  assumes "logs_calls l calls" "mLake m = l" "runBoundedMerge fuel m = Some (m', subCalls, e)"
  shows "\<exists>ks. calls (mDB m') = calls (mDB m) @ map merge_sql ks \<and>
    (\<forall>k\<in>set ks. 1 \<le> k \<and> k \<le> snd (mergeCeiling m)) \<and>
    snd (mergeCeiling m) \<le> 1000 \<and> mergeRamp m' \<le> snd (mergeCeiling m)"
proof -
  let ?c = "snd (mergeCeiling m)"
  let ?Q = "merge_sql ` {1..?c}"
  let ?I = "\<lambda>d. \<exists>qs. calls d = calls (mDB m) @ qs \<and> set qs \<subseteq> ?Q"
  have C: "cat_closed l ?Q ?I" by (rule logs_calls_closed [OF assms(1)])
  have s: "safe_step l ?I m m'" "mergeRamp m' \<le> ?c"
    by (rule runBoundedMerge_safe [OF C _ assms(3,2)], simp)+
  then obtain qs where qs: "calls (mDB m') = calls (mDB m) @ qs" "set qs \<subseteq> ?Q"
    using assms(2) by (auto simp: safe_step_def)
  have "\<exists>ks. qs = map merge_sql ks \<and> set ks \<subseteq> {1..?c}" if "set qs \<subseteq> ?Q" for qs
    using that
  proof (induction qs)
    case (Cons q qs)
    then obtain k ks where "q = merge_sql k" "k \<in> {1..?c}" "qs = map merge_sql ks" "set ks \<subseteq> {1..?c}" by auto
    then show ?case by (intro exI [of _ "k # ks"]) simp
  qed simp
  with qs(2) obtain ks where "qs = map merge_sql ks" "set ks \<subseteq> {1..?c}" by blast
  with qs s(2) mergeCeiling_bounds [of m] show ?thesis
    by (intro exI [of _ ks]) (auto simp: mergeMaxFilesHardCeiling_def prod_eq_iff)
qed

theorem merge_calls_bounded_witness:
  "\<exists>m' subCalls e ks. runBoundedMerge 1801 maint0 = Some (m', subCalls, e) \<and>
     cLog (mDB m') = map merge_sql ks \<and> (\<forall>k\<in>set ks. 1 \<le> k \<and> k \<le> 1000)"
proof -
  obtain m' subCalls e where r: "runBoundedMerge 1801 maint0 = Some (m', subCalls, e)"
    using runBoundedMerge_terminates [OF calls_take_cat0, of maint0 1801]
    by (auto simp: mergeCycleBudget_def maintStepTimeout_def duration_defs)
  from merge_calls_bounded [OF logs_calls_cat0 _ r] obtain ks where
    "cLog (mDB m') = cLog (mDB maint0) @ map merge_sql ks"
    "\<forall>k\<in>set ks. 1 \<le> k \<and> k \<le> snd (mergeCeiling maint0)" "snd (mergeCeiling maint0) \<le> 1000" by auto
  with r show ?thesis by (auto simp: catdb0_def intro!: exI [of _ ks])
qed

text \<open>The derived ceiling fits the memory budget: without an explicit pin, the files one merge call
  may rewrite, at the largest average size in the lake, take at most half the configured memory,
  unless a single file already exceeds it.\<close>

lemma merge_ceiling_fits_memory:
  assumes "MergeMaxFilesPerCall (mCfg m) \<le> 0" "0 < memBudgetBytes m" "memBudgetBytes m < 2 ^ 53"
    "maxAvgFileBytes m = (m1, avg)" "0 < avg"
  shows "snd (mergeCeiling m) = 1 \<or> 2 * (snd (mergeCeiling m) * avg) \<le> memBudgetBytes m"
proof -
  let ?b = "memBudgetBytes m div 2"
  let ?c = "snd (mergeCeiling m)"
  have c: "?c = min (max (?b div avg) 1) 1000"
    using assms by (simp add: mergeCeiling_def round53_exact quot_nonneg mergeMinFilesPerCall_def
        mergeMaxFilesHardCeiling_def Let_def)
  have "?b div avg * avg \<le> ?b" using assms(5) by (metis div_mult_mod_eq le_add_same_cancel1 pos_mod_sign)
  moreover have "?c * avg \<le> ?b div avg * avg" if "?c \<noteq> 1"
    using that c assms(5) by (intro mult_right_mono) (auto simp: min_def max_def split: if_splits)
  ultimately show ?thesis by fastforce
qed

lemma merge_ceiling_fits_memory_witness:
  "mergeCeiling maint0 = (maint0, 1000) \<and> 2 * (1000 * 4096) \<le> memBudgetBytes maint0"
proof -
  have b: "memBudgetBytes maint0 = 2 ^ 30"
  proof -
    have "to_lower (trim_space ''1GB'') = ''1gb''" "trim_space ''1GB'' \<noteq> []" by code_simp+
    moreover have "match_unit ''1gb'' byte_units = (''1'', 2 ^ 30)" by code_simp
    ultimately have "parseByteSize float0 ''1GB'' = 2 ^ 30"
      by (simp add: parseByteSize_def float0_def rat_trunc_def in_int64_def)
    then show ?thesis by (simp add: maint0_def NewMaintainer_def Let_def applyDefaults_maint_def mcfg0_def)
  qed
  have a: "maxAvgFileBytes maint0 = (maint0, 4096)"
    by (simp add: maxAvgFileBytes_def cat0_simps Let_def maint0_db rat_trunc_def in_int64_def)
  have p: "MergeMaxFilesPerCall (mCfg maint0) \<le> 0" by (simp add: mcfg0_def applyDefaults_maint_def Let_def)
  have c: "mergeCeiling maint0 = (maint0, 1000)"
    using p b a by (simp add: mergeCeiling_def round53_exact quot_nonneg mergeMinFilesPerCall_def
        mergeMaxFilesHardCeiling_def Let_def)
  from merge_ceiling_fits_memory [OF p _ _ a] b c show ?thesis by simp
qed

section \<open>Progress\<close>

text \<open>C15. A cycle always ends: when every maintenance call takes at least some fixed time and the clock
  does not go back, the merge loop runs into its deadline, and with fuel for the thirty-minute
  budget the cycle returns, whatever the calls return.\<close>

theorem maintenance_cycle_returns:
  assumes "calls_take l \<delta>" "mLake m = l" "0 < fuel" "mergeCycleBudget \<le> (int fuel - 1) * \<delta>"
  shows "\<exists>m' res. Cycle fuel m = Some (m', res)"
  by (rule Cycle_terminates [OF assms])

theorem maintenance_cycle_returns_witness:
  "\<exists>m' res. Cycle 1801 maint0 = Some (m', res)"
  by (rule maintenance_cycle_returns [OF calls_take_cat0])
    (simp_all add: mergeCycleBudget_def maintStepTimeout_def duration_defs)

text \<open>C16. The restart backstop: the loop returns an error only after four consecutive cycles failed for
  a reason other than cancellation, and names that count and the last error; and when the first
  four cycles fail, it does return.\<close>

theorem run_restarts_when_wedged:
  "(Run_maint n fuel m = Some (m', Some e) \<longrightarrow>
     (\<exists>j e0. 3 \<le> j \<and> j < length (cycle_results n fuel m) \<and>
        (\<forall>i\<le>j. j < i + 4 \<longrightarrow> fails (cycle_results n fuel m ! i)) \<and>
        cycle_results n fuel m ! j = Some e0 \<and> e = wedged_error 4 e0)) \<and>
   (4 \<le> n \<and> 4 \<le> length (cycle_results n fuel m) \<and> (\<forall>i<4. fails (cycle_results n fuel m ! i)) \<longrightarrow>
     (\<exists>m' e0. Run_maint n fuel m = Some (m', Some (wedged_error 4 e0))))"
  using run_loop_wedged [of n fuel 0 m m' e] run_loop_gives_up [of 0 n fuel m]
  unfolding Run_maint_def by auto

theorem run_restarts_when_wedged_witness:
  "\<exists>m' e0. Run_maint 4 1 maint1 = Some (m', Some (wedged_error 4 e0)) \<and>
     cycle_results 4 1 maint1 ! 3 = Some (sentinel_error CtxDeadlineExceeded)"
proof -
  have "fails (cycle_results 4 1 maint1 ! i)" if "i < 4" for i
    using that by (simp add: cycle_results_maint1 fails_def)
  then have "\<exists>m' e0. Run_maint 4 1 maint1 = Some (m', Some (wedged_error 4 e0))"
    using run_restarts_when_wedged [of 4 1 maint1] by (simp add: cycle_results_maint1)
  then show ?thesis by (simp add: cycle_results_maint1)
qed

end
