(* ===== verification/Lake_Props.thy ===== *)
theory Lake_Props
  imports Lake_Instances
begin

text \<open>The properties of opening the lake: quoting, redaction, the encryption check and the layout.\<close>

section \<open>Helper lemmas\<close>

definition quotes :: "string \<Rightarrow> nat" where "quotes s = length (filter (\<lambda>c. c = sq) s)"

lemma quotes_append [simp]: "quotes (a @ b) = quotes a + quotes b"
  by (simp add: quotes_def)

lemma quotes_Cons: "quotes (c # s) = (if c = sq then 1 else 0) + quotes s"
  by (simp add: quotes_def)

lemma quotes_sqlString: "even (quotes (sqlString v))"
  unfolding quotes_def by (rule sqlString_even)

lemma sq_chars: "sq = CHR 0x27"
  unfolding sq_def by code_simp

lemma contains_appendI: "contains a p \<Longrightarrow> contains (a @ b) p" "contains b p \<Longrightarrow> contains (a @ b) p"
  by (auto simp: contains_iff) (metis append.assoc)+

text \<open>The statement that creates the secret, cut at its two secret literals.\<close>

definition secret_head :: string where
  "secret_head = ''CREATE OR REPLACE SECRET lake_s3 (TYPE s3, PROVIDER config, KEY_ID ''"

lemma s3_location_parts_frame:
  "s3_location_parts p (cfg\<lparr>S3AccessKeyID := k, S3SecretAccessKey := s\<rparr>) = s3_location_parts p cfg"
proof -
  let ?c = "cfg\<lparr>S3AccessKeyID := k, S3SecretAccessKey := s\<rparr>"
  have "S3Region ?c = S3Region cfg" "S3KMSKeyID ?c = S3KMSKeyID cfg" "S3Endpoint ?c = S3Endpoint cfg" by simp_all
  then show ?thesis unfolding s3_location_parts_def by (simp only:)
qed

lemma s3SecretSQL_shape:
  assumes "S3AccessKeyID cfg \<noteq> []"
  shows "\<exists>t. \<forall>k s. k \<noteq> [] \<longrightarrow> s3SecretSQL p (cfg\<lparr>S3AccessKeyID := k, S3SecretAccessKey := s\<rparr>) =
     secret_head @ sqlString k @ '', SECRET '' @ sqlString s @ t"
proof -
  let ?c = "\<lambda>k s. cfg\<lparr>S3AccessKeyID := k, S3SecretAccessKey := s\<rparr>"
  let ?rest = "s3_location_parts p cfg"
  let ?ps = "\<lambda>k s. [''TYPE s3'', ''PROVIDER config'', ''KEY_ID '' @ sqlString k, ''SECRET '' @ sqlString s]"
  have "s3SecretSQL p (?c k s) = ''CREATE OR REPLACE SECRET lake_s3 ('' @ intercalate '', '' (?ps k s @ ?rest) @ '')''"
    if "k \<noteq> []" for k s
    using that by (simp add: s3SecretSQL_def s3_location_parts_frame)
  moreover have "intercalate '', '' (?ps k s @ ?rest) @ '')'' =
      ''TYPE s3, PROVIDER config, KEY_ID '' @ sqlString k @ '', SECRET '' @ sqlString s @
        (if ?rest = [] then '''' else '', '' @ intercalate '', '' ?rest) @ '')''" for k s
    using intercalate_append [of "?ps k s" ?rest "'', ''"] by (cases "?rest = []") simp_all
  ultimately have "s3SecretSQL p (?c k s) = secret_head @ sqlString k @ '', SECRET '' @ sqlString s @
      ((if ?rest = [] then '''' else '', '' @ intercalate '', '' ?rest) @ '')'')" if "k \<noteq> []" for k s
    using that by (simp add: secret_head_def)
  then show ?thesis by blast
qed

lemma scrub_literal':
  assumes "even (quotes p)"
  shows "scrubQuotedLiterals (p @ sqlString v @ t) =
     scrubQuotedLiterals p @ concat (replicate (Suc (quotes v)) placeholder) @ scrubQuotedLiterals t"
  using scrub_literal [of p v t] assms by (simp add: quotes_def)

lemma scrub_two_literals:
  assumes "even (quotes a)" "even (quotes b)" "quotes v = quotes v'" "quotes w = quotes w'"
  shows "scrubQuotedLiterals (a @ sqlString v @ b @ sqlString w @ c) =
    scrubQuotedLiterals (a @ sqlString v' @ b @ sqlString w' @ c)"
  using assms by (simp add: scrub_literal')

lemma even_secret_parts: "even (quotes secret_head)" "even (quotes '', SECRET '')"
  by (simp_all add: secret_head_def quotes_Cons sq_chars quotes_def)

section \<open>Quoting\<close>

text \<open>How SQL reads a string literal: after the opening quote, a doubled quote is a quote of the value,
  a single one ends the literal.\<close>

fun literal_body :: "string \<Rightarrow> (string \<times> string) option" where
  "literal_body [] = None"
| "literal_body [c] = (if c = sq then Some ([], []) else None)"
| "literal_body (c # d # s) =
     (if c = sq then (if d = sq then map_option (\<lambda>(v, t). (sq # v, t)) (literal_body s) else Some ([], d # s))
      else map_option (\<lambda>(v, t). (c # v, t)) (literal_body (d # s)))"

definition read_literal :: "string \<Rightarrow> (string \<times> string) option" where
  "read_literal s = (case s of c # r \<Rightarrow> if c = sq then literal_body r else None | [] \<Rightarrow> None)"

lemma literal_body_escape:
  "t = [] \<or> hd t \<noteq> sq \<Longrightarrow> literal_body (escape_quotes v @ sq # t) = Some (v, t)"
proof (induction v)
  case Nil
  then show ?case by (cases t) (simp_all add: escape_quotes_def)
next
  case (Cons c v)
  have e: "escape_quotes (c # v) = (if c = sq then [sq, sq] else [c]) @ escape_quotes v" by (simp add: escape_quotes_def)
  show ?case
  proof (cases "c = sq")
    case True
    with Cons e show ?thesis by simp
  next
    case False
    obtain x xs where "escape_quotes v @ sq # t = x # xs" by (cases "escape_quotes v @ sq # t") auto
    with Cons e False show ?thesis by simp
  qed
qed

text \<open>No configured value can break out of its SQL literal: a reader of SQL gets back from a quoted
  value exactly the value, and the rest of the statement untouched, as long as the rest does not
  itself begin with a quote.\<close>

lemma sqlString_roundtrip:
  assumes "t = [] \<or> hd t \<noteq> sq"
  shows "read_literal (sqlString v @ t) = Some (v, t)"
  using literal_body_escape [OF assms] by (simp add: read_literal_def sqlString_def)

theorem sqlString_roundtrip_witness:
  "read_literal (sqlString (''a'' @ [sq] @ ''); DROP'') @ '' AS lake'') = Some (''a'' @ [sq] @ ''); DROP'', '' AS lake'')"
  by (rule sqlString_roundtrip) (simp add: sq_chars)

section \<open>Redaction\<close>


definition lcfg0 :: lake_config where
  "lcfg0 = \<lparr>CatalogDSN = ''/c.db'', DataPath = ''s3://b'', S3Region = '''', S3AccessKeyID = ''AK'', S3SecretAccessKey = ''hush'',
     S3Endpoint = '''', S3KMSKeyID = '''', Encrypted = False, cfgMemoryLimit = '''', Threads = 0, TargetFileSize = '''',
     RowGroupSize = 0, Compression = '''', ParquetVersion = '''', ExtensionDir = '''', TempDirectory = '''', MaxConns = 0\<rparr>"

text \<open>A driver that rejects every statement and echoes it.\<close>

definition echo0 :: "catdb cat_ops" where
  "echo0 = cat0\<lparr>catExec := \<lambda>q d. (d, Some (errors_new (''Parser Error: '' @ q @ '' ^'')))\<rparr>"


section \<open>Encryption\<close>


definition lcfg1 :: lake_config where
  "lcfg1 = lcfg0\<lparr>CatalogDSN := ''host=db'', DataPath := ''/data''\<rparr>"

lemma exec_all_ok:
  assumes "\<And>q d. catExec l q d = (d, None)"
  shows "exec_all (map (run_setup l) qs) d = (d, None)"
  using assms by (induction qs) (simp_all add: err_then_def run_setup_def)


section \<open>Layout\<close>

text \<open>What the two statements of the layout do, and that a query changes neither specification.\<close>

definition layout_law :: "'d cat_ops \<Rightarrow> bool" where
  "layout_law l \<longleftrightarrow>
     (\<forall>d d' r. catSelect l d = (d', r) \<longrightarrow>
        catPartitionColumns l d' = catPartitionColumns l d \<and> catSortSpecs l d' = catSortSpecs l d) \<and>
     (\<forall>d d'. catExec l layout_partitioned d = (d', None) \<longrightarrow>
        0 < catPartitionColumns l d' \<and> catSortSpecs l d' = catSortSpecs l d) \<and>
     (\<forall>d d'. catExec l layout_sorted d = (d', None) \<longrightarrow>
        0 < catSortSpecs l d' \<and> catPartitionColumns l d' = catPartitionColumns l d)"

lemma assert_spec_ok:
  "assert_spec l b q d = (d', None) \<Longrightarrow> (b \<and> d' = d) \<or> (\<not> b \<and> catExec l q d = (d', None))"
  by (auto simp: assert_spec_def wrap_err_def split: if_splits option.splits prod.splits)

text \<open>C19. Re-asserting the layout repairs it: outside a backfill's pause, a successful re-assertion leaves
  the table partitioned and sorted, whichever of the two was missing and even if the checks
  themselves failed; and when both are in place and the checks succeed no statement that
  changes the catalog is sent.\<close>

theorem reassert_layout_repairs:
  assumes "layout_law l" "backfillPauseActive l d = (d1, paused)" "\<not> ok_true paused"
    "isPartitioned l d1 = (d2, pr)" "isSorted l d2 = (d3, sr)"
    "reassertLayout l d = (d', None)"
  shows "0 < catPartitionColumns l d' \<and> 0 < catSortSpecs l d' \<and>
    (pr = Inr True \<and> sr = Inr True \<longrightarrow> d' = d3)"
proof -
  have r: "err_then (assert_spec l (ok_true pr) layout_partitioned) (assert_spec l (ok_true sr) layout_sorted) d3 = (d', None)"
    using assms by (simp add: reassertLayout_def)
  then obtain d4 where p: "assert_spec l (ok_true pr) layout_partitioned d3 = (d4, None)"
    and s: "assert_spec l (ok_true sr) layout_sorted d4 = (d', None)"
    by (auto simp: err_then_def split: option.splits prod.splits)
  have sel: "catPartitionColumns l d3 = catPartitionColumns l d2" "ok_true pr \<Longrightarrow> 0 < catPartitionColumns l d2"
    "ok_true sr \<Longrightarrow> 0 < catSortSpecs l d3"
    using assms(1,4,5) by (auto simp: layout_law_def isPartitioned_def isSorted_def ok_true_def split: prod.splits option.splits)
  from assert_spec_ok [OF p] sel assms(1) have p4: "0 < catPartitionColumns l d4" "catSortSpecs l d4 = catSortSpecs l d3"
    by (auto simp: layout_law_def)
  from assert_spec_ok [OF s] p4 sel(3) assms(1) have "0 < catPartitionColumns l d' \<and> 0 < catSortSpecs l d'"
    by (auto simp: layout_law_def)
  moreover have "d' = d3" if "pr = Inr True" "sr = Inr True"
    using that assert_spec_ok [OF p] assert_spec_ok [OF s] by (simp add: ok_true_def)
  ultimately show ?thesis by blast
qed

lemma layout_law_cat0: "layout_law cat0"
proof -
  have "layout_partitioned \<noteq> layout_sorted" by (simp add: layout_partitioned_def layout_sorted_def)
  then show ?thesis by (simp add: layout_law_def cat0_simps exec_cat0_def)
qed

theorem reassert_layout_repairs_witness:
  "\<exists>d'. reassertLayout cat0 (catdb0\<lparr>cPartitioned := 0, cSorted := 0\<rparr>) = (d', None) \<and> 0 < cPartitioned d' \<and> 0 < cSorted d'"
proof -
  let ?d = "catdb0\<lparr>cPartitioned := 0, cSorted := 0\<rparr>"
  have e: "exec_cat0 ''CREATE TABLE IF NOT EXISTS meta.lake_backfill_pause (updated_at TIMESTAMP WITH TIME ZONE)'' ?d = ?d"
    by (simp add: exec_cat0_def layout_partitioned_def layout_sorted_def)
  have cp: "cPause catdb0 = []" by (simp add: catdb0_def)
  have p: "backfillPauseActive cat0 ?d = (?d, Inr False)"
    unfolding backfillPauseActive_def ensureBackfillPauseTable_def
    by (simp add: cat0_simps e pause_fresh_def cp)
  have i: "isPartitioned cat0 ?d = (?d, Inr False)" "isSorted cat0 ?d = (?d, Inr False)"
    by (simp_all add: isPartitioned_def isSorted_def cat0_simps)
  obtain d' where r: "reassertLayout cat0 ?d = (d', None)"
    using p i by (simp add: reassertLayout_def err_then_def assert_spec_def wrap_err_def ok_true_def cat0_simps)
  from reassert_layout_repairs [OF layout_law_cat0 p _ i r] r show ?thesis by (simp add: ok_true_def cat0_simps)
qed

end
