(* ===== verification/Location.thy ===== *)
theory Location
  imports CloudEvent Float64
begin

text \<open>
  \<^verbatim>\<open>internal/decodestream/location.go\<close> and the pruning of \<^verbatim>\<open>decodestream.go\<close>: the decoded signals of
  one raw event are sorted, freed of future timestamps and duplicates, and their latitude,
  longitude and HDOP values merged into location signals. \<^verbatim>\<open>slices.SortFunc\<close> is not stable; it is
  a parameter, of which the theorems assume that it permutes its input into order. The
  signals themselves are data of the package \<^verbatim>\<open>vss\<close>.
\<close>

section \<open>Signals\<close>

record location =
  Latitude :: float64
  Longitude :: float64
  HDOP :: float64

record signal =
  sgHeader :: ce_header
  sgTimestamp :: go_time
  sgName :: string
  sgValueNumber :: float64
  sgValueString :: string
  sgValueLocation :: location
  sgCloudEventID :: string

definition zero_location :: location where
  "zero_location = \<lparr>Latitude = Fin 0, Longitude = Fin 0, HDOP = Fin 0\<rparr>"

definition zero_signal :: signal where
  "zero_signal = \<lparr>sgHeader = zero_header, sgTimestamp = 0, sgName = '''', sgValueNumber = Fin 0,
     sgValueString = '''', sgValueLocation = zero_location, sgCloudEventID = ''''\<rparr>"

definition pruneSignalName :: string where "pruneSignalName = ''___prune''"

definition pruneSignal :: signal where "pruneSignal = zero_signal\<lparr>sgName := pruneSignalName\<rparr>"

section \<open>Sorting and pruning\<close>

text \<open>\<^verbatim>\<open>cmp.Compare\<close> on strings: bytewise.\<close>

fun str_le :: "string \<Rightarrow> string \<Rightarrow> bool" where
  "str_le [] t = True"
| "str_le (c # s) [] = False"
| "str_le (c # s) (d # t) =
     ((of_char c :: nat) < of_char d \<or> (c = d \<and> str_le s t))"

text \<open>The comparison of the two sorts is not positive.\<close>

definition signal_le :: "signal \<Rightarrow> signal \<Rightarrow> bool" where
  "signal_le a b \<longleftrightarrow> sgTimestamp a < sgTimestamp b \<or>
     (sgTimestamp a = sgTimestamp b \<and> str_le (sgName a) (sgName b))"

definition dropPruned :: "signal list \<Rightarrow> signal list" where
  "dropPruned signals = filter (\<lambda>sig. sgName sig \<noteq> pruneSignalName) signals"

definition signalEqual :: "signal \<Rightarrow> signal \<Rightarrow> bool" where
  "signalEqual a b \<longleftrightarrow> sgName a = sgName b \<and> sgTimestamp a = sgTimestamp b"

text \<open>The loop: \<open>future\<close> is \<^verbatim>\<open>convert.IsFutureTimestamp\<close>, \<open>msg\<close> builds the error of a future signal. The
  comparison with the next signal reads an entry the loop has not reached yet.\<close>

fun prune_loop ::
  "(go_time \<Rightarrow> bool) \<Rightarrow> (signal \<Rightarrow> go_error) \<Rightarrow> signal list \<Rightarrow> go_error option \<Rightarrow> signal list \<times> go_error option" where
  "prune_loop future msg [] errs = ([], errs)"
| "prune_loop future msg (sig # rest) errs =
     (if future (sgTimestamp sig)
      then (case prune_loop future msg rest (errors_join errs (Some (msg sig))) of
              (out, e) \<Rightarrow> (pruneSignal # out, e))
      else case prune_loop future msg rest errs of
             (out, e) \<Rightarrow>
               ((case rest of [] \<Rightarrow> sig | nxt # _ \<Rightarrow> if signalEqual sig nxt then pruneSignal else sig) # out, e))"

definition future_error :: "ce_lib \<Rightarrow> signal \<Rightarrow> go_error" where
  "future_error L sig =
     errorf '''' (sentinel_error ErrFutureTimestamp)
       ('', signal '' @ [ch 39] @ sgName sig @ [ch 39] @ '' has timestamp: '' @ FormatTime L (sgTimestamp sig))"

definition pruneFutureAndDuplicateSignals ::
  "ce_lib \<Rightarrow> (signal list \<Rightarrow> signal list) \<Rightarrow> (go_time \<Rightarrow> bool) \<Rightarrow> signal list \<Rightarrow> signal list \<times> go_error option" where
  "pruneFutureAndDuplicateSignals L sort_signals future signals =
     (case prune_loop future (future_error L) (sort_signals signals) None of
        (marked, errs) \<Rightarrow> (dropPruned marked, errs))"

section \<open>Coordinates\<close>

definition maxLatLongDur :: duration where "maxLatLongDur = 500 * millisecond"

definition fieldCurrentLocationLatitude :: string where
  "fieldCurrentLocationLatitude = ''currentLocationLatitude''"
definition fieldCurrentLocationLongitude :: string where
  "fieldCurrentLocationLongitude = ''currentLocationLongitude''"
definition fieldDIMOAftermarketHDOP :: string where
  "fieldDIMOAftermarketHDOP = ''dimoAftermarketHDOP''"

record coordinate_store =
  lastLat :: int
  lastLon :: int
  lastHDOP :: int
  lastTime :: go_time
  csSignals :: "signal list"
  csCreated :: "signal list"
  csErrs :: "go_error list"

definition newCoordinateStore :: "signal list \<Rightarrow> coordinate_store" where
  "newCoordinateStore signals =
     \<lparr>lastLat = -1, lastLon = -1, lastHDOP = -1, lastTime = 0, csSignals = signals, csCreated = [], csErrs = []\<rparr>"

definition validLatLon :: "float64 \<Rightarrow> float64 \<Rightarrow> bool" where
  "validLatLon lat lon =
     (if lat = NaN \<or> lon = NaN \<or> lat \<in> {PosInf, NegInf} \<or> lon \<in> {PosInf, NegInf} then False
      else if f_eq lat (Fin 0) \<and> f_eq lon (Fin 0) then False
      else f_le (Fin (-90)) lat \<and> f_le lat (Fin 90) \<and> f_le (Fin (-180)) lon \<and> f_le lon (Fin 180))"

definition sig_at :: "coordinate_store \<Rightarrow> int \<Rightarrow> signal" where
  "sig_at c i = csSignals c ! nat i"

text \<open>\<^verbatim>\<open>c.signals[i].Data.Name = pruneSignalName\<close>, when the index is set.\<close>

definition prune_at :: "int \<Rightarrow> coordinate_store \<Rightarrow> coordinate_store" where
  "prune_at i c =
     (if i = -1 then c
      else c\<lparr>csSignals := (csSignals c)[nat i := (sig_at c i)\<lparr>sgName := pruneSignalName\<rparr>]\<rparr>)"

definition add_err :: "string \<Rightarrow> coordinate_store \<Rightarrow> coordinate_store" where
  "add_err m c = c\<lparr>csErrs := csErrs c @ [errorf '''' (sentinel_error ErrLatLongMismatch) m]\<rparr>"

definition template :: "coordinate_store \<Rightarrow> signal" where
  "template c =
     (if lastLat c \<noteq> -1 then sig_at c (lastLat c)
      else if lastLon c \<noteq> -1 then sig_at c (lastLon c)
      else if lastHDOP c \<noteq> -1 then sig_at c (lastHDOP c)
      else csSignals c ! 0)"

text \<open>The part on latitude and longitude: the store, and the location if one is made.\<close>

definition pair_coordinates ::
  "ce_lib \<Rightarrow> float_lib \<Rightarrow> coordinate_store \<Rightarrow> coordinate_store \<times> location option" where
  "pair_coordinates L F c =
     (if lastLat c \<noteq> -1 \<and> lastLon c \<noteq> -1
      then let lat = sgValueNumber (sig_at c (lastLat c)); lon = sgValueNumber (sig_at c (lastLon c));
               c1 = prune_at (lastLon c) (prune_at (lastLat c) c)
           in if \<not> validLatLon lat lon
              then (add_err ('': invalid coordinate lat='' @ FormatG F lat @ '' lon='' @ FormatG F lon @
                      '' at time '' @ FormatTime L (lastTime c)) c1, None)
              else (c1, Some (zero_location\<lparr>Latitude := lat, Longitude := lon\<rparr>))
      else if lastLat c \<noteq> -1
        then (add_err ('': unpaired latitude at time '' @ FormatTime L (lastTime c)) (prune_at (lastLat c) c), None)
      else if lastLon c \<noteq> -1
        then (add_err ('': unpaired longitude at time '' @ FormatTime L (lastTime c)) (prune_at (lastLon c) c), None)
      else (c, None))"

definition location_signal :: "string \<Rightarrow> signal \<Rightarrow> go_time \<Rightarrow> location \<Rightarrow> signal" where
  "location_signal field tmpl t loc =
     zero_signal\<lparr>sgHeader := sgHeader tmpl, sgTimestamp := t, sgName := field, sgValueLocation := loc,
       sgCloudEventID := sgCloudEventID tmpl\<rparr>"

text \<open>\<open>field\<close> is \<^verbatim>\<open>vss.FieldCurrentLocationCoordinates\<close>.\<close>

definition tryCreateLocation :: "ce_lib \<Rightarrow> float_lib \<Rightarrow> string \<Rightarrow> coordinate_store \<Rightarrow> coordinate_store" where
  "tryCreateLocation L F field c =
     (case pair_coordinates L F c of
        (c1, loc) \<Rightarrow>
          let loc1 = (if lastHDOP c \<noteq> -1
                      then map_option (\<lambda>x. x\<lparr>HDOP := sgValueNumber (sig_at c (lastHDOP c))\<rparr>) loc else loc);
              c2 = prune_at (lastHDOP c) c1;
              c3 = (case loc1 of
                      None \<Rightarrow> c2
                    | Some x \<Rightarrow> c2\<lparr>csCreated := csCreated c2 @ [location_signal field (template c) (lastTime c) x]\<rparr>)
          in c3\<lparr>lastLat := -1, lastLon := -1, lastHDOP := -1, lastTime := 0\<rparr>)"

definition processSignal :: "ce_lib \<Rightarrow> float_lib \<Rightarrow> string \<Rightarrow> nat \<Rightarrow> coordinate_store \<Rightarrow> coordinate_store" where
  "processSignal L F field index c =
     (let sig = csSignals c ! index;
          attempt = tryCreateLocation L F field;
          c1 = (if lastTime c \<noteq> 0 \<and> maxLatLongDur \<le> time_sub (sgTimestamp sig) (lastTime c) then attempt c else c);
          start = (\<lambda>c. if lastTime c = 0 then c\<lparr>lastTime := sgTimestamp sig\<rparr> else c)
      in if sgName sig = fieldCurrentLocationLatitude
         then let c2 = (if lastLat c1 \<noteq> -1 then attempt c1 else c1) in start (c2\<lparr>lastLat := int index\<rparr>)
         else if sgName sig = fieldCurrentLocationLongitude
         then let c2 = (if lastLon c1 \<noteq> -1 then attempt c1 else c1) in start (c2\<lparr>lastLon := int index\<rparr>)
         else if sgName sig = fieldDIMOAftermarketHDOP
         then let c2 = (if lastHDOP c1 \<noteq> -1 then attempt c1 else c1) in start (c2\<lparr>lastHDOP := int index\<rparr>)
         else c1)"

definition join_all :: "go_error list \<Rightarrow> go_error option" where
  "join_all es = fold (\<lambda>e acc. errors_join acc (Some e)) es None"

definition processSignals ::
  "ce_lib \<Rightarrow> float_lib \<Rightarrow> string \<Rightarrow> (signal list \<Rightarrow> signal list) \<Rightarrow> coordinate_store \<Rightarrow> signal list \<times> go_error option" where
  "processSignals L F field sort_signals c =
     (if csSignals c = [] then (csSignals c, None)
      else let c1 = c\<lparr>csSignals := sort_signals (csSignals c)\<rparr>;
               c2 = fold (processSignal L F field) [0..<length (csSignals c1)] c1;
               c3 = tryCreateLocation L F field c2
           in (dropPruned (csSignals c3) @ csCreated c3, join_all (csErrs c3)))"

definition handleCoordinates ::
  "ce_lib \<Rightarrow> float_lib \<Rightarrow> string \<Rightarrow> (signal list \<Rightarrow> signal list) \<Rightarrow> signal list \<Rightarrow> signal list \<times> go_error option" where
  "handleCoordinates L F field sort_signals signals =
     processSignals L F field sort_signals (newCoordinateStore signals)"

section \<open>Lemmas: order and pruning\<close>

lemma str_le_refl [simp]: "str_le s s"
  by (induction s) auto

lemma str_le_trans: "str_le s t \<Longrightarrow> str_le t u \<Longrightarrow> str_le s u"
  by (induction s t arbitrary: u rule: str_le.induct; case_tac u) auto

lemma str_le_antisym: "str_le s t \<Longrightarrow> str_le t s \<Longrightarrow> s = t"
proof (induction s t rule: str_le.induct)
  case (1 t)
  then show ?case by (cases t) auto
qed auto

lemma signal_le_antisym: "signal_le a b \<Longrightarrow> signal_le b a \<Longrightarrow> signalEqual a b"
  by (auto simp: signal_le_def signalEqual_def dest: str_le_antisym)

lemma signal_le_cong: "signalEqual a b \<Longrightarrow> signal_le c a \<longleftrightarrow> signal_le c b"
  "signalEqual a b \<Longrightarrow> signal_le a c \<longleftrightarrow> signal_le b c"
  by (auto simp: signal_le_def signalEqual_def)

lemma signalEqual_equiv: "signalEqual a a" "signalEqual a b \<Longrightarrow> signalEqual b a"
  "signalEqual a b \<Longrightarrow> signalEqual b c \<Longrightarrow> signalEqual a c"
  by (auto simp: signalEqual_def)

definition sorts :: "(signal list \<Rightarrow> signal list) \<Rightarrow> bool" where
  "sorts f \<longleftrightarrow> (\<forall>xs. mset (f xs) = mset xs \<and> sorted_wrt signal_le (f xs))"

lemma sorts_set: "sorts f \<Longrightarrow> set (f xs) = set xs"
  by (metis mset_eq_setD sorts_def)

text \<open>The signals the loop keeps.\<close>

fun kept :: "(go_time \<Rightarrow> bool) \<Rightarrow> signal list \<Rightarrow> signal list" where
  "kept future [] = []"
| "kept future (sig # rest) =
     (if future (sgTimestamp sig) \<or> (\<exists>nxt ys. rest = nxt # ys \<and> signalEqual sig nxt) \<or> sgName sig = pruneSignalName
      then kept future rest else sig # kept future rest)"

lemma pruneSignal_name [simp]: "sgName pruneSignal = pruneSignalName"
  by (simp add: pruneSignal_def)

lemma prune_loop_kept: "dropPruned (fst (prune_loop future msg xs e)) = kept future xs"
proof (induction xs arbitrary: e)
  case (Cons s xs)
  obtain o1 e1 where p1: "prune_loop future msg xs (errors_join e (Some (msg s))) = (o1, e1)"
    by (cases "prune_loop future msg xs (errors_join e (Some (msg s)))")
  obtain o2 e2 where p2: "prune_loop future msg xs e = (o2, e2)" by (cases "prune_loop future msg xs e")
  from Cons.IH [of "errors_join e (Some (msg s))"] Cons.IH [of e] p1 p2
  show ?case by (cases xs) (auto simp: dropPruned_def)
qed (simp add: dropPruned_def)

lemma kept_subset: "s \<in> set (kept future xs) \<Longrightarrow> s \<in> set xs \<and> \<not> future (sgTimestamp s) \<and> sgName s \<noteq> pruneSignalName"
  by (induction xs) (auto split: if_splits)

lemma kept_strict:
  "sorted_wrt signal_le xs \<Longrightarrow> sorted_wrt (\<lambda>a b. signal_le a b \<and> \<not> signalEqual a b) (kept future xs)"
proof (induction xs)
  case (Cons s xs)
  have "signal_le s y \<and> \<not> signalEqual s y"
    if "y \<in> set (kept future xs)" "\<not> (\<exists>nxt ys. xs = nxt # ys \<and> signalEqual s nxt)" for y
  proof -
    have y: "y \<in> set xs" using kept_subset [OF that(1)] by blast
    then obtain nxt ys where xs: "xs = nxt # ys" by (cases xs) auto
    have le: "signal_le s y" "signal_le s nxt" using Cons.prems y xs by auto
    have "\<not> signalEqual s y"
    proof
      assume eq: "signalEqual s y"
      have "y = nxt \<or> signal_le nxt y" using Cons.prems y xs by auto
      then have "signalEqual s nxt"
        using eq le(2) signal_le_antisym signal_le_cong(1) [OF eq, of nxt] by blast
      with that(2) xs show False by blast
    qed
    with le show ?thesis by blast
  qed
  with Cons show ?case by auto
qed simp

lemma kept_complete:
  "s \<in> set xs \<Longrightarrow> \<not> future (sgTimestamp s) \<Longrightarrow> sgName s \<noteq> pruneSignalName \<Longrightarrow>
     \<exists>t\<in>set (kept future xs). signalEqual s t"
proof (induction xs arbitrary: s)
  case (Cons x xs)
  have more: "\<exists>t\<in>set (kept future (x # xs)). signalEqual s t" if "s \<in> set xs"
    using Cons.IH [OF that Cons.prems(2,3)] by auto
  show ?case
  proof (cases "s \<in> set xs")
    case False
    then have s: "s = x" using Cons.prems(1) by simp
    show ?thesis
    proof (cases "\<exists>nxt ys. xs = nxt # ys \<and> signalEqual s nxt")
      case True
      then obtain nxt ys where n: "xs = nxt # ys" "signalEqual s nxt" by blast
      with Cons.prems have "\<not> future (sgTimestamp nxt)" "sgName nxt \<noteq> pruneSignalName"
        by (simp_all add: signalEqual_def)
      with Cons.IH [of nxt] n(1) obtain t where "t \<in> set (kept future xs)" "signalEqual nxt t" by auto
      with n(2) show ?thesis by (auto intro: signalEqual_equiv(3))
    next
      case False
      with s Cons.prems show ?thesis by (auto intro: signalEqual_equiv(1))
    qed
  qed (rule more)
qed simp

lemma prune_kept:
  "fst (pruneFutureAndDuplicateSignals L srt future xs) = kept future (srt xs)"
  by (simp add: pruneFutureAndDuplicateSignals_def case_prod_beta prune_loop_kept)

lemma strict_distinct:
  "sorted_wrt (\<lambda>a b. signal_le a b \<and> \<not> signalEqual a b) xs \<Longrightarrow> distinct (map (\<lambda>s. (sgName s, sgTimestamp s)) xs)"
  by (induction xs) (auto simp: signalEqual_def)

section \<open>Lemmas: coordinates\<close>

definition raw_names :: "string set" where
  "raw_names = {fieldCurrentLocationLatitude, fieldCurrentLocationLongitude, fieldDIMOAftermarketHDOP}"

definition active :: "coordinate_store \<Rightarrow> int set" where
  "active c = {lastLat c, lastLon c, lastHDOP c} - {-1}"

text \<open>A location made of a latitude and a longitude of the input that lie within the window.\<close>

definition made_from :: "signal list \<Rightarrow> string \<Rightarrow> signal \<Rightarrow> bool" where
  "made_from inp field x \<longleftrightarrow>
     (\<exists>a\<in>set inp. \<exists>b\<in>set inp.
        sgName a = fieldCurrentLocationLatitude \<and> sgName b = fieldCurrentLocationLongitude \<and>
        validLatLon (sgValueNumber a) (sgValueNumber b) \<and>
        Latitude (sgValueLocation x) = sgValueNumber a \<and> Longitude (sgValueLocation x) = sgValueNumber b \<and>
        \<bar>sgTimestamp a - sgTimestamp b\<bar> < maxLatLongDur \<and> sgTimestamp x \<le> sgTimestamp a \<and> sgTimestamp x \<le> sgTimestamp b \<and>
        sgName x = field \<and> sgHeader x = sgHeader a \<and> sgCloudEventID x = sgCloudEventID a)"

text \<open>What holds of the store when the first \<open>i\<close> signals have been processed.\<close>

definition slot_ok :: "signal list \<Rightarrow> nat \<Rightarrow> coordinate_store \<Rightarrow> int \<Rightarrow> string \<Rightarrow> bool" where
  "slot_ok inp i c k name \<longleftrightarrow> k = -1 \<or>
     (0 \<le> k \<and> nat k < i \<and> csSignals c ! nat k = inp ! nat k \<and> sgName (inp ! nat k) = name \<and>
      lastTime c \<noteq> 0 \<and> lastTime c \<le> sgTimestamp (inp ! nat k) \<and>
      sgTimestamp (inp ! nat k) < lastTime c + maxLatLongDur)"

definition store_inv :: "signal list \<Rightarrow> string \<Rightarrow> nat \<Rightarrow> coordinate_store \<Rightarrow> bool" where
  "store_inv inp field i c \<longleftrightarrow>
     length (csSignals c) = length inp \<and>
     (\<forall>j. i \<le> j \<and> j < length inp \<longrightarrow> csSignals c ! j = inp ! j) \<and>
     (\<forall>j<length inp. sgName (inp ! j) \<notin> raw_names \<longrightarrow> csSignals c ! j = inp ! j) \<and>
     (\<forall>j<i. j < length inp \<and> sgName (inp ! j) \<in> raw_names \<longrightarrow>
        int j \<in> active c \<or> sgName (csSignals c ! j) = pruneSignalName) \<and>
     slot_ok inp i c (lastLat c) fieldCurrentLocationLatitude \<and>
     slot_ok inp i c (lastLon c) fieldCurrentLocationLongitude \<and>
     slot_ok inp i c (lastHDOP c) fieldDIMOAftermarketHDOP \<and>
     (active c = {} \<longrightarrow> lastTime c = 0) \<and>
     (\<forall>x\<in>set (csCreated c). made_from inp field x)"

lemma field_names_distinct:
  "fieldCurrentLocationLatitude \<noteq> fieldCurrentLocationLongitude"
  "fieldCurrentLocationLatitude \<noteq> fieldDIMOAftermarketHDOP"
  "fieldCurrentLocationLongitude \<noteq> fieldDIMOAftermarketHDOP"
  by (simp_all add: fieldCurrentLocationLatitude_def fieldCurrentLocationLongitude_def fieldDIMOAftermarketHDOP_def)

lemma prune_at_frame [simp]:
  "lastLat (prune_at i c) = lastLat c" "lastLon (prune_at i c) = lastLon c" "lastHDOP (prune_at i c) = lastHDOP c"
  "lastTime (prune_at i c) = lastTime c" "csCreated (prune_at i c) = csCreated c"
  "length (csSignals (prune_at i c)) = length (csSignals c)"
  by (simp_all add: prune_at_def)

lemma add_err_frame [simp]:
  "csSignals (add_err m c) = csSignals c" "csCreated (add_err m c) = csCreated c"
  by (simp_all add: add_err_def)

definition marked :: "int set \<Rightarrow> signal list \<Rightarrow> signal list" where
  "marked K xs = map (\<lambda>j. if int j \<in> K then (xs ! j)\<lparr>sgName := pruneSignalName\<rparr> else xs ! j) [0..<length xs]"

lemma marked_empty [simp]: "marked {} xs = xs"
  by (simp add: marked_def map_nth)

lemma length_marked [simp]: "length (marked K xs) = length xs"
  by (simp add: marked_def)

lemma nth_marked: "j < length xs \<Longrightarrow> marked K xs ! j = (if int j \<in> K then (xs ! j)\<lparr>sgName := pruneSignalName\<rparr> else xs ! j)"
  by (simp add: marked_def)

lemma marked_marked: "marked K (marked K' xs) = marked (K \<union> K') xs"
  by (rule nth_equalityI) (simp_all add: nth_marked)

lemma prune_at_marked:
  assumes "i = -1 \<or> (0 \<le> i \<and> nat i < length (csSignals c))"
  shows "csSignals (prune_at i c) = marked ({i} - {-1}) (csSignals c)"
proof (cases "i = -1")
  case False
  with assms have i: "0 \<le> i" by simp
  have "int j = i \<longleftrightarrow> nat i = j" for j using i by auto
  with False i show ?thesis
    by (intro nth_equalityI) (simp_all add: prune_at_def sig_at_def nth_marked nth_list_update)
qed (simp add: prune_at_def)

lemma pair_coordinates_signals:
  assumes "slot_ok inp i c (lastLat c) n1" "slot_ok inp i c (lastLon c) n2" "i \<le> length (csSignals c)"
  shows "csSignals (fst (pair_coordinates L F c)) = marked ({lastLat c, lastLon c} - {-1}) (csSignals c)"
    and "csCreated (fst (pair_coordinates L F c)) = csCreated c"
proof -
  have r: "k = -1 \<or> (0 \<le> k \<and> nat k < length (csSignals c))" if "slot_ok inp i c k n" for k n
    using that assms(3) by (auto simp: slot_ok_def)
  note lat = r [OF assms(1)] and lon = r [OF assms(2)]
  have lon': "lastLon c = -1 \<or> (0 \<le> lastLon c \<and> nat (lastLon c) < length (csSignals (prune_at (lastLat c) c)))"
    using lon by simp
  have both: "csSignals (prune_at (lastLon c) (prune_at (lastLat c) c)) =
      marked (({lastLon c} - {-1}) \<union> ({lastLat c} - {-1})) (csSignals c)"
    unfolding prune_at_marked [OF lon'] prune_at_marked [OF lat] by (rule marked_marked)
  have eq: "({lastLon c} - {-1}) \<union> ({lastLat c} - {-1}) = {lastLat c, lastLon c} - {-1}" by auto
  have "csSignals (fst (pair_coordinates L F c)) =
      (if lastLat c \<noteq> -1 \<and> lastLon c \<noteq> -1 then csSignals (prune_at (lastLon c) (prune_at (lastLat c) c))
       else if lastLat c \<noteq> -1 then csSignals (prune_at (lastLat c) c)
       else if lastLon c \<noteq> -1 then csSignals (prune_at (lastLon c) c) else csSignals c)"
    by (simp add: pair_coordinates_def Let_def)
  also have "\<dots> = marked ({lastLat c, lastLon c} - {-1}) (csSignals c)"
    unfolding both eq prune_at_marked [OF lat] prune_at_marked [OF lon]
    by (simp add: insert_Diff_if)
  finally show "csSignals (fst (pair_coordinates L F c)) = marked ({lastLat c, lastLon c} - {-1}) (csSignals c)" .
  show "csCreated (fst (pair_coordinates L F c)) = csCreated c"
    by (simp add: pair_coordinates_def Let_def)
qed

lemma pair_coordinates_Some:
  assumes "snd (pair_coordinates L F c) = Some x"
  shows "lastLat c \<noteq> -1" "lastLon c \<noteq> -1"
    "validLatLon (sgValueNumber (sig_at c (lastLat c))) (sgValueNumber (sig_at c (lastLon c)))"
    "Latitude x = sgValueNumber (sig_at c (lastLat c))" "Longitude x = sgValueNumber (sig_at c (lastLon c))"
  using assms by (auto simp: pair_coordinates_def Let_def split: if_splits)

lemma store_inv_slots:
  assumes "store_inv inp field i c"
  shows "slot_ok inp i c (lastLat c) fieldCurrentLocationLatitude"
    "slot_ok inp i c (lastLon c) fieldCurrentLocationLongitude"
    "slot_ok inp i c (lastHDOP c) fieldDIMOAftermarketHDOP"
    "length (csSignals c) = length inp"
  using assms by (simp_all add: store_inv_def)

lemma tryCreateLocation_effect:
  assumes inv: "store_inv inp field i c" and i: "i \<le> length inp"
  shows "csSignals (tryCreateLocation L F field c) = marked (active c) (csSignals c)"
    and "active (tryCreateLocation L F field c) = {}" "lastTime (tryCreateLocation L F field c) = 0"
    and "lastLat (tryCreateLocation L F field c) = -1" "lastLon (tryCreateLocation L F field c) = -1"
      "lastHDOP (tryCreateLocation L F field c) = -1"
    and "x \<in> set (csCreated (tryCreateLocation L F field c)) \<Longrightarrow> x \<in> set (csCreated c) \<or> made_from inp field x"
proof -
  note slots = store_inv_slots [OF inv]
  obtain c1 loc where pc: "pair_coordinates L F c = (c1, loc)" by (cases "pair_coordinates L F c")
  have i': "i \<le> length (csSignals c)" using i slots(4) by simp
  from pair_coordinates_signals [OF slots(1,2) i', of L F] pc
  have c1: "csSignals c1 = marked ({lastLat c, lastLon c} - {-1}) (csSignals c)" "csCreated c1 = csCreated c" by simp_all
  let ?t = "tryCreateLocation L F field c"
  have "lastHDOP c = -1 \<or> 0 \<le> lastHDOP c \<and> nat (lastHDOP c) < length (csSignals c1)"
    using slots(3,4) i c1(1) by (auto simp: slot_ok_def)
  then have "csSignals (prune_at (lastHDOP c) c1) = marked ({lastHDOP c} - {-1}) (csSignals c1)"
    by (rule prune_at_marked)
  also have "\<dots> = marked (active c) (csSignals c)"
    unfolding c1(1) marked_marked by (rule arg_cong2 [of _ _ _ _ marked]) (auto simp: active_def)
  finally show "csSignals ?t = marked (active c) (csSignals c)"
    using pc by (auto simp: tryCreateLocation_def Let_def split: option.splits)
  show "active ?t = {}" "lastTime ?t = 0" "lastLat ?t = -1" "lastLon ?t = -1" "lastHDOP ?t = -1"
    by (simp_all add: tryCreateLocation_def Let_def active_def case_prod_beta)
  show "x \<in> set (csCreated c) \<or> made_from inp field x" if "x \<in> set (csCreated ?t)"
  proof (cases loc)
    case None
    with that pc c1(2) show ?thesis by (simp add: tryCreateLocation_def Let_def split: if_splits)
  next
    case (Some y)
    then have "snd (pair_coordinates L F c) = Some y" using pc by simp
    note p = pair_coordinates_Some [OF this]
    let ?a = "inp ! nat (lastLat c)" and ?b = "inp ! nat (lastLon c)"
    have a: "sig_at c (lastLat c) = ?a" "nat (lastLat c) < length inp" "sgName ?a = fieldCurrentLocationLatitude"
      "lastTime c \<le> sgTimestamp ?a" "sgTimestamp ?a < lastTime c + maxLatLongDur"
      using slots(1) p(1) i by (auto simp: slot_ok_def sig_at_def)
    have b: "sig_at c (lastLon c) = ?b" "nat (lastLon c) < length inp" "sgName ?b = fieldCurrentLocationLongitude"
      "lastTime c \<le> sgTimestamp ?b" "sgTimestamp ?b < lastTime c + maxLatLongDur"
      using slots(2) p(2) i by (auto simp: slot_ok_def sig_at_def)
    have t: "template c = ?a" using p(1) a(1) by (simp add: template_def)
    have mf: "made_from inp field (location_signal field ?a (lastTime c) z)"
      if "Latitude z = sgValueNumber ?a" "Longitude z = sgValueNumber ?b" for z
    proof -
      have "?a \<in> set inp" "?b \<in> set inp" using a(2) b(2) by simp_all
      moreover have "\<bar>sgTimestamp ?a - sgTimestamp ?b\<bar> < maxLatLongDur" using a(4,5) b(4,5) by linarith
      ultimately show ?thesis
        using that a(3,4) b(3,4) p(3) [unfolded a(1) b(1)]
        unfolding made_from_def location_signal_def by (intro bexI [of _ ?a] bexI [of _ ?b]) simp_all
    qed
    let ?z = "if lastHDOP c \<noteq> -1 then y\<lparr>HDOP := sgValueNumber (sig_at c (lastHDOP c))\<rparr> else y"
    from that Some pc t have "x \<in> set (csCreated c1) \<or> x = location_signal field ?a (lastTime c) ?z"
      by (auto simp: tryCreateLocation_def Let_def split: if_splits)
    moreover have "Latitude ?z = Latitude y" "Longitude ?z = Longitude y" by simp_all
    ultimately show ?thesis using mf [of ?z] p(4,5) c1(2) a(1) b(1) by (metis (no_types, lifting))
  qed
qed

lemma store_inv_try:
  assumes inv: "store_inv inp field i c" and i: "i \<le> length inp"
  shows "store_inv inp field i (tryCreateLocation L F field c)"
proof -
  note eff = tryCreateLocation_effect [OF inv i, where L = L and F = F]
  note slots = store_inv_slots [OF inv]
  have act: "k \<in> active c \<Longrightarrow> 0 \<le> k \<and> nat k < i \<and> sgName (inp ! nat k) \<in> raw_names" for k
    using slots(1-3) by (auto simp: active_def slot_ok_def raw_names_def)
  have nth: "csSignals (tryCreateLocation L F field c) ! j =
      (if int j \<in> active c then (csSignals c ! j)\<lparr>sgName := pruneSignalName\<rparr> else csSignals c ! j)"
    if "j < length inp" for j using eff(1) slots(4) that by (simp add: nth_marked)
  have late: "int j \<notin> active c" if "i \<le> j" for j using act [of "int j"] that by auto
  have other: "int j \<notin> active c" if "sgName (inp ! j) \<notin> raw_names" for j using act [of "int j"] that by auto
  note old = inv [unfolded store_inv_def]
  show ?thesis
    unfolding store_inv_def
  proof (intro conjI allI impI ballI)
    show "length (csSignals (tryCreateLocation L F field c)) = length inp" using eff(1) slots(4) by simp
    show "csSignals (tryCreateLocation L F field c) ! j = inp ! j" if "i \<le> j \<and> j < length inp" for j
      using that old late by (simp add: nth)
    show "csSignals (tryCreateLocation L F field c) ! j = inp ! j" if "j < length inp" "sgName (inp ! j) \<notin> raw_names" for j
      using that old other by (simp add: nth)
    show "int j \<in> active (tryCreateLocation L F field c) \<or> sgName (csSignals (tryCreateLocation L F field c) ! j) = pruneSignalName"
      if "j < i" "j < length inp \<and> sgName (inp ! j) \<in> raw_names" for j
      using that old by (auto simp: nth)
    show "made_from inp field x" if "x \<in> set (csCreated (tryCreateLocation L F field c))" for x
      using eff(7) [OF that] old by blast
  qed (simp_all add: eff slot_ok_def)
qed

text \<open>Taking up the signal at position \<open>i\<close> into a free slot.\<close>

lemma slot_ok_later:
  "slot_ok inp i c k n \<Longrightarrow> csSignals c' = csSignals c \<Longrightarrow> lastTime c' = lastTime c \<or> lastTime c = 0 \<Longrightarrow> slot_ok inp (Suc i) c' k n"
  by (auto simp: slot_ok_def)

definition start_time :: "go_time \<Rightarrow> coordinate_store \<Rightarrow> coordinate_store" where
  "start_time t c = (if lastTime c = 0 then c\<lparr>lastTime := t\<rparr> else c)"

definition fits :: "signal list \<Rightarrow> nat \<Rightarrow> coordinate_store \<Rightarrow> bool" where
  "fits inp i c \<longleftrightarrow> i < length inp \<and> sgTimestamp (inp ! i) \<noteq> 0 \<and>
     (lastTime c \<noteq> 0 \<longrightarrow> lastTime c \<le> sgTimestamp (inp ! i) \<and> sgTimestamp (inp ! i) < lastTime c + maxLatLongDur)"

lemma maxLatLongDur_pos: "0 < maxLatLongDur"
  by (simp add: maxLatLongDur_def millisecond_def)

lemma store_inv_take:
  assumes inv: "store_inv inp field i c" and fit: "fits inp i c"
    and same: "csSignals c' = csSignals c" "csCreated c' = csCreated c" "active c' = insert (int i) (active c)"
      "lastTime c' = (if lastTime c = 0 then sgTimestamp (inp ! i) else lastTime c)"
    and slots: "(lastLat c' = lastLat c \<or> (lastLat c' = int i \<and> sgName (inp ! i) = fieldCurrentLocationLatitude))"
      "(lastLon c' = lastLon c \<or> (lastLon c' = int i \<and> sgName (inp ! i) = fieldCurrentLocationLongitude))"
      "(lastHDOP c' = lastHDOP c \<or> (lastHDOP c' = int i \<and> sgName (inp ! i) = fieldDIMOAftermarketHDOP))"
  shows "store_inv inp field (Suc i) c'"
proof -
  note old = inv [unfolded store_inv_def]
  have i: "i < length inp" and si: "csSignals c ! i = inp ! i" using fit old by (simp_all add: fits_def)
  have new: "slot_ok inp (Suc i) c' (int i) (sgName (inp ! i))"
    using fit si same maxLatLongDur_pos by (auto simp: slot_ok_def fits_def)
  have lt: "lastTime c' = lastTime c \<or> lastTime c = 0" using same(4) by simp
  have s1: "slot_ok inp (Suc i) c' (lastLat c') fieldCurrentLocationLatitude"
    using slots(1) new slot_ok_later [OF _ same(1) lt] old by metis
  have s2: "slot_ok inp (Suc i) c' (lastLon c') fieldCurrentLocationLongitude"
    using slots(2) new slot_ok_later [OF _ same(1) lt] old by metis
  have s3: "slot_ok inp (Suc i) c' (lastHDOP c') fieldDIMOAftermarketHDOP"
    using slots(3) new slot_ok_later [OF _ same(1) lt] old by metis
  show ?thesis
    unfolding store_inv_def same(1,2)
  proof (intro conjI allI impI s1 s2 s3)
    show "int j \<in> active c' \<or> sgName (csSignals c ! j) = pruneSignalName"
      if "j < Suc i" "j < length inp \<and> sgName (inp ! j) \<in> raw_names" for j
      using that old same(3) by (cases "j = i") auto
    show "lastTime c' = 0" if "active c' = {}" using that same(3) by simp
  qed (use old in \<open>simp_all\<close>)
qed

lemma store_inv_skip:
  assumes inv: "store_inv inp field i c" and i: "i < length inp" "sgName (inp ! i) \<notin> raw_names"
  shows "store_inv inp field (Suc i) c"
proof -
  note old = inv [unfolded store_inv_def]
  note later = slot_ok_later [where c' = c and c = c, OF _ refl disjI1 [OF refl]]
  show ?thesis
    unfolding store_inv_def
  proof (intro conjI allI impI)
    show "int j \<in> active c \<or> sgName (csSignals c ! j) = pruneSignalName"
      if "j < Suc i" "j < length inp \<and> sgName (inp ! j) \<in> raw_names" for j
      using that old i by (cases "j = i") auto
  qed (use old later in \<open>simp_all\<close>)
qed

lemma processSignal_inv:
  assumes inv: "store_inv inp field i c" and i: "i < length inp"
    and sorted_ts: "\<And>j k. j \<le> k \<Longrightarrow> k < length inp \<Longrightarrow> sgTimestamp (inp ! j) \<le> sgTimestamp (inp ! k)"
    and nz: "sgTimestamp (inp ! i) \<noteq> 0"
  shows "store_inv inp field (Suc i) (processSignal L F field i c)"
proof -
  let ?t = "tryCreateLocation L F field"
  let ?sig = "inp ! i"
  have sig: "csSignals c ! i = ?sig" using inv i by (simp add: store_inv_def)
  define c1 where "c1 = (if lastTime c \<noteq> 0 \<and> maxLatLongDur \<le> time_sub (sgTimestamp ?sig) (lastTime c) then ?t c else c)"
  have i1: "store_inv inp field i c1"
    using inv store_inv_try [OF inv less_imp_le [OF i]] by (simp add: c1_def)
  have early: "lastTime x \<le> sgTimestamp ?sig" if x: "store_inv inp field i x" "lastTime x \<noteq> 0" for x
  proof -
    from x have "active x \<noteq> {}" by (auto simp: store_inv_def)
    then obtain k where "0 \<le> k" "nat k < i" "lastTime x \<le> sgTimestamp (inp ! nat k)"
      using store_inv_slots [OF x(1)] by (auto simp: active_def slot_ok_def split: if_splits)
    with sorted_ts [of "nat k" i] i show ?thesis by simp
  qed
  have fit0: "fits inp i x" if "lastTime x = 0" for x using that i nz by (simp add: fits_def)
  have fit1: "fits inp i c1"
  proof (cases "lastTime c \<noteq> 0 \<and> maxLatLongDur \<le> time_sub (sgTimestamp ?sig) (lastTime c)")
    case True
    then show ?thesis using tryCreateLocation_effect(3) [OF inv less_imp_le [OF i]] fit0 by (simp add: c1_def)
  next
    case False
    then have "lastTime c \<noteq> 0 \<Longrightarrow> sgTimestamp ?sig < lastTime c + maxLatLongDur"
      using time_sub_ge_iff [of maxLatLongDur "sgTimestamp ?sig" "lastTime c"]
      by (simp add: maxLatLongDur_def millisecond_def)
    with False early [OF inv] i nz show ?thesis by (auto simp: fits_def c1_def)
  qed
  define c2 where "c2 = (\<lambda>b. if b then ?t c1 else c1)"
  have i2: "store_inv inp field i (c2 b)" "fits inp i (c2 b)" for b
    using i1 fit1 store_inv_try [OF i1 less_imp_le [OF i]] tryCreateLocation_effect(3) [OF i1 less_imp_le [OF i]] fit0
    by (simp_all add: c2_def)
  have free: "lastLat (c2 (lastLat c1 \<noteq> -1)) = -1" "lastLon (c2 (lastLon c1 \<noteq> -1)) = -1" "lastHDOP (c2 (lastHDOP c1 \<noteq> -1)) = -1"
    using tryCreateLocation_effect(4-6) [OF i1 less_imp_le [OF i]] by (simp_all add: c2_def)
  have lat: "store_inv inp field (Suc i) (start_time (sgTimestamp ?sig) ((c2 (lastLat c1 \<noteq> -1))\<lparr>lastLat := int i\<rparr>))"
    if "sgName ?sig = fieldCurrentLocationLatitude"
    by (rule store_inv_take [OF i2]) (use that free in \<open>auto simp: start_time_def active_def\<close>)
  have lon: "store_inv inp field (Suc i) (start_time (sgTimestamp ?sig) ((c2 (lastLon c1 \<noteq> -1))\<lparr>lastLon := int i\<rparr>))"
    if "sgName ?sig = fieldCurrentLocationLongitude"
    by (rule store_inv_take [OF i2]) (use that free in \<open>auto simp: start_time_def active_def\<close>)
  have hdop: "store_inv inp field (Suc i) (start_time (sgTimestamp ?sig) ((c2 (lastHDOP c1 \<noteq> -1))\<lparr>lastHDOP := int i\<rparr>))"
    if "sgName ?sig = fieldDIMOAftermarketHDOP"
    by (rule store_inv_take [OF i2]) (use that free in \<open>auto simp: start_time_def active_def\<close>)
  have p: "processSignal L F field i c =
      (if sgName ?sig = fieldCurrentLocationLatitude
       then start_time (sgTimestamp ?sig) ((c2 (lastLat c1 \<noteq> -1))\<lparr>lastLat := int i\<rparr>)
       else if sgName ?sig = fieldCurrentLocationLongitude
       then start_time (sgTimestamp ?sig) ((c2 (lastLon c1 \<noteq> -1))\<lparr>lastLon := int i\<rparr>)
       else if sgName ?sig = fieldDIMOAftermarketHDOP
       then start_time (sgTimestamp ?sig) ((c2 (lastHDOP c1 \<noteq> -1))\<lparr>lastHDOP := int i\<rparr>)
       else c1)"
    by (simp only: processSignal_def Let_def sig c1_def [symmetric] c2_def start_time_def)
  show ?thesis
    unfolding p using lat lon hdop store_inv_skip [OF i1 i] by (simp add: raw_names_def)
qed

lemma store_inv_init: "store_inv inp field 0 (newCoordinateStore inp)"
  by (simp add: store_inv_def newCoordinateStore_def slot_ok_def active_def)

lemma fold_processSignal_inv:
  assumes sorted_ts: "\<And>j k. j \<le> k \<Longrightarrow> k < length inp \<Longrightarrow> sgTimestamp (inp ! j) \<le> sgTimestamp (inp ! k)"
    and nz: "\<And>j. j < length inp \<Longrightarrow> sgTimestamp (inp ! j) \<noteq> 0"
  shows "n \<le> length inp \<Longrightarrow> store_inv inp field n (fold (processSignal L F field) [0..<n] (newCoordinateStore inp))"
proof (induction n)
  case (Suc n)
  then show ?case using processSignal_inv [OF _ _ sorted_ts nz] by simp
qed (simp add: store_inv_init)

lemma made_from_set: "set inp = set inp' \<Longrightarrow> made_from inp field x \<longleftrightarrow> made_from inp' field x"
  by (simp add: made_from_def)

lemma handleCoordinates_spec:
  assumes S: "sorts srt" and nz: "\<And>s. s \<in> set xs \<Longrightarrow> sgTimestamp s \<noteq> 0" and f: "field \<notin> raw_names"
    and out: "handleCoordinates L F field srt xs = (out, errs)"
  shows "s \<in> set out \<Longrightarrow> sgName s \<notin> raw_names \<and> (s \<in> set xs \<or> made_from xs field s)"
    and "s \<in> set xs \<Longrightarrow> sgName s \<notin> raw_names \<Longrightarrow> sgName s \<noteq> pruneSignalName \<Longrightarrow> s \<in> set out"
proof -
  let ?inp = "srt xs"
  have st: "set ?inp = set xs" by (rule sorts_set [OF S])
  have "sorted_wrt signal_le ?inp" using S by (simp add: sorts_def)
  then have le: "sgTimestamp (?inp ! j) \<le> sgTimestamp (?inp ! k)" if "j \<le> k" "k < length ?inp" for j k
    using that sorted_wrt_nth_less [of signal_le ?inp j k] by (cases "j = k") (auto simp: signal_le_def)
  have nz': "sgTimestamp (?inp ! j) \<noteq> 0" if "j < length ?inp" for j
    using nz [of "?inp ! j"] nth_mem [OF that] st by simp
  let ?c = "fold (processSignal L F field) [0..<length ?inp] (newCoordinateStore ?inp)"
  let ?t = "tryCreateLocation L F field ?c"
  have inv: "store_inv ?inp field (length ?inp) ?t"
    by (rule store_inv_try [OF fold_processSignal_inv [OF le nz' le_refl] le_refl])
  have act: "active ?t = {}"
    by (rule tryCreateLocation_effect(2) [OF fold_processSignal_inv [OF le nz' le_refl] le_refl])
  have "newCoordinateStore xs\<lparr>csSignals := ?inp\<rparr> = newCoordinateStore ?inp" by (simp add: newCoordinateStore_def)
  moreover have "xs = [] \<Longrightarrow> ?inp = []" using st by simp
  ultimately have o: "out = (if xs = [] then [] else dropPruned (csSignals ?t) @ csCreated ?t)"
    using out by (auto simp: handleCoordinates_def processSignals_def Let_def newCoordinateStore_def)
  note old = inv [unfolded store_inv_def]
  have keep: "?inp ! j = csSignals ?t ! j" if "j < length ?inp" "sgName (?inp ! j) \<notin> raw_names" for j
    using old that by simp
  show "sgName s \<notin> raw_names \<and> (s \<in> set xs \<or> made_from xs field s)" if s: "s \<in> set out"
  proof (cases "s \<in> set (csCreated ?t)")
    case True
    then have "made_from ?inp field s" using old by blast
    then show ?thesis using f made_from_set [OF st] by (auto simp: made_from_def)
  next
    case False
    with s o have "s \<in> set (csSignals ?t)" "sgName s \<noteq> pruneSignalName"
      by (simp_all add: dropPruned_def split: if_splits)
    moreover have "length (csSignals ?t) = length ?inp" using old by blast
    ultimately obtain j where j: "j < length ?inp" "s = csSignals ?t ! j" "sgName s \<noteq> pruneSignalName"
      by (metis in_set_conv_nth)
    have "sgName (?inp ! j) \<notin> raw_names" using old j act by blast
    with keep [OF j(1)] j(2) have "s = ?inp ! j" "sgName s \<notin> raw_names" by simp_all
    with j(1) st show ?thesis by (metis nth_mem)
  qed
  show "s \<in> set out" if s: "s \<in> set xs" "sgName s \<notin> raw_names" "sgName s \<noteq> pruneSignalName"
  proof -
    from s(1) st obtain j where j: "j < length ?inp" "s = ?inp ! j" by (metis in_set_conv_nth)
    with keep [OF j(1)] s have "s = csSignals ?t ! j" by simp
    then have "s \<in> set (csSignals ?t)" using j(1) old by simp
    with s o show ?thesis by (auto simp: dropPruned_def)
  qed
qed

end
