(* ===== verification/Decodestream.thy ===== *)
theory Decodestream
  imports Location Publisher Streams Sink
begin

text \<open>
  \<^verbatim>\<open>internal/decodestream/decodestream.go\<close>: the bridge that decodes raw status and event messages
  and publishes one message per signal or event name. The decoders and the packing of signals
  are the package \<^verbatim>\<open>model-garage\<close>, the record \<open>vss_lib\<close>; the JetStream client is the record
  \<open>js_ops\<close> of the publisher. The order in which Go iterates over a map is a parameter, and so is
  the clock test for future timestamps. Messages are decoded and submitted in fetch order and
  then settled in fetch order; the actions on them are collected in a list.
\<close>

section \<open>Configuration and streams\<close>

definition SignalsStreamName :: string where "SignalsStreamName = ''DIMO_SIGNALS''"
definition EventsStreamName :: string where "EventsStreamName = ''DIMO_EVENTS''"
definition signalSubjectPrefix :: string where "signalSubjectPrefix = ''dimo.signals''"
definition eventSubjectPrefix :: string where "eventSubjectPrefix = ''dimo.events''"
definition consumerName :: string where "consumerName = ''decodestream''"
definition defaultSignalsMaxBytes :: int where "defaultSignalsMaxBytes = 100 * 2 ^ 30"
definition defaultEventsMaxBytes :: int where "defaultEventsMaxBytes = 10 * 2 ^ 30"
definition maxDecodeFetchRetries :: nat where "maxDecodeFetchRetries = 30"
definition decodeFetchRetryBackoff :: duration where "decodeFetchRetryBackoff = 2 * second"
definition nakRedeliveryDelay :: duration where "nakRedeliveryDelay = 15 * second"

record bridge_config =
  bcChainID :: nat
  VehicleNFTAddress :: address
  bcReplicas :: int
  StreamPartitions :: int
  SignalsMaxBytes :: int
  EventsMaxBytes :: int

text \<open>An event of the package \<^verbatim>\<open>vss\<close>: its name and the rest.\<close>

record vss_event =
  veName :: string
  veData :: string

type_synonym 'a conversion = "'a list \<times> (go_error \<times> 'a list option) option"

text \<open>An error of a decoder carries what it had decoded when it is a \<^verbatim>\<open>ConversionError\<close>. The packing
  functions are \<^verbatim>\<open>vss.PackSignals\<close> and \<^verbatim>\<open>vss.PackEvents\<close> followed by \<^verbatim>\<open>json.Marshal\<close>.\<close>

record vss_lib =
  ConvertToSignals :: "string \<Rightarrow> raw_event \<Rightarrow> signal conversion"
  ConvertToEvents :: "string \<Rightarrow> raw_event \<Rightarrow> vss_event conversion"
  MarshalSignals :: "ce_header \<Rightarrow> signal list \<Rightarrow> bytes result"
  MarshalEvents :: "ce_header \<Rightarrow> vss_event list \<Rightarrow> bytes result"
  FieldCurrentLocationCoordinates :: string

record ('s, 'f) bridge =
  brCfg :: bridge_config
  brJS :: "('s, 'f) js_ops"
  brLib :: ce_lib
  brFloat :: float_lib
  brVss :: vss_lib
  brSha :: "bytes \<Rightarrow> bytes"
  brSort :: "signal list \<Rightarrow> signal list"
  brRange :: "string list \<Rightarrow> string list"
  brFuture :: "go_time \<Rightarrow> bool"

definition New_config :: "bridge_config \<Rightarrow> bridge_config" where
  "New_config cfg =
     cfg\<lparr>bcReplicas := (if bcReplicas cfg = 0 then 1 else bcReplicas cfg),
         SignalsMaxBytes := (if SignalsMaxBytes cfg = 0 then defaultSignalsMaxBytes else SignalsMaxBytes cfg),
         EventsMaxBytes := (if EventsMaxBytes cfg = 0 then defaultEventsMaxBytes else EventsMaxBytes cfg)\<rparr>"

definition decoded_stream :: "string \<Rightarrow> string \<Rightarrow> int \<Rightarrow> int \<Rightarrow> string \<Rightarrow> stream_config" where
  "decoded_stream name prefix maxBytes replicas descr =
     \<lparr>scName = name, scDescription = descr, scSubjects = [prefix @ ''.>''], scStorage = FileStorage,
      scRetention = LimitsPolicy, scReplicas = replicas, scMaxAge = 24 * hour, scMaxBytes = maxBytes,
      scDuplicates = 0, scDiscard = DiscardOld\<rparr>"

fun ensure_decoded :: "('s, 'h) js_admin \<Rightarrow> stream_config list \<Rightarrow> 's \<Rightarrow> 's \<times> go_error option" where
  "ensure_decoded js [] s = (s, None)"
| "ensure_decoded js (sc # scs) s =
     (case CreateOrUpdateStream js sc s of
        (s1, Inl e) \<Rightarrow> (s1, Some (errorf (''creating '' @ scName sc @ '' stream: '') e ''''))
      | (s1, Inr h) \<Rightarrow> ensure_decoded js scs s1)"

definition EnsureStreams_decoded :: "('s, 'h) js_admin \<Rightarrow> bridge_config \<Rightarrow> 's \<Rightarrow> 's \<times> go_error option" where
  "EnsureStreams_decoded js cfg =
     ensure_decoded js
       [decoded_stream SignalsStreamName signalSubjectPrefix (SignalsMaxBytes cfg) (bcReplicas cfg) ''DIMO vehicle signal telemetry'',
        decoded_stream EventsStreamName eventSubjectPrefix (EventsMaxBytes cfg) (bcReplicas cfg) ''DIMO vehicle events'']"

section \<open>Names, ids, headers\<close>

text \<open>The replacer: each of the characters becomes an underscore.\<close>

definition sanitize :: "string \<Rightarrow> string" where
  "sanitize s =
     (if s = [] then ''_''
      else map (\<lambda>c. if of_char c \<in> {32, 46, 42, 62, 9, 10, 13 :: nat} then CHR ''_'' else c) s)"

definition dedupID :: "(bytes \<Rightarrow> bytes) \<Rightarrow> string \<Rightarrow> string \<Rightarrow> string" where
  "dedupID sha baseKey name = hex_encode (take 16 (sha (baseKey @ ''|'' @ name)))"

definition decodedHeader :: "raw_event \<Rightarrow> string \<Rightarrow> ce_header" where
  "decodedHeader rawEvent ceType =
     (let h = Header rawEvent
      in zero_header\<lparr>hSpecVersion := hSpecVersion h, hSubject := hSubject h, hSource := hSource h,
           hProducer := hProducer h, hID := hID h, hTime := hTime h, hType := ceType, hDataVersion := hDataVersion h\<rparr>)"

definition isVehicleSignalMessage :: "('s, 'f) bridge \<Rightarrow> raw_event \<Rightarrow> bool" where
  "isVehicleSignalMessage b rawEvent =
     (case DecodeERC721DID (brLib b) (hSubject (Header rawEvent)) of
        Inl _ \<Rightarrow> False
      | Inr did \<Rightarrow> ChainID did = bcChainID (brCfg b) \<and> ContractAddress did = VehicleNFTAddress (brCfg b))"

definition groupSignalsByName :: "signal list \<Rightarrow> string \<rightharpoonup> signal list" where
  "groupSignalsByName signals name =
     (let g = filter (\<lambda>s. sgName s = name) signals in if g = [] then None else Some g)"

section \<open>Publishing\<close>

definition publishJSONAsync ::
  "('s, 'f) bridge \<Rightarrow> string \<Rightarrow> bytes result \<Rightarrow> string \<Rightarrow> 's \<Rightarrow> 's \<times> 'f result" where
  "publishJSONAsync b subject payload dedup s =
     (case payload of
        Inl e \<Rightarrow> (s, Inl (errorf (''marshaling decoded payload for '' @ subject @ '': '') e ''''))
      | Inr data \<Rightarrow>
          (case PublishMsgAsync (brJS b) s \<lparr>msgSubject = subject, msgData = data, msgHeader = [MsgIdHdr \<mapsto> [dedup]]\<rparr> of
             (s1, Inl e) \<Rightarrow> (s1, Inl (errorf (''publishing to '' @ subject @ '': '') e ''''))
           | (s1, Inr fut) \<Rightarrow> (s1, Inr fut)))"

text \<open>The loop over the names of a group map: \<open>payload\<close> packs the group of a name.\<close>

fun submit_names ::
  "('s, 'f) bridge \<Rightarrow> string \<Rightarrow> string \<Rightarrow> (string \<Rightarrow> bytes result) \<Rightarrow> string list \<Rightarrow> 'f list \<Rightarrow> go_error option \<Rightarrow> 's
     \<Rightarrow> 's \<times> 'f list \<times> go_error option" where
  "submit_names b prefix baseKey payload [] futures pubErrs s = (s, futures, pubErrs)"
| "submit_names b prefix baseKey payload (name # names) futures pubErrs s =
     (case publishJSONAsync b (prefix @ ''.'' @ sanitize name) (payload name) (dedupID (brSha b) baseKey name) s of
        (s1, Inl e) \<Rightarrow> submit_names b prefix baseKey payload names futures (errors_join pubErrs (Some e)) s1
      | (s1, Inr fut) \<Rightarrow> submit_names b prefix baseKey payload names (futures @ [fut]) pubErrs s1)"

definition salvage :: "'a conversion \<Rightarrow> 'a list" where
  "salvage r = (case r of (xs, Some (e, Some decoded)) \<Rightarrow> decoded | (xs, _) \<Rightarrow> xs)"

text \<open>The signals of a raw event after conversion, pruning and merging of coordinates.\<close>

definition decode_signals :: "('s, 'f) bridge \<Rightarrow> raw_event \<Rightarrow> signal list" where
  "decode_signals b rawEvent =
     (let signals = salvage (ConvertToSignals (brVss b) (hSource (Header rawEvent)) rawEvent)
      in if signals = [] then []
         else fst (handleCoordinates (brLib b) (brFloat b) (FieldCurrentLocationCoordinates (brVss b)) (brSort b)
                (fst (pruneFutureAndDuplicateSignals (brLib b) (brSort b) (brFuture b) signals))))"

definition submitSignals :: "('s, 'f) bridge \<Rightarrow> raw_event \<Rightarrow> 's \<Rightarrow> 's \<times> 'f list \<times> go_error option" where
  "submitSignals b rawEvent s =
     (let signals = decode_signals b rawEvent
      in if signals = [] then (s, [], None)
         else let header = decodedHeader rawEvent (TypeSignals (brLib b));
                  baseKey = HeaderKey (brLib b) (Header rawEvent)
              in submit_names b signalSubjectPrefix baseKey
                   (\<lambda>name. MarshalSignals (brVss b) header (the (groupSignalsByName signals name)))
                   (brRange b (remdups (map sgName signals))) [] None s)"

definition submitEvents :: "('s, 'f) bridge \<Rightarrow> raw_event \<Rightarrow> 's \<Rightarrow> 's \<times> 'f list \<times> go_error option" where
  "submitEvents b rawEvent s =
     (let events = salvage (ConvertToEvents (brVss b) (hSource (Header rawEvent)) rawEvent)
      in if events = [] then (s, [], None)
         else let header = decodedHeader rawEvent (TypeEvents (brLib b));
                  baseKey = HeaderKey (brLib b) (Header rawEvent)
              in submit_names b eventSubjectPrefix baseKey
                   (\<lambda>name. MarshalEvents (brVss b) header (filter (\<lambda>ev. veName ev = name) events))
                   (brRange b (remdups (map veName events))) [] None s)"

section \<open>Messages\<close>

record 'f msg_outcome =
  moMsg :: jmsg
  moFutures :: "'f list"
  moSubmitErr :: "go_error option"

definition decodeAndSubmit :: "('s, 'f) bridge \<Rightarrow> jmsg \<Rightarrow> 's \<Rightarrow> 's \<times> 'f msg_outcome" where
  "decodeAndSubmit b msg s =
     (let nothing = (s, \<lparr>moMsg = msg, moFutures = [], moSubmitErr = None\<rparr>)
      in case ParseMsg (brLib b) (jmHeaders msg) (jmData msg) of
           Inl _ \<Rightarrow> nothing
         | Inr event \<Rightarrow>
             if hType (ev_header event) = TypeStatus (brLib b)
             then (if isVehicleSignalMessage b (RawEvent event)
                   then (case submitSignals b (RawEvent event) s of
                           (s1, futures, err) \<Rightarrow> (s1, \<lparr>moMsg = msg, moFutures = futures, moSubmitErr = err\<rparr>))
                   else nothing)
             else if hType (ev_header event) = TypeEvents (brLib b)
             then (case submitEvents b (RawEvent event) s of
                     (s1, futures, err) \<Rightarrow> (s1, \<lparr>moMsg = msg, moFutures = futures, moSubmitErr = err\<rparr>))
             else nothing)"

fun awaitFutures :: "('s, 'f) bridge \<Rightarrow> 'f list \<Rightarrow> go_error option \<Rightarrow> 's \<Rightarrow> 's \<times> go_error option" where
  "awaitFutures b [] errs s = (s, errs)"
| "awaitFutures b (fut # futs) errs s =
     (case AwaitFuture (brJS b) s fut of
        (s1, AckOk) \<Rightarrow> awaitFutures b futs errs s1
      | (s1, AckErr e) \<Rightarrow> awaitFutures b futs (errors_join errs (Some (errorf ''async publish: '' e ''''))) s1
      | (s1, CtxDone e) \<Rightarrow> (s1, Some e))"

datatype decode_action = DAck jmsg | DNak duration jmsg

definition finish :: "('s, 'f) bridge \<Rightarrow> 'f msg_outcome \<Rightarrow> 's \<Rightarrow> 's \<times> decode_action" where
  "finish b oc s =
     (case awaitFutures b (moFutures oc) None s of
        (s1, awaitErr) \<Rightarrow>
          (s1, if errors_join (moSubmitErr oc) awaitErr \<noteq> None then DNak nakRedeliveryDelay (moMsg oc) else DAck (moMsg oc)))"

fun submit_all :: "('s, 'f) bridge \<Rightarrow> jmsg list \<Rightarrow> 's \<Rightarrow> 's \<times> 'f msg_outcome list" where
  "submit_all b [] s = (s, [])"
| "submit_all b (msg # msgs) s =
     (case decodeAndSubmit b msg s of
        (s1, oc) \<Rightarrow> (case submit_all b msgs s1 of (s2, outcomes) \<Rightarrow> (s2, oc # outcomes)))"

fun finish_all :: "('s, 'f) bridge \<Rightarrow> 'f msg_outcome list \<Rightarrow> 's \<Rightarrow> 's \<times> decode_action list" where
  "finish_all b [] s = (s, [])"
| "finish_all b (oc # outcomes) s =
     (case finish b oc s of
        (s1, a) \<Rightarrow> (case finish_all b outcomes s1 of (s2, acts) \<Rightarrow> (s2, a # acts)))"

definition handleBatch :: "('s, 'f) bridge \<Rightarrow> jmsg list \<Rightarrow> 's \<Rightarrow> 's \<times> decode_action list" where
  "handleBatch b batch s = (case submit_all b batch s of (s1, outcomes) \<Rightarrow> finish_all b outcomes s1)"

section \<open>The consumer loop\<close>

datatype ack_policy = AckExplicitPolicy | AckAllPolicy | AckNonePolicy

record consumer_config =
  ccDurable :: string
  ccAckPolicy :: ack_policy
  ccAckWait :: duration
  ccMaxDeliver :: int
  ccBackOff :: "duration list"
  ccFilterSubjects :: "string list"

definition decode_consumer :: "ce_lib \<Rightarrow> nat \<Rightarrow> int \<Rightarrow> consumer_config" where
  "decode_consumer L part partitions =
     \<lparr>ccDurable = (if 1 < partitions then consumerName @ ''-p'' @ fmt_p03d part else consumerName),
      ccAckPolicy = AckExplicitPolicy, ccAckWait = minute, ccMaxDeliver = 100, ccBackOff = [15 * second, minute, 5 * minute],
      ccFilterSubjects = [SubjectFilterForType (TypeStatus L), SubjectFilterForType (TypeEvents L)]\<rparr>"

record 's decode_env =
  deStream :: "string \<Rightarrow> 's \<Rightarrow> 's \<times> go_error option"
  deConsumer :: "string \<Rightarrow> consumer_config \<Rightarrow> 's \<Rightarrow> 's \<times> go_error option"
  deCtxDone :: "'s \<Rightarrow> bool"
  deFetch :: "nat \<Rightarrow> duration \<Rightarrow> 's \<Rightarrow> 's \<times> jmsg list result"
  deBackoff :: "duration \<Rightarrow> 's \<Rightarrow> 's \<times> bool"

text \<open>\<open>deBackoff\<close> is the \<^verbatim>\<open>select\<close> between the context and the timer, true when the timer fired. The
  result is \<open>None\<close> while the loop is still going after \<open>fuel\<close> turns.\<close>

fun fetch_batches ::
  "nat \<Rightarrow> ('s, 'f) bridge \<Rightarrow> 's decode_env \<Rightarrow> nat \<Rightarrow> 's \<Rightarrow> decode_action list
     \<Rightarrow> ('s \<times> decode_action list \<times> go_error option) option" where
  "fetch_batches 0 b env consecutiveErrs s acts = None"
| "fetch_batches (Suc fuel) b env consecutiveErrs s acts =
     (if deCtxDone env s then Some (s, acts, None)
      else case deFetch env 500 (5 * second) s of
        (s1, Inl err) \<Rightarrow>
          if errors_is err CtxCanceled \<or> errors_is err CtxDeadlineExceeded
          then fetch_batches fuel b env consecutiveErrs s1 acts
          else let n = consecutiveErrs + 1
               in if maxDecodeFetchRetries \<le> n
                  then Some (s1, acts, Some (errorf (''fetching raw messages failed '' @ show_nat n @ ''x consecutively: '') err ''''))
                  else (case deBackoff env decodeFetchRetryBackoff s1 of
                          (s2, False) \<Rightarrow> Some (s2, acts, None)
                        | (s2, True) \<Rightarrow> fetch_batches fuel b env n s2 acts)
      | (s1, Inr batch) \<Rightarrow>
          (case handleBatch b batch s1 of
             (s2, as) \<Rightarrow> fetch_batches fuel b env 0 s2 (acts @ as)))"

definition runPartition ::
  "nat \<Rightarrow> ('s, 'f) bridge \<Rightarrow> 's decode_env \<Rightarrow> nat \<Rightarrow> int \<Rightarrow> 's \<Rightarrow> ('s \<times> decode_action list \<times> go_error option) option" where
  "runPartition fuel b env part partitions s =
     (let streamName = StreamNameFor part partitions; cc = decode_consumer (brLib b) part partitions
      in case deStream env streamName s of
           (s1, Some e) \<Rightarrow> Some (s1, [], Some (errorf (''opening '' @ streamName @ '': '') e ''''))
         | (s1, None) \<Rightarrow>
             (case deConsumer env streamName cc s1 of
                (s2, Some e) \<Rightarrow> Some (s2, [], Some (errorf (''creating '' @ ccDurable cc @ '' consumer: '') e ''''))
              | (s2, None) \<Rightarrow> fetch_batches fuel b env 0 s2 []))"


section \<open>Lemmas: what a settled message has published\<close>

text \<open>\<open>fut_id\<close> is the message id of the publish a future stands for.\<close>

abbreviation fut_id :: "('f \<Rightarrow> nats_msg) \<Rightarrow> 'f \<Rightarrow> string" where
  "fut_id fmsg f \<equiv> header_get (msgHeader (fmsg f)) MsgIdHdr"

lemma publishJSONAsync_effect:
  assumes "js_durable (brJS b) wal fmsg" "publishJSONAsync b subject payload dedup s = (s1, r)"
  shows "wal s \<subseteq> wal s1" and "r = Inr f \<Longrightarrow> fut_id fmsg f = dedup"
  using assms by (auto simp: publishJSONAsync_def header_get_def dest: js_durableD(1) js_durableD(2) [THEN subsetD]
      split: sum.splits prod.splits)

lemma submit_names_effect:
  assumes "js_durable (brJS b) wal fmsg"
  shows "submit_names b prefix key payload names futs errs s = (s', futs', errs') \<Longrightarrow>
    wal s \<subseteq> wal s' \<and> (errs' = None \<longrightarrow> errs = None \<and>
      (\<exists>gs. futs' = futs @ gs \<and> map (fut_id fmsg) gs = map (dedupID (brSha b) key) names))"
proof (induction names arbitrary: futs errs s)
  case (Cons n names)
  obtain s1 r where p: "publishJSONAsync b (prefix @ ''.'' @ sanitize n) (payload n) (dedupID (brSha b) key n) s = (s1, r)"
    by (cases "publishJSONAsync b (prefix @ ''.'' @ sanitize n) (payload n) (dedupID (brSha b) key n) s")
  note eff = publishJSONAsync_effect [OF assms p]
  show ?case
  proof (cases r)
    case (Inl e)
    with p Cons.prems have "submit_names b prefix key payload names futs (errors_join errs (Some e)) s1 = (s', futs', errs')" by simp
    from Cons.IH [OF this] eff(1) show ?thesis by auto
  next
    case (Inr f)
    with p Cons.prems have "submit_names b prefix key payload names (futs @ [f]) errs s1 = (s', futs', errs')" by simp
    from Cons.IH [OF this] eff(1) eff(2) [OF Inr] show ?thesis by auto
  qed
qed simp

lemma awaitFutures_effect:
  assumes "js_durable (brJS b) wal fmsg"
  shows "awaitFutures b futs errs s = (s', r) \<Longrightarrow>
    wal s \<subseteq> wal s' \<and> (r = None \<longrightarrow> errs = None \<and> fut_id fmsg ` set futs \<subseteq> wal s')"
proof (induction futs arbitrary: errs s)
  case (Cons f futs)
  obtain s1 a where a: "AwaitFuture (brJS b) s f = (s1, a)" by (cases "AwaitFuture (brJS b) s f")
  note mono = js_durableD(3) [OF assms a]
  show ?case
  proof (cases a)
    case AckOk
    with Cons.IH [of errs s1] Cons.prems a mono js_durableD(4) [OF assms a [unfolded AckOk]] show ?thesis by auto
  next
    case (AckErr e)
    with Cons.prems a
    have "awaitFutures b futs (errors_join errs (Some (errorf ''async publish: '' e ''''))) s1 = (s', r)" by simp
    from Cons.IH [OF this] mono show ?thesis by auto
  next
    case (CtxDone e)
    with Cons.prems a mono show ?thesis by auto
  qed
qed simp

text \<open>The ids a message's publishes carry: one for each name it decodes to.\<close>

definition decoded_ids :: "('s, 'f) bridge \<Rightarrow> jmsg \<Rightarrow> string set" where
  "decoded_ids b msg =
     (case ParseMsg (brLib b) (jmHeaders msg) (jmData msg) of
        Inl _ \<Rightarrow> {}
      | Inr event \<Rightarrow>
          let raw = RawEvent event; did = dedupID (brSha b) (HeaderKey (brLib b) (Header raw))
          in if hType (Header raw) = TypeStatus (brLib b)
             then (if isVehicleSignalMessage b raw then did ` sgName ` set (decode_signals b raw) else {})
             else if hType (Header raw) = TypeEvents (brLib b)
             then did ` veName ` set (salvage (ConvertToEvents (brVss b) (hSource (Header raw)) raw))
             else {})"

definition ranges :: "('s, 'f) bridge \<Rightarrow> bool" where
  "ranges b \<longleftrightarrow> (\<forall>xs. set (brRange b xs) = set xs)"

lemma map_eq_set: "map f xs = map g ys \<Longrightarrow> f ` set xs = g ` set ys"
  by (metis list.set_map)

lemma decodeAndSubmit_effect:
  assumes J: "js_durable (brJS b) wal fmsg" and R: "ranges b" and d: "decodeAndSubmit b msg s = (s', oc)"
  shows "moMsg oc = msg \<and> wal s \<subseteq> wal s' \<and>
    (moSubmitErr oc = None \<longrightarrow> fut_id fmsg ` set (moFutures oc) = decoded_ids b msg) \<and>
    (decoded_ids b msg = {} \<longrightarrow> moSubmitErr oc = None \<and> moFutures oc = [])"
proof -
  have names: "wal s \<subseteq> wal s1 \<and> (e = None \<longrightarrow> fut_id fmsg ` set fs = dedupID (brSha b) key ` set names) \<and>
      (names = [] \<longrightarrow> e = None \<and> fs = [])"
    if "submit_names b prefix key payload (brRange b names) [] None s = (s1, fs, e)" for prefix key payload names s1 fs e
  proof -
    have st: "set (brRange b names) = set names" using R by (simp add: ranges_def)
    have nil: "brRange b names = []" if "names = []" using st that by simp
    have "fut_id fmsg ` set fs = dedupID (brSha b) key ` set names" if "e = None"
      using submit_names_effect [OF J \<open>submit_names _ _ _ _ _ _ _ _ = _\<close>] that map_eq_set st by (metis append_Nil)
    then show ?thesis using submit_names_effect [OF J that] that nil by auto
  qed
  show ?thesis
  proof (cases "ParseMsg (brLib b) (jmHeaders msg) (jmData msg)")
    case (Inr ev)
    obtain s1 fs e where sub: "submitSignals b (RawEvent ev) s = (s1, fs, e)" by (cases "submitSignals b (RawEvent ev) s")
    obtain s2 fs' e' where sub': "submitEvents b (RawEvent ev) s = (s2, fs', e')" by (cases "submitEvents b (RawEvent ev) s")
    have sig: "wal s \<subseteq> wal s1 \<and>
        (e = None \<longrightarrow> fut_id fmsg ` set fs = dedupID (brSha b) (HeaderKey (brLib b) (Header (RawEvent ev))) ` sgName ` set (decode_signals b (RawEvent ev))) \<and>
        (decode_signals b (RawEvent ev) = [] \<longrightarrow> e = None \<and> fs = [])"
      using sub by (simp add: submitSignals_def Let_def split: if_splits) (drule names, simp)
    have evs: "wal s \<subseteq> wal s2 \<and>
        (e' = None \<longrightarrow> fut_id fmsg ` set fs' = dedupID (brSha b) (HeaderKey (brLib b) (Header (RawEvent ev))) `
           veName ` set (salvage (ConvertToEvents (brVss b) (hSource (Header (RawEvent ev))) (RawEvent ev)))) \<and>
        (salvage (ConvertToEvents (brVss b) (hSource (Header (RawEvent ev))) (RawEvent ev)) = [] \<longrightarrow> e' = None \<and> fs' = [])"
      using sub' by (simp add: submitEvents_def Let_def split: if_splits) (drule names, simp)
    note defs = decodeAndSubmit_def decoded_ids_def Inr Let_def
    consider (status) "hType (ev_header ev) = TypeStatus (brLib b)" "isVehicleSignalMessage b (RawEvent ev)"
      | (events) "hType (ev_header ev) \<noteq> TypeStatus (brLib b)" "hType (ev_header ev) = TypeEvents (brLib b)"
      | (none) "hType (ev_header ev) = TypeStatus (brLib b) \<longrightarrow> \<not> isVehicleSignalMessage b (RawEvent ev)"
          "hType (ev_header ev) = TypeEvents (brLib b) \<longrightarrow> hType (ev_header ev) = TypeStatus (brLib b)"
      by blast
    then show ?thesis
    proof cases
      case status
      then have "s' = s1" "oc = \<lparr>moMsg = msg, moFutures = fs, moSubmitErr = e\<rparr>" using d by (simp_all add: defs sub)
      with status sig show ?thesis by (simp add: defs)
    next
      case events
      then have "s' = s2" "oc = \<lparr>moMsg = msg, moFutures = fs', moSubmitErr = e'\<rparr>" using d by (simp_all add: defs sub')
      with events evs show ?thesis by (simp add: defs)
    next
      case none
      then have "s' = s" "oc = \<lparr>moMsg = msg, moFutures = [], moSubmitErr = None\<rparr>"
        using d by (auto simp: defs split: if_splits)
      with none show ?thesis by (auto simp: defs)
    qed
  qed (use d in \<open>auto simp: decodeAndSubmit_def decoded_ids_def Let_def\<close>)
qed


lemma finish_effect:
  assumes J: "js_durable (brJS b) wal fmsg" and f: "finish b oc s = (s', a)"
  shows "wal s \<subseteq> wal s' \<and>
    (a = DNak nakRedeliveryDelay (moMsg oc) \<or>
     a = DAck (moMsg oc) \<and> moSubmitErr oc = None \<and> fut_id fmsg ` set (moFutures oc) \<subseteq> wal s') \<and>
    (moSubmitErr oc = None \<and> moFutures oc = [] \<longrightarrow> a = DAck (moMsg oc))"
proof -
  obtain s1 r where w: "awaitFutures b (moFutures oc) None s = (s1, r)" by (cases "awaitFutures b (moFutures oc) None s")
  then have "s' = s1" "a = (if errors_join (moSubmitErr oc) r \<noteq> None then DNak nakRedeliveryDelay (moMsg oc) else DAck (moMsg oc))"
    using f by (simp_all add: finish_def)
  with awaitFutures_effect [OF J w] w show ?thesis by (auto split: if_splits)
qed

lemma submit_all_effect:
  assumes J: "js_durable (brJS b) wal fmsg" and R: "ranges b"
  shows "submit_all b msgs s = (s', ocs) \<Longrightarrow>
    list_all2 (\<lambda>msg oc. moMsg oc = msg \<and>
      (moSubmitErr oc = None \<longrightarrow> fut_id fmsg ` set (moFutures oc) = decoded_ids b msg) \<and>
      (decoded_ids b msg = {} \<longrightarrow> moSubmitErr oc = None \<and> moFutures oc = [])) msgs ocs"
proof (induction msgs arbitrary: s ocs)
  case (Cons m msgs)
  obtain s1 oc where d: "decodeAndSubmit b m s = (s1, oc)" by (cases "decodeAndSubmit b m s")
  obtain ocs' where o: "submit_all b msgs s1 = (s', ocs')" "ocs = oc # ocs'"
    using Cons.prems d by (auto split: prod.splits)
  from Cons.IH [OF o(1)] decodeAndSubmit_effect [OF J R d] o(2) show ?case by simp
qed simp

lemma finish_all_effect:
  assumes J: "js_durable (brJS b) wal fmsg"
  shows "finish_all b ocs s = (s', acts) \<Longrightarrow> wal s \<subseteq> wal s' \<and>
    list_all2 (\<lambda>oc a. (a = DNak nakRedeliveryDelay (moMsg oc) \<or>
       a = DAck (moMsg oc) \<and> moSubmitErr oc = None \<and> fut_id fmsg ` set (moFutures oc) \<subseteq> wal s') \<and>
      (moSubmitErr oc = None \<and> moFutures oc = [] \<longrightarrow> a = DAck (moMsg oc))) ocs acts"
proof (induction ocs arbitrary: s acts)
  case (Cons oc ocs)
  obtain s1 a where f: "finish b oc s = (s1, a)" by (cases "finish b oc s")
  obtain acts' where o: "finish_all b ocs s1 = (s', acts')" "acts = a # acts'"
    using Cons.prems f by (auto split: prod.splits)
  from Cons.IH [OF o(1)] finish_effect [OF J f] o(2) show ?case by auto
qed simp

lemma handleBatch_effect:
  assumes J: "js_durable (brJS b) wal fmsg" and R: "ranges b" and h: "handleBatch b batch s = (s', acts)"
  shows "list_all2 (\<lambda>msg a. (a = DNak nakRedeliveryDelay msg \<or> a = DAck msg \<and> decoded_ids b msg \<subseteq> wal s') \<and>
    (decoded_ids b msg = {} \<longrightarrow> a = DAck msg)) batch acts"
proof -
  obtain s1 ocs where s: "submit_all b batch s = (s1, ocs)" by (cases "submit_all b batch s")
  with h have f: "finish_all b ocs s1 = (s', acts)" by (simp add: handleBatch_def)
  show ?thesis
    by (rule list_all2_trans [OF _ submit_all_effect [OF J R s] conjunct2 [OF finish_all_effect [OF J f]]]) auto
qed

end
