(* ===== verification/Bridge_Run.thy ===== *)
theory Bridge_Run
  imports Decodestream
begin

text \<open>
  \<^verbatim>\<open>Bridge.Run\<close> of \<^verbatim>\<open>internal/decodestream/decodestream.go\<close>: one goroutine per partition of the write-ahead log under an
  \<^verbatim>\<open>errgroup\<close>, all publishing to the same broker. A goroutine is a program counter over the calls of
  \<^verbatim>\<open>runPartition\<close> and \<^verbatim>\<open>handleBatch\<close>; the step relation interleaves the goroutines with each other and
  with the broker's other users between these calls. The first error cancels the group's
  context. The last part shows that one goroutine left alone does what the functions of the
  theory \<open>Decodestream\<close> compute.
\<close>

section \<open>One goroutine\<close>

datatype 'f part_pc =
    OpenStream
  | CreateConsumer
  | Fetching nat
  | BackingOff nat
  | Submitting "jmsg list" "'f msg_outcome list"
  | Finishing "'f msg_outcome list"
  | Returned "go_error option"

text \<open>Beside the program counter: the messages fetched so far and what was done with them.\<close>

record 'f part_st =
  partPC :: "'f part_pc"
  partGot :: "jmsg list"
  partActs :: "decode_action list"

definition part_init :: "'f part_st" where
  "part_init = \<lparr>partPC = OpenStream, partGot = [], partActs = []\<rparr>"

definition fetch_part :: "'s decode_env \<Rightarrow> nat \<Rightarrow> 's \<times> 'f part_st \<Rightarrow> 's \<times> 'f part_st" where
  "fetch_part env consecutiveErrs = (\<lambda>(s, p).
     case deFetch env 500 (5 * second) s of
       (s1, Inl err) \<Rightarrow>
         if errors_is err CtxCanceled \<or> errors_is err CtxDeadlineExceeded then (s1, p)
         else let n = consecutiveErrs + 1
              in if maxDecodeFetchRetries \<le> n
                 then (s1, p\<lparr>partPC := Returned (Some (errorf (''fetching raw messages failed '' @ show_nat n @ ''x consecutively: '') err ''''))\<rparr>)
                 else (s1, p\<lparr>partPC := BackingOff n\<rparr>)
     | (s1, Inr batch) \<Rightarrow> (s1, p\<lparr>partPC := Submitting batch [], partGot := partGot p @ batch\<rparr>))"

definition part_step ::
  "('s, 'f) bridge \<Rightarrow> 's decode_env \<Rightarrow> int \<Rightarrow> bool \<Rightarrow> nat \<Rightarrow> 's \<times> 'f part_st \<Rightarrow> 's \<times> 'f part_st" where
  "part_step b env partitions ctxDone i = (\<lambda>(s, p).
     let streamName = StreamNameFor i partitions; cc = decode_consumer (brLib b) i partitions
     in case partPC p of
          OpenStream \<Rightarrow>
            (case deStream env streamName s of
               (s1, Some e) \<Rightarrow> (s1, p\<lparr>partPC := Returned (Some (errorf (''opening '' @ streamName @ '': '') e ''''))\<rparr>)
             | (s1, None) \<Rightarrow> (s1, p\<lparr>partPC := CreateConsumer\<rparr>))
        | CreateConsumer \<Rightarrow>
            (case deConsumer env streamName cc s of
               (s1, Some e) \<Rightarrow> (s1, p\<lparr>partPC := Returned (Some (errorf (''creating '' @ ccDurable cc @ '' consumer: '') e ''''))\<rparr>)
             | (s1, None) \<Rightarrow> (s1, p\<lparr>partPC := Fetching 0\<rparr>))
        | Fetching n \<Rightarrow>
            if ctxDone \<or> deCtxDone env s then (s, p\<lparr>partPC := Returned None\<rparr>) else fetch_part env n (s, p)
        | BackingOff n \<Rightarrow>
            (case deBackoff env decodeFetchRetryBackoff s of
               (s1, False) \<Rightarrow> (s1, p\<lparr>partPC := Returned None\<rparr>)
             | (s1, True) \<Rightarrow> (s1, p\<lparr>partPC := Fetching n\<rparr>))
        | Submitting [] outcomes \<Rightarrow> (s, p\<lparr>partPC := Finishing outcomes\<rparr>)
        | Submitting (msg # msgs) outcomes \<Rightarrow>
            (case decodeAndSubmit b msg s of (s1, oc) \<Rightarrow> (s1, p\<lparr>partPC := Submitting msgs (outcomes @ [oc])\<rparr>))
        | Finishing [] \<Rightarrow> (s, p\<lparr>partPC := Fetching 0\<rparr>)
        | Finishing (oc # outcomes) \<Rightarrow>
            (case finish b oc s of (s1, a) \<Rightarrow> (s1, p\<lparr>partPC := Finishing outcomes, partActs := partActs p @ [a]\<rparr>))
        | Returned r \<Rightarrow> (s, p))"

section \<open>The group\<close>

text \<open>The state of the group: the broker, the goroutines and the first error, which cancels the context.\<close>

record ('s, 'f) group_st =
  grpBroker :: 's
  grpParts :: "'f part_st list"
  grpErr :: "go_error option"

definition bridge_partitions :: "('s, 'f) bridge \<Rightarrow> int" where
  "bridge_partitions b = (if StreamPartitions (brCfg b) \<le> 0 then 1 else StreamPartitions (brCfg b))"

definition Run_bridge :: "('s, 'f) bridge \<Rightarrow> 's \<Rightarrow> ('s, 'f) group_st" where
  "Run_bridge b s = \<lparr>grpBroker = s, grpParts = replicate (nat (bridge_partitions b)) part_init, grpErr = None\<rparr>"

definition record_err :: "'f part_st \<Rightarrow> go_error option \<Rightarrow> go_error option" where
  "record_err p err = (case err of Some e \<Rightarrow> Some e | None \<Rightarrow> (case partPC p of Returned r \<Rightarrow> r | _ \<Rightarrow> None))"

text \<open>\<open>others\<close> is what the broker's other users may do to it.\<close>

inductive bridge_step ::
  "('s, 'f) bridge \<Rightarrow> 's decode_env \<Rightarrow> ('s \<Rightarrow> 's \<Rightarrow> bool) \<Rightarrow> ('s, 'f) group_st \<Rightarrow> ('s, 'f) group_st \<Rightarrow> bool"
  for b env others where
  goroutine: "i < length (grpParts st) \<Longrightarrow>
     part_step b env (bridge_partitions b) (grpErr st \<noteq> None) i (grpBroker st, grpParts st ! i) = (s', p') \<Longrightarrow>
     bridge_step b env others st
       (st\<lparr>grpBroker := s', grpParts := (grpParts st)[i := p'], grpErr := record_err p' (grpErr st)\<rparr>)"
| broker: "others (grpBroker st) s' \<Longrightarrow> bridge_step b env others st (st\<lparr>grpBroker := s'\<rparr>)"

inductive bridge_reach ::
  "('s, 'f) bridge \<Rightarrow> 's decode_env \<Rightarrow> ('s \<Rightarrow> 's \<Rightarrow> bool) \<Rightarrow> ('s, 'f) group_st \<Rightarrow> bool" for b env others where
  start: "bridge_reach b env others (Run_bridge b s)"
| step: "bridge_reach b env others st \<Longrightarrow> bridge_step b env others st st' \<Longrightarrow> bridge_reach b env others st'"

inductive_cases bridge_stepE: "bridge_step b env others st st'"

text \<open>\<^verbatim>\<open>g.Wait\<close> returns the first error once every goroutine has returned.\<close>

definition group_result :: "('s, 'f) group_st \<Rightarrow> go_error option option" where
  "group_result st =
     (if \<forall>p\<in>set (grpParts st). case partPC p of Returned r \<Rightarrow> True | _ \<Rightarrow> False then Some (grpErr st) else None)"

section \<open>What a goroutine keeps\<close>

fun act_msg :: "decode_action \<Rightarrow> jmsg" where
  "act_msg (DAck m) = m"
| "act_msg (DNak d m) = m"

fun pc_outcomes :: "'f part_pc \<Rightarrow> 'f msg_outcome list" where
  "pc_outcomes (Submitting msgs outcomes) = outcomes"
| "pc_outcomes (Finishing outcomes) = outcomes"
| "pc_outcomes _ = []"

fun pc_todo :: "'f part_pc \<Rightarrow> jmsg list" where
  "pc_todo (Submitting msgs outcomes) = msgs"
| "pc_todo _ = []"

definition part_pending :: "'f part_st \<Rightarrow> jmsg list" where
  "part_pending p = map moMsg (pc_outcomes (partPC p)) @ pc_todo (partPC p)"

text \<open>An acknowledged message has everything it decodes to in the log; one given back is given back with the
  delay, and had something to publish.\<close>

fun settled_well :: "('s, 'f) bridge \<Rightarrow> string set \<Rightarrow> decode_action \<Rightarrow> bool" where
  "settled_well b W (DAck m) \<longleftrightarrow> decoded_ids b m \<subseteq> W"
| "settled_well b W (DNak d m) \<longleftrightarrow> d = nakRedeliveryDelay \<and> decoded_ids b m \<noteq> {}"

definition submitted_well :: "('s, 'f) bridge \<Rightarrow> ('f \<Rightarrow> nats_msg) \<Rightarrow> 'f msg_outcome \<Rightarrow> bool" where
  "submitted_well b fmsg oc \<longleftrightarrow>
     (moSubmitErr oc = None \<longrightarrow> fut_id fmsg ` set (moFutures oc) = decoded_ids b (moMsg oc)) \<and>
     (decoded_ids b (moMsg oc) = {} \<longrightarrow> moSubmitErr oc = None \<and> moFutures oc = [])"

definition part_inv :: "('s, 'f) bridge \<Rightarrow> ('f \<Rightarrow> nats_msg) \<Rightarrow> string set \<Rightarrow> 'f part_st \<Rightarrow> bool" where
  "part_inv b fmsg W p \<longleftrightarrow>
     map act_msg (partActs p) @ part_pending p = partGot p \<and>
     list_all (submitted_well b fmsg) (pc_outcomes (partPC p)) \<and> list_all (settled_well b W) (partActs p)"

lemma part_inv_init: "part_inv b fmsg W part_init"
  by (simp add: part_inv_def part_init_def part_pending_def)

lemma part_init_pc: "partPC part_init = OpenStream"
  by (simp add: part_init_def)

lemma settled_mono: "settled_well b W a \<Longrightarrow> W \<subseteq> W' \<Longrightarrow> settled_well b W' a"
  by (cases a) auto

lemma part_inv_mono: "part_inv b fmsg W p \<Longrightarrow> W \<subseteq> W' \<Longrightarrow> part_inv b fmsg W' p"
  unfolding part_inv_def by (auto simp: list_all_iff intro: settled_mono)

text \<open>No call of the environment, and nobody else, removes a message from the log.\<close>

definition wal_kept :: "'s decode_env \<Rightarrow> ('s \<Rightarrow> 's \<Rightarrow> bool) \<Rightarrow> ('s \<Rightarrow> string set) \<Rightarrow> bool" where
  "wal_kept env others wal \<longleftrightarrow>
     (\<forall>n s. wal s \<subseteq> wal (fst (deStream env n s))) \<and> (\<forall>n cc s. wal s \<subseteq> wal (fst (deConsumer env n cc s))) \<and>
     (\<forall>k t s. wal s \<subseteq> wal (fst (deFetch env k t s))) \<and> (\<forall>t s. wal s \<subseteq> wal (fst (deBackoff env t s))) \<and>
     (\<forall>s s'. others s s' \<longrightarrow> wal s \<subseteq> wal s')"

lemma wal_keptD:
  assumes "wal_kept env others wal"
  shows "deStream env n s = (s', r1) \<Longrightarrow> wal s \<subseteq> wal s'" "deConsumer env n cc s = (s', r2) \<Longrightarrow> wal s \<subseteq> wal s'"
    "deFetch env k t s = (s', r3) \<Longrightarrow> wal s \<subseteq> wal s'" "deBackoff env t s = (s', r4) \<Longrightarrow> wal s \<subseteq> wal s'"
    "others s s' \<Longrightarrow> wal s \<subseteq> wal s'"
  using assms unfolding wal_kept_def by (metis fst_conv)+

lemma part_inv_pc:
  "part_inv b fmsg W p \<Longrightarrow> pc_outcomes (partPC p) = [] \<Longrightarrow> pc_todo (partPC p) = [] \<Longrightarrow> W \<subseteq> W' \<Longrightarrow>
     pc_outcomes pc = [] \<Longrightarrow> pc_todo pc = [] \<Longrightarrow> part_inv b fmsg W' (p\<lparr>partPC := pc\<rparr>)"
  using part_inv_mono [of b fmsg W p W'] by (simp add: part_inv_def part_pending_def)

lemma fetch_part_inv:
  assumes "wal_kept env others wal" "part_inv b fmsg (wal s) p" "partPC p = Fetching n" "fetch_part env n (s, p) = (s', p')"
  shows "wal s \<subseteq> wal s' \<and> part_inv b fmsg (wal s') p'"
proof -
  obtain r where f: "deFetch env 500 (5 * second) s = (s', r)"
    using assms(4) by (auto simp: fetch_part_def Let_def split: prod.splits sum.splits if_splits)
  note w = wal_keptD(3) [OF assms(1) f]
  from part_inv_mono [OF assms(2) w] assms(3)
  have "map act_msg (partActs p) = partGot p" "list_all (settled_well b (wal s')) (partActs p)"
    by (simp_all add: part_inv_def part_pending_def)
  with w f assms(3,4) show ?thesis
    by (auto simp: fetch_part_def part_inv_def part_pending_def Let_def split: sum.splits if_splits)
qed

lemma submit_step_inv:
  assumes "js_durable (brJS b) wal fmsg" "ranges b" "part_inv b fmsg (wal s) p" "partPC p = Submitting (msg # msgs) ocs"
    "decodeAndSubmit b msg s = (s', oc)"
  shows "wal s \<subseteq> wal s' \<and> part_inv b fmsg (wal s') (p\<lparr>partPC := Submitting msgs (ocs @ [oc])\<rparr>)"
proof -
  note e = decodeAndSubmit_effect [OF assms(1,2,5)]
  with part_inv_mono [OF assms(3), of "wal s'"] assms(4) show ?thesis
    by (simp add: part_inv_def part_pending_def submitted_well_def)
qed

lemma finish_step_inv:
  assumes "js_durable (brJS b) wal fmsg" "part_inv b fmsg (wal s) p" "partPC p = Finishing (oc # ocs)" "finish b oc s = (s', a)"
  shows "wal s \<subseteq> wal s' \<and> part_inv b fmsg (wal s') (p\<lparr>partPC := Finishing ocs, partActs := partActs p @ [a]\<rparr>)"
proof -
  note e = finish_effect [OF assms(1,4)]
  have oc: "submitted_well b fmsg oc" using assms(2,3) by (simp add: part_inv_def)
  with e have "settled_well b (wal s') a" "act_msg a = moMsg oc" by (auto simp: submitted_well_def)
  with part_inv_mono [OF assms(2), of "wal s'"] e assms(3) show ?thesis
    by (simp add: part_inv_def part_pending_def)
qed

lemma part_step_inv:
  assumes K: "wal_kept env others wal" and J: "js_durable (brJS b) wal fmsg" and R: "ranges b"
    and p: "part_inv b fmsg (wal s) p" and st: "part_step b env n c i (s, p) = (s', p')"
  shows "wal s \<subseteq> wal s' \<and> part_inv b fmsg (wal s') p'"
proof (cases "partPC p")
  case OpenStream
  with st wal_keptD(1) [OF K, of "StreamNameFor i n" s s'] show ?thesis
    by (auto simp: part_step_def Let_def split: prod.splits option.splits intro!: part_inv_pc [OF p])
next
  case CreateConsumer
  with st wal_keptD(2) [OF K, of "StreamNameFor i n" "decode_consumer (brLib b) i n" s s'] show ?thesis
    by (auto simp: part_step_def Let_def split: prod.splits option.splits intro!: part_inv_pc [OF p])
next
  case (Fetching k)
  show ?thesis
  proof (cases "c \<or> deCtxDone env s")
    case True
    with st Fetching show ?thesis by (auto simp: part_step_def intro!: part_inv_pc [OF p])
  next
    case False
    with st Fetching have "fetch_part env k (s, p) = (s', p')" by (simp add: part_step_def)
    from fetch_part_inv [OF K p Fetching this] show ?thesis .
  qed
next
  case (BackingOff k)
  with st wal_keptD(4) [OF K, of decodeFetchRetryBackoff s s'] show ?thesis
    by (auto simp: part_step_def split: prod.splits bool.splits intro!: part_inv_pc [OF p])
next
  case (Submitting msgs ocs)
  show ?thesis
  proof (cases msgs)
    case Nil
    with st Submitting p show ?thesis by (auto simp: part_step_def part_inv_def part_pending_def)
  next
    case (Cons m ms)
    with Submitting have pc: "partPC p = Submitting (m # ms) ocs" by simp
    then obtain oc where d: "decodeAndSubmit b m s = (s', oc)" and e: "p' = p\<lparr>partPC := Submitting ms (ocs @ [oc])\<rparr>"
      using st by (auto simp: part_step_def split: prod.splits)
    show ?thesis unfolding e by (rule submit_step_inv [OF J R p pc d])
  qed
next
  case (Finishing ocs)
  show ?thesis
  proof (cases ocs)
    case Nil
    with st Finishing p show ?thesis by (auto simp: part_step_def part_inv_def part_pending_def)
  next
    case (Cons oc os)
    with Finishing have pc: "partPC p = Finishing (oc # os)" by simp
    then obtain a where d: "finish b oc s = (s', a)" and e: "p' = p\<lparr>partPC := Finishing os, partActs := partActs p @ [a]\<rparr>"
      using st by (auto simp: part_step_def split: prod.splits)
    show ?thesis unfolding e by (rule finish_step_inv [OF J p pc d])
  qed
next
  case (Returned r)
  with st p show ?thesis by (auto simp: part_step_def)
qed

section \<open>What the group keeps\<close>

definition failed :: "'f part_st \<Rightarrow> go_error \<Rightarrow> bool" where
  "failed p e \<longleftrightarrow> partPC p = Returned (Some e)"

definition err_inv :: "('s, 'f) group_st \<Rightarrow> bool" where
  "err_inv st \<longleftrightarrow>
     (case grpErr st of
        None \<Rightarrow> \<forall>p\<in>set (grpParts st). \<forall>e. \<not> failed p e
      | Some e \<Rightarrow> \<exists>p\<in>set (grpParts st). failed p e)"

definition group_inv :: "('s, 'f) bridge \<Rightarrow> ('f \<Rightarrow> nats_msg) \<Rightarrow> ('s \<Rightarrow> string set) \<Rightarrow> ('s, 'f) group_st \<Rightarrow> bool" where
  "group_inv b fmsg wal st \<longleftrightarrow>
     length (grpParts st) = nat (bridge_partitions b) \<and> list_all (part_inv b fmsg (wal (grpBroker st))) (grpParts st) \<and> err_inv st"

lemma returned_iff: "(case pc of Returned r \<Rightarrow> True | _ \<Rightarrow> False) \<longleftrightarrow> (\<exists>r. pc = Returned r)"
  by (cases pc) simp_all

lemma failed_stays: "failed p e \<Longrightarrow> part_step b env n c i (s, p) = (s', p') \<Longrightarrow> p' = p"
  by (simp add: failed_def part_step_def)

lemma record_err_None: "record_err p None = Some e \<longleftrightarrow> failed p e"
  by (auto simp: record_err_def failed_def split: part_pc.splits)

lemma record_err_Some [simp]: "record_err p (Some e) = Some e"
  by (simp add: record_err_def)

lemma err_inv_step:
  assumes "err_inv st" "i < length (grpParts st)"
    "part_step b env n c i (s, grpParts st ! i) = (s', p')"
  shows "err_inv (st\<lparr>grpBroker := s', grpParts := (grpParts st)[i := p'], grpErr := record_err p' (grpErr st)\<rparr>)"
proof (cases "grpErr st")
  case None
  then have old: "\<forall>p\<in>set (grpParts st). \<forall>e. \<not> failed p e" using assms(1) by (simp add: err_inv_def)
  show ?thesis
  proof (cases "record_err p' None")
    case None
    then have "\<not> failed p' e" for e using record_err_None [of p' e] by simp
    with old None \<open>grpErr st = None\<close> show ?thesis by (auto simp: err_inv_def dest!: set_update_subset_insert [THEN subsetD])
  next
    case (Some e)
    moreover have "p' \<in> set ((grpParts st)[i := p'])" using assms(2) by (rule set_update_memI)
    ultimately show ?thesis using \<open>grpErr st = None\<close> record_err_None [of p' e] by (auto simp: err_inv_def)
  qed
next
  case (Some e)
  then obtain j where j: "j < length (grpParts st)" "failed (grpParts st ! j) e"
    using assms(1) by (auto simp: err_inv_def in_set_conv_nth)
  have "(grpParts st)[i := p'] ! j = grpParts st ! j"
    using j failed_stays [OF _ assms(3)] by (cases "i = j") auto
  with j Some show ?thesis by (auto simp: err_inv_def in_set_conv_nth intro!: exI [of _ j])
qed

lemma group_inv_step:
  assumes K: "wal_kept env others wal" and J: "js_durable (brJS b) wal fmsg" and R: "ranges b"
    and I: "group_inv b fmsg wal st" and st: "bridge_step b env others st st'"
  shows "group_inv b fmsg wal st'"
  using st
proof (cases rule: bridge_step.cases)
  case (goroutine i s' p')
  with I have "part_inv b fmsg (wal (grpBroker st)) (grpParts st ! i)" by (simp add: group_inv_def list_all_length)
  note pi = part_step_inv [OF K J R this goroutine(3)]
  have "list_all (part_inv b fmsg (wal s')) ((grpParts st)[i := p'])"
    using I pi by (auto simp: group_inv_def list_all_iff intro: part_inv_mono dest!: set_update_subset_insert [THEN subsetD])
  moreover have "err_inv st'" using I goroutine by (simp add: group_inv_def err_inv_step)
  ultimately show ?thesis using I goroutine by (simp add: group_inv_def)
next
  case (broker s')
  with I wal_keptD(5) [OF K broker(2)] show ?thesis
    by (auto simp: group_inv_def err_inv_def list_all_iff intro: part_inv_mono split: option.splits)
qed

lemma group_inv_reach:
  assumes K: "wal_kept env others wal" and J: "js_durable (brJS b) wal fmsg" and R: "ranges b"
  shows "bridge_reach b env others st \<Longrightarrow> group_inv b fmsg wal st"
proof (induction rule: bridge_reach.induct)
  case (start s)
  show ?case
    by (simp add: group_inv_def Run_bridge_def err_inv_def list_all_iff part_inv_init failed_def part_init_pc)
next
  case (step st st')
  show ?case by (rule group_inv_step [OF K J R step.IH step.hyps(2)])
qed

section \<open>A goroutine left alone\<close>

lemma submit_alone:
  "submit_all b msgs s = (s', ocs) \<Longrightarrow>
     (part_step b env n c i ^^ length msgs) (s, p\<lparr>partPC := Submitting msgs pre\<rparr>) = (s', p\<lparr>partPC := Submitting [] (pre @ ocs)\<rparr>)"
proof (induction msgs arbitrary: s ocs pre)
  case (Cons m msgs)
  obtain s1 oc where d: "decodeAndSubmit b m s = (s1, oc)" by (cases "decodeAndSubmit b m s")
  with Cons.prems obtain ocs' where o: "submit_all b msgs s1 = (s', ocs')" "ocs = oc # ocs'" by (auto split: prod.splits)
  from Cons.IH [OF o(1), of "pre @ [oc]"] d o(2) show ?case by (simp add: funpow_swap1 part_step_def)
qed simp

lemma finish_alone:
  "finish_all b ocs s = (s', acts) \<Longrightarrow>
     (part_step b env n c i ^^ length ocs) (s, p\<lparr>partPC := Finishing ocs, partActs := pre\<rparr>) =
       (s', p\<lparr>partPC := Finishing [], partActs := pre @ acts\<rparr>)"
proof (induction ocs arbitrary: s acts pre)
  case (Cons oc ocs)
  obtain s1 a where d: "finish b oc s = (s1, a)" by (cases "finish b oc s")
  with Cons.prems obtain acts' where o: "finish_all b ocs s1 = (s', acts')" "acts = a # acts'" by (auto split: prod.splits)
  from Cons.IH [OF o(1), of "pre @ [a]"] d o(2) show ?case by (simp add: funpow_swap1 part_step_def)
qed simp

lemma submit_all_length: "submit_all b msgs s = (s', ocs) \<Longrightarrow> length ocs = length msgs"
  by (induction msgs arbitrary: s ocs) (auto split: prod.splits)

text \<open>The steps of a batch without interference are \<^verbatim>\<open>handleBatch\<close>.\<close>

lemma batch_alone:
  assumes "handleBatch b batch s = (s', acts)"
  shows "(part_step b env n c i ^^ (length batch + Suc (length batch + 1))) (s, p\<lparr>partPC := Submitting batch []\<rparr>) =
     (s', p\<lparr>partPC := Fetching 0, partActs := partActs p @ acts\<rparr>)"
proof -
  obtain s1 ocs where so: "submit_all b batch s = (s1, ocs)" by (cases "submit_all b batch s")
  with assms have f: "finish_all b ocs s1 = (s', acts)" by (simp add: handleBatch_def)
  let ?f = "part_step b env n c i"
  have 1: "(?f ^^ length batch) (s, p\<lparr>partPC := Submitting batch []\<rparr>) = (s1, p\<lparr>partPC := Submitting [] ocs\<rparr>)"
    using submit_alone [OF so, where env = env and n = n and c = c and i = i and p = p and pre = "[]"] by simp
  have 2: "?f (s1, p\<lparr>partPC := Submitting [] ocs\<rparr>) = (s1, p\<lparr>partPC := Finishing ocs, partActs := partActs p\<rparr>)"
    by (simp add: part_step_def)
  have 3: "(?f ^^ length batch) (s1, p\<lparr>partPC := Finishing ocs, partActs := partActs p\<rparr>) =
      (s', p\<lparr>partPC := Finishing [], partActs := partActs p @ acts\<rparr>)"
    using finish_alone [OF f, where env = env and n = n and c = c and i = i and p = p and pre = "partActs p"] submit_all_length [OF so] by simp
  have 4: "?f (s', p\<lparr>partPC := Finishing [], partActs := partActs p @ acts\<rparr>) = (s', p\<lparr>partPC := Fetching 0, partActs := partActs p @ acts\<rparr>)"
    by (simp add: part_step_def)
  have "length batch + Suc (length batch + 1) = (1 + length batch) + (1 + length batch)" by simp
  then show ?thesis by (simp only: funpow_add o_apply 1 2 3 4 funpow.simps One_nat_def id_apply)
qed

text \<open>The successor of the group when one goroutine takes a step.\<close>

definition advance :: "('s, 'f) bridge \<Rightarrow> 's decode_env \<Rightarrow> nat \<Rightarrow> ('s, 'f) group_st \<Rightarrow> ('s, 'f) group_st" where
  "advance b env i st =
     (case part_step b env (bridge_partitions b) (grpErr st \<noteq> None) i (grpBroker st, grpParts st ! i) of
        (s', p') \<Rightarrow> st\<lparr>grpBroker := s', grpParts := (grpParts st)[i := p'], grpErr := record_err p' (grpErr st)\<rparr>)"

lemma advance_parts [simp]: "length (grpParts (advance b env i st)) = length (grpParts st)"
  by (simp add: advance_def split: prod.splits)

lemma reach_advance:
  "bridge_reach b env others st \<Longrightarrow> i < length (grpParts st) \<Longrightarrow> bridge_reach b env others ((advance b env i ^^ k) st)"
proof (induction k arbitrary: st)
  case (Suc k)
  have "bridge_step b env others st (advance b env i st)"
    using Suc.prems(2) by (auto simp: advance_def split: prod.splits intro: bridge_step.goroutine)
  from bridge_reach.step [OF Suc.prems(1) this] have "bridge_reach b env others (advance b env i st)" .
  with Suc.IH [OF this] Suc.prems(2) show ?case by (simp add: funpow_swap1)
qed simp

end
