(* ===== verification/Decode_Props.thy ===== *)
theory Decode_Props
  imports Bridge_Run Lake_Instances Instances
begin

text \<open>
  The properties of the decode bridge: what it has published when it acknowledges a message,
  which signals it prunes, and which locations it makes. The instance is a bridge that decodes
  every status message to a speed and a pair of coordinates.
\<close>

section \<open>An instance\<close>

lemma str_le_total: "str_le s t \<or> str_le t s"
  by (induction s t rule: str_le.induct) (auto simp: not_less_iff_gr_or_eq)

lemma signal_le_total: "signal_le a b \<or> signal_le b a"
  using str_le_total by (auto simp: signal_le_def)

lemma signal_le_trans: "signal_le a b \<Longrightarrow> signal_le b c \<Longrightarrow> signal_le a c"
  by (auto simp: signal_le_def dest: str_le_trans)

fun insert_signal :: "signal \<Rightarrow> signal list \<Rightarrow> signal list" where
  "insert_signal x [] = [x]"
| "insert_signal x (y # ys) = (if signal_le x y then x # y # ys else y # insert_signal x ys)"

definition sort0 :: "signal list \<Rightarrow> signal list" where
  "sort0 xs = foldr insert_signal xs []"

lemma mset_insert_signal [simp]: "mset (insert_signal x xs) = add_mset x (mset xs)"
  by (induction xs) auto

lemma set_insert_signal [simp]: "set (insert_signal x xs) = insert x (set xs)"
  by (induction xs) auto

lemma sorted_insert_signal: "sorted_wrt signal_le xs \<Longrightarrow> sorted_wrt signal_le (insert_signal x xs)"
  by (induction xs) (use signal_le_total signal_le_trans in \<open>auto\<close>)

lemma sorts_sort0: "sorts sort0"
proof -
  have "mset (sort0 xs) = mset xs \<and> sorted_wrt signal_le (sort0 xs)" for xs
    by (induction xs) (simp_all add: sort0_def sorted_insert_signal)
  then show ?thesis by (simp add: sorts_def)
qed

definition sig0 :: "string \<Rightarrow> go_time \<Rightarrow> float64 \<Rightarrow> signal" where
  "sig0 n t v = zero_signal\<lparr>sgName := n, sgTimestamp := t, sgValueNumber := v\<rparr>"

definition signals0 :: "signal list" where
  "signals0 = [sig0 ''speed'' 7 (Fin 60), sig0 fieldCurrentLocationLongitude 6 (Fin 20),
     sig0 ''speed'' 7 (Fin 61), sig0 fieldCurrentLocationLatitude 5 (Fin 10), sig0 ''speed'' 900 (Fin 62)]"

definition vss0 :: vss_lib where
  "vss0 = \<lparr>ConvertToSignals = (\<lambda>src ev. (signals0, None)), ConvertToEvents = (\<lambda>src ev. ([], None)),
     MarshalSignals = (\<lambda>h ss. Inr (concat (map sgName ss))), MarshalEvents = (\<lambda>h es. Inr []),
     FieldCurrentLocationCoordinates = ''currentLocationCoordinates''\<rparr>"

definition bridge0 :: "(string list, nats_msg) bridge" where
  "bridge0 = \<lparr>brCfg = \<lparr>bcChainID = 137, VehicleNFTAddress = ''c'', bcReplicas = 1, StreamPartitions = 4,
       SignalsMaxBytes = 0, EventsMaxBytes = 0\<rparr>,
     brJS = js0, brLib = lib0, brFloat = float0, brVss = vss0, brSha = sha0, brSort = sort0,
     brRange = (\<lambda>xs. xs), brFuture = (\<lambda>t. 100 < t)\<rparr>"

lemma bridge0_simps [simp]:
  "brJS bridge0 = js0" "brLib bridge0 = lib0" "brVss bridge0 = vss0" "brSort bridge0 = sort0"
  "brFuture bridge0 = (\<lambda>t. 100 < t)" "ranges bridge0"
  by (simp_all add: bridge0_def ranges_def)

lemma decode_signals0:
  "decode_signals bridge0 raw0 =
     [sig0 ''speed'' 7 (Fin 61), sig0 ''currentLocationCoordinates'' 5 (Fin 0)
        \<lparr>sgValueLocation := \<lparr>Latitude = Fin 10, Longitude = Fin 20, HDOP = Fin 0\<rparr>\<rparr>]"
  by code_simp


section \<open>Publishing\<close>

text \<open>An acknowledged message is republished: the bridge settles every message of a fetched batch
  exactly once and in order; a message it acknowledges has, for every signal or event name it
  decodes to, a message with that name's deduplication id stored in the broker, a message
  without anything to publish is acknowledged, and any other is returned for redelivery with
  the configured delay.\<close>

lemma decoded_ack_durable:
  assumes "js_durable (brJS b) wal fmsg" "\<And>xs. set (brRange b xs) = set xs"
    and "handleBatch b batch s = (s', acts)"
  shows "list_all2 (\<lambda>msg a. (a = DNak nakRedeliveryDelay msg \<or> a = DAck msg \<and> decoded_ids b msg \<subseteq> wal s') \<and>
    (decoded_ids b msg = {} \<longrightarrow> a = DAck msg)) batch acts"
  using handleBatch_effect [OF assms(1) _ assms(3)] assms(2) by (simp add: ranges_def)

lemma decoded_ids_bridge0: "decoded_ids bridge0 msg0 =
    dedupID sha0 (HeaderKey lib0 hdr0) ` {''speed'', ''currentLocationCoordinates''}"
proof -
  have v: "isVehicleSignalMessage bridge0 raw0" by code_simp
  have "Header raw0 = hdr0" "RawEvent ev0 = raw0" "hType hdr0 = TypeStatus lib0" "brSha bridge0 = sha0"
    by (simp_all add: raw0_def ev0_def hdr0_def lib0_def bridge0_def)
  with v show ?thesis by (simp add: decoded_ids_def ParseMsg_msg0 Let_def decode_signals0 sig0_def)
qed

lemma decoded_ack_durable_witness:
  "\<exists>s' acts. handleBatch bridge0 [msg0] [] = (s', acts) \<and> decoded_ids bridge0 msg0 \<noteq> {} \<and>
     (acts = [DNak nakRedeliveryDelay msg0] \<or> acts = [DAck msg0] \<and> decoded_ids bridge0 msg0 \<subseteq> set s')"
proof -
  obtain s' acts where h: "handleBatch bridge0 [msg0] [] = (s', acts)" by (cases "handleBatch bridge0 [msg0] []")
  have "js_durable (brJS bridge0) set (\<lambda>f. f)" "\<And>xs. set (brRange bridge0 xs) = set xs"
    by (simp_all add: js_durable_js0) (simp add: bridge0_def)
  from decoded_ack_durable [OF this h] h decoded_ids_bridge0 show ?thesis
    by (auto simp: list_all2_Cons1)
qed


definition denv0 :: "string list decode_env" where
  "denv0 = \<lparr>deStream = (\<lambda>n s. (s, None)), deConsumer = (\<lambda>n cc s. (s, None)), deCtxDone = (\<lambda>s. False),
     deFetch = (\<lambda>k t s. (s, Inr [msg0])), deBackoff = (\<lambda>t s. (s, True))\<rparr>"

lemma six_steps0:
  "map act_msg (partActs (grpParts ((advance bridge0 denv0 0 ^^ 6) (Run_bridge bridge0 [])) ! 0)) = [msg0]"
proof -
  have b: "bridge_partitions bridge0 = 4" by (simp add: bridge_partitions_def bridge0_def)
  obtain s1 oc where d: "decodeAndSubmit bridge0 msg0 [] = (s1, oc)" by (cases "decodeAndSubmit bridge0 msg0 []")
  obtain s2 a where f: "finish bridge0 oc s1 = (s2, a)" by (cases "finish bridge0 oc s1")
  have j: "js_durable (brJS bridge0) set (\<lambda>f. f)" by (simp add: js_durable_js0)
  have "act_msg a = msg0"
    using decodeAndSubmit_effect [OF j bridge0_simps(6) d] finish_effect [OF j f] by auto
  with d f show ?thesis
    by (simp add: eval_nat_numeral advance_def part_step_def fetch_part_def denv0_def Run_bridge_def b part_init_def record_err_def)
qed


section \<open>Pruning\<close>

lemma prune_loop_errs: "snd (prune_loop future msg xs e) = None \<longleftrightarrow> e = None \<and> (\<forall>s\<in>set xs. \<not> future (sgTimestamp s))"
  by (induction xs arbitrary: e) (simp_all add: case_prod_beta)

text \<open>C22. Pruning is exact: of the decoded signals it returns, in order of time and name, at most one for
  each name and timestamp, none with a future timestamp and none that was not there before;
  every name and timestamp that is not in the future survives; and it reports an error
  exactly if a signal was in the future.\<close>

theorem prune_exact:
  assumes "sorts srt" "pruneFutureAndDuplicateSignals L srt future xs = (out, errs)"
    and "\<And>s. s \<in> set xs \<Longrightarrow> sgName s \<noteq> pruneSignalName"
  shows "sorted_wrt signal_le out \<and> distinct (map (\<lambda>s. (sgName s, sgTimestamp s)) out)
    \<and> set out \<subseteq> {s \<in> set xs. \<not> future (sgTimestamp s)}
    \<and> (\<lambda>s. (sgName s, sgTimestamp s)) ` set out = (\<lambda>s. (sgName s, sgTimestamp s)) ` {s \<in> set xs. \<not> future (sgTimestamp s)}
    \<and> (errs = None \<longleftrightarrow> (\<forall>s\<in>set xs. \<not> future (sgTimestamp s)))"
proof -
  have out: "out = kept future (srt xs)" using assms(2) prune_kept [of L srt future xs] by simp
  have st: "set (srt xs) = set xs" by (rule sorts_set [OF assms(1)])
  have strict: "sorted_wrt (\<lambda>a b. signal_le a b \<and> \<not> signalEqual a b) out"
    using assms(1) unfolding out sorts_def by (intro kept_strict) simp
  have sub: "set out \<subseteq> {s \<in> set xs. \<not> future (sgTimestamp s)}"
    using kept_subset st unfolding out by blast
  moreover have "(sgName s, sgTimestamp s) \<in> (\<lambda>s. (sgName s, sgTimestamp s)) ` set out"
    if "s \<in> set xs" "\<not> future (sgTimestamp s)" for s
  proof -
    have "s \<in> set (srt xs)" using that(1) st by simp
    from kept_complete [where future = future, OF this that(2) assms(3) [OF that(1)]]
    obtain t where "t \<in> set out" "signalEqual s t" unfolding out by blast
    then show ?thesis by (intro image_eqI [of _ _ t]) (auto simp: signalEqual_def)
  qed
  moreover have "errs = None \<longleftrightarrow> (\<forall>s\<in>set xs. \<not> future (sgTimestamp s))"
    using assms(2) prune_loop_errs [of future "future_error L" "srt xs" None] st
    by (simp add: pruneFutureAndDuplicateSignals_def case_prod_beta)
  moreover have "sorted_wrt signal_le out" by (rule sorted_wrt_mono_rel [OF _ strict]) simp
  ultimately show ?thesis using strict_distinct [OF strict] by (intro conjI equalityI image_mono image_subsetI) auto
qed

theorem prune_exact_witness:
  "\<exists>out errs. pruneFutureAndDuplicateSignals lib0 sort0 (\<lambda>t. 100 < t) signals0 = (out, errs) \<and> errs \<noteq> None \<and>
     distinct (map (\<lambda>s. (sgName s, sgTimestamp s)) out)"
proof -
  obtain out errs where p: "pruneFutureAndDuplicateSignals lib0 sort0 (\<lambda>t. 100 < t) signals0 = (out, errs)"
    by (cases "pruneFutureAndDuplicateSignals lib0 sort0 (\<lambda>t. 100 < t) signals0")
  have "\<And>s. s \<in> set signals0 \<Longrightarrow> sgName s \<noteq> pruneSignalName"
    by (auto simp: signals0_def sig0_def pruneSignalName_def fieldCurrentLocationLongitude_def fieldCurrentLocationLatitude_def)
  from prune_exact [OF sorts_sort0 p this] p show ?thesis by (simp add: signals0_def sig0_def)
qed


section \<open>Locations\<close>



end
