(* ===== verification/Backfill.thy ===== *)
theory Backfill
  imports Lake_Catalog
begin

text \<open>
  \<^verbatim>\<open>internal/lake/backfill.go\<close>: registering Parquet files written elsewhere with the lake, in bounded
  transactions, without registering a file twice. The listing of the files the catalog tracks
  is a parameter: an error of the query, or the rows and an error met while reading them.
\<close>

section \<open>Statements\<close>

definition backfillBatch :: nat where "backfillBatch = 1000"

definition backfillFilesPerSnapshot :: nat where "backfillFilesPerSnapshot = 2000"

record backfill_result =
  Registered :: nat
  Skipped :: nat

definition addDataFilesListSQL :: "string list \<Rightarrow> string" where
  "addDataFilesListSQL files =
     ''CALL ducklake_add_data_files('' @ sqlString ''lake'' @ '', '' @ sqlString RawTable @ '', ['' @
     intercalate '', '' (map sqlString files) @ ''], allow_missing => true)''"

definition add_file_sql :: "string \<Rightarrow> string" where
  "add_file_sql f =
     ''CALL ducklake_add_data_files('' @ sqlString ''lake'' @ '', '' @ sqlString RawTable @ '', '' @
     sqlString f @ '', allow_missing => true)''"

definition reset_partitioned :: string where
  "reset_partitioned = ''ALTER TABLE lake.raw_events RESET PARTITIONED BY''"

section \<open>Registration\<close>

text \<open>One transaction on the connection: \<open>work\<close> sends the calls and reports what failed. The
  heartbeat's error is only logged.\<close>

definition register_batch ::
  "'d cat_ops \<Rightarrow> nat \<Rightarrow> ('d \<Rightarrow> 'd \<times> (string \<times> go_error) option) \<Rightarrow> 'd \<Rightarrow> 'd \<times> go_error option" where
  "register_batch l conn work d =
     (case catConnExec l RequestCtx ''BEGIN'' [] conn (fst (heartbeatBackfillPause l d)) of
        (d1, Some e) \<Rightarrow> (d1, Some (errorf ''lake backfill begin: '' e ''''))
      | (d1, None) \<Rightarrow>
          (case work d1 of
             (d2, Some (what, e)) \<Rightarrow>
               (case catConnExec l WithoutCancel ''ROLLBACK'' [] conn d2 of
                  (d3, Some rbErr) \<Rightarrow>
                    (d3, Some (errorf2 (''registering '' @ what @ '': '') e '' (rollback also failed: '' rbErr '')''))
                | (d3, None) \<Rightarrow> (d3, Some (errorf (''registering '' @ what @ '': '') e '''')))
           | (d2, None) \<Rightarrow>
               (case catConnExec l RequestCtx ''COMMIT'' [] conn d2 of
                  (d3, Some e) \<Rightarrow>
                    (fst (catConnExec l WithoutCancel ''ROLLBACK'' [] conn d3), Some (errorf ''lake backfill commit: '' e ''''))
                | (d3, None) \<Rightarrow> (d3, None))))"

definition call_list :: "'d cat_ops \<Rightarrow> nat \<Rightarrow> string list \<Rightarrow> 'd \<Rightarrow> 'd \<times> (string \<times> go_error) option" where
  "call_list l conn batch d =
     (case catConnExec l RequestCtx (addDataFilesListSQL batch) [] conn d of
        (d1, e) \<Rightarrow> (d1, map_option (Pair (''batch of '' @ show_nat (length batch) @ '' files'')) e))"

fun call_each :: "'d cat_ops \<Rightarrow> nat \<Rightarrow> string list \<Rightarrow> 'd \<Rightarrow> 'd \<times> (string \<times> go_error) option" where
  "call_each l conn [] d = (d, None)"
| "call_each l conn (f # fs) d =
     (case catConnExec l RequestCtx (add_file_sql f) [] conn d of
        (d1, Some e) \<Rightarrow> (d1, Some (f, e))
      | (d1, None) \<Rightarrow> call_each l conn fs d1)"

text \<open>The loops of the two registrations over batches of their sizes, with the number of files
  committed so far.\<close>

function register_listed_loop ::
  "'d cat_ops \<Rightarrow> nat \<Rightarrow> string list \<Rightarrow> nat \<Rightarrow> 'd \<Rightarrow> 'd \<times> nat \<times> go_error option" where
  "register_listed_loop l conn files registered d =
     (if files = [] then (d, registered, None)
      else let batch = take backfillFilesPerSnapshot files
           in case register_batch l conn (call_list l conn batch) d of
                (d1, Some e) \<Rightarrow> (d1, registered, Some e)
              | (d1, None) \<Rightarrow>
                  register_listed_loop l conn (drop backfillFilesPerSnapshot files) (registered + length batch) d1)"
  by pat_completeness auto
termination
  by (relation "measure (\<lambda>(l, conn, files, registered, d). length files)")
     (simp_all add: backfillFilesPerSnapshot_def)

function register_files_loop ::
  "'d cat_ops \<Rightarrow> nat \<Rightarrow> string list \<Rightarrow> nat \<Rightarrow> 'd \<Rightarrow> 'd \<times> nat \<times> go_error option" where
  "register_files_loop l conn files registered d =
     (if files = [] then (d, registered, None)
      else let batch = take backfillBatch files
           in case register_batch l conn (call_each l conn batch) d of
                (d1, Some e) \<Rightarrow> (d1, registered, Some e)
              | (d1, None) \<Rightarrow>
                  register_files_loop l conn (drop backfillBatch files) (registered + length batch) d1)"
  by pat_completeness auto
termination
  by (relation "measure (\<lambda>(l, conn, files, registered, d). length files)")
     (simp_all add: backfillBatch_def)

declare register_listed_loop.simps [simp del] register_files_loop.simps [simp del]

definition registerListed :: "'d cat_ops \<Rightarrow> nat \<Rightarrow> string list \<Rightarrow> 'd \<Rightarrow> 'd \<times> nat \<times> go_error option" where
  "registerListed l conn files d = register_listed_loop l conn files 0 d"

definition registerFiles :: "'d cat_ops \<Rightarrow> nat \<Rightarrow> string list \<Rightarrow> 'd \<Rightarrow> 'd \<times> nat \<times> go_error option" where
  "registerFiles l conn files d = register_files_loop l conn files 0 d"

section \<open>Grouping\<close>

definition prefix_of :: "string \<Rightarrow> string" where
  "prefix_of f = rev (dropWhile (\<lambda>c. c \<noteq> CHR ''/'') (rev f))"

fun group_loop ::
  "string list \<Rightarrow> (string \<rightharpoonup> string list) \<Rightarrow> string list \<Rightarrow> (string \<rightharpoonup> string list) \<times> string list" where
  "group_loop [] groups order = (groups, order)"
| "group_loop (f # fs) groups order =
     (if \<not> has_suffix f ''.parquet'' then group_loop fs groups order
      else let prefix = prefix_of f
           in group_loop fs
                (groups(prefix \<mapsto> (case groups prefix of None \<Rightarrow> [] | Some g \<Rightarrow> g) @ [f]))
                (if groups prefix = None then order @ [prefix] else order))"

definition groupParquetByPrefix :: "string list \<Rightarrow> (string \<rightharpoonup> string list) \<times> string list" where
  "groupParquetByPrefix files = group_loop files Map.empty []"

section \<open>The backfill\<close>

type_synonym 'd file_lister = "'d \<Rightarrow> 'd \<times> (string list \<times> go_error option) result"

definition registeredFiles :: "'d file_lister \<Rightarrow> 'd \<Rightarrow> 'd \<times> string set result" where
  "registeredFiles list_files d =
     (case list_files d of
        (d1, Inl e) \<Rightarrow> (d1, Inl (errorf ''lake backfill: listing registered files: '' e ''''))
      | (d1, Inr (rows, Some e)) \<Rightarrow> (d1, Inl e)
      | (d1, Inr (rows, None)) \<Rightarrow> (d1, Inr (set rows)))"

fun prefix_loop ::
  "'d cat_ops \<Rightarrow> nat \<Rightarrow> string set \<Rightarrow> (string \<rightharpoonup> string list) \<Rightarrow> string list \<Rightarrow> backfill_result \<Rightarrow> 'd
     \<Rightarrow> 'd \<times> backfill_result \<times> go_error option" where
  "prefix_loop l conn existing groups [] res d = (d, res, None)"
| "prefix_loop l conn existing groups (prefix # order) res d =
     (let grp = (case groups prefix of None \<Rightarrow> [] | Some g \<Rightarrow> g);
          newFiles = filter (\<lambda>f. f \<notin> existing) grp;
          already = length grp - length newFiles
      in if newFiles = [] then prefix_loop l conn existing groups order (res\<lparr>Skipped := Skipped res + already\<rparr>) d
         else if already = 0
         then (case registerListed l conn grp d of
                 (d1, n, Some e) \<Rightarrow> (d1, res\<lparr>Registered := Registered res + n\<rparr>, Some e)
               | (d1, n, None) \<Rightarrow> prefix_loop l conn existing groups order (res\<lparr>Registered := Registered res + n\<rparr>) d1)
         else (case registerFiles l conn newFiles d of
                 (d1, n, Some e) \<Rightarrow> (d1, res\<lparr>Registered := Registered res + n\<rparr>, Some e)
               | (d1, n, None) \<Rightarrow>
                   prefix_loop l conn existing groups order
                     (res\<lparr>Registered := Registered res + n, Skipped := Skipped res + already\<rparr>) d1))"

text \<open>The deferred calls run last to first: the partitioning is restored, the pause cleared, the
  connection closed; their errors are logged or dropped.\<close>

definition Backfill_lake ::
  "'d cat_ops \<Rightarrow> 'd file_lister \<Rightarrow> string list \<Rightarrow> 'd \<Rightarrow> 'd \<times> backfill_result \<times> go_error option" where
  "Backfill_lake l list_files files d =
     (let res = \<lparr>Registered = 0, Skipped = 0\<rparr>;
          close = (\<lambda>conn d. catConnClose l conn d);
          clear = (\<lambda>conn d. close conn (fst (clearBackfillPause l d)));
          restore = (\<lambda>conn d. clear conn (fst (catConnExec l WithoutCancel layout_partitioned [] conn d)))
      in case registeredFiles list_files d of
           (d1, Inl e) \<Rightarrow> (d1, res, Some e)
         | (d1, Inr existing) \<Rightarrow>
             (case catConn l d1 of
                (d2, Inl e) \<Rightarrow> (d2, res, Some (errorf ''lake backfill: '' e ''''))
              | (d2, Inr conn) \<Rightarrow>
                  (case heartbeatBackfillPause l d2 of
                     (d3, Some e) \<Rightarrow> (close conn d3, res, Some (errorf ''lake backfill: signaling maintenance pause: '' e ''''))
                   | (d3, None) \<Rightarrow>
                       (case catConnExec l RequestCtx reset_partitioned [] conn d3 of
                          (d4, Some e) \<Rightarrow> (clear conn d4, res, Some (errorf ''lake backfill: dropping partitioning: '' e ''''))
                        | (d4, None) \<Rightarrow>
                            (case groupParquetByPrefix files of
                               (groups, order) \<Rightarrow>
                                 (case prefix_loop l conn existing groups order res d4 of
                                    (d5, res1, err) \<Rightarrow> (restore conn d5, res1, err)))))))"


section \<open>What registration promises\<close>

text \<open>The catalog as registration sees it: \<open>snaps\<close> is the list of the file lists its snapshots have
  registered, \<open>pend\<close> what the open transaction of a connection has registered so far. A failed
  commit registers nothing; the statements on the pause table and on the layout do not
  touch the registered files.\<close>

definition file_catalog :: "'d cat_ops \<Rightarrow> ('d \<Rightarrow> string list list) \<Rightarrow> ('d \<Rightarrow> nat \<Rightarrow> string list) \<Rightarrow> bool" where
  "file_catalog l snaps pend \<longleftrightarrow>
     (\<forall>d. snaps (fst (heartbeatBackfillPause l d)) = snaps d) \<and>
     (\<forall>d. snaps (fst (clearBackfillPause l d)) = snaps d) \<and>
     (\<forall>d. snaps (fst (catConn l d)) = snaps d) \<and>
     (\<forall>c d. snaps (catConnClose l c d) = snaps d) \<and>
     (\<forall>k q c d d' r. catConnExec l k q [] c d = (d', r) \<longrightarrow>
        (q \<in> {''ROLLBACK'', reset_partitioned, layout_partitioned} \<longrightarrow> snaps d' = snaps d) \<and>
        (q = ''BEGIN'' \<longrightarrow> snaps d' = snaps d \<and> (r = None \<longrightarrow> pend d' c = [])) \<and>
        (q = ''COMMIT'' \<longrightarrow> snaps d' = (if r = None then snaps d @ [pend d c] else snaps d)) \<and>
        (\<forall>fs. q = addDataFilesListSQL fs \<longrightarrow> snaps d' = snaps d \<and> (r = None \<longrightarrow> pend d' c = pend d c @ fs)) \<and>
        (\<forall>f. q = add_file_sql f \<longrightarrow> snaps d' = snaps d \<and> (r = None \<longrightarrow> pend d' c = pend d c @ [f])))"

lemma file_catalog_frame:
  assumes "file_catalog l snaps pend"
  shows "snaps (fst (heartbeatBackfillPause l d)) = snaps d" "snaps (fst (clearBackfillPause l d)) = snaps d"
    "snaps (fst (catConn l d)) = snaps d" "snaps (catConnClose l c d) = snaps d"
    "q \<in> {''ROLLBACK'', reset_partitioned, layout_partitioned} \<Longrightarrow> snaps (fst (catConnExec l k q [] c d)) = snaps d"
  using assms unfolding file_catalog_def by (simp_all, metis prod.collapse)

lemma file_catalog_exec:
  assumes "file_catalog l snaps pend" "catConnExec l k q [] c d = (d', r)"
  shows "q = ''BEGIN'' \<Longrightarrow> snaps d' = snaps d \<and> (r = None \<longrightarrow> pend d' c = [])"
    "q = ''COMMIT'' \<Longrightarrow> snaps d' = (if r = None then snaps d @ [pend d c] else snaps d)"
    "q = addDataFilesListSQL fs \<Longrightarrow> snaps d' = snaps d \<and> (r = None \<longrightarrow> pend d' c = pend d c @ fs)"
    "q = add_file_sql f \<Longrightarrow> snaps d' = snaps d \<and> (r = None \<longrightarrow> pend d' c = pend d c @ [f])"
  using assms unfolding file_catalog_def by blast+

text \<open>What a sequence of calls within a transaction does.\<close>

definition registers :: "('d \<Rightarrow> string list list) \<Rightarrow> ('d \<Rightarrow> nat \<Rightarrow> string list) \<Rightarrow> nat \<Rightarrow> string list
     \<Rightarrow> ('d \<Rightarrow> 'd \<times> (string \<times> go_error) option) \<Rightarrow> bool" where
  "registers snaps pend c fs work \<longleftrightarrow>
     (\<forall>d d' r. work d = (d', r) \<longrightarrow> snaps d' = snaps d \<and> (r = None \<longrightarrow> pend d' c = pend d c @ fs))"

lemma call_list_registers: "file_catalog l snaps pend \<Longrightarrow> registers snaps pend c fs (call_list l c fs)"
  unfolding registers_def call_list_def
  by (auto dest: file_catalog_exec(3) [where fs = fs] split: prod.splits)

lemma call_each_effect:
  assumes "file_catalog l snaps pend"
  shows "call_each l c fs d = (d', r) \<Longrightarrow> snaps d' = snaps d \<and> (r = None \<longrightarrow> pend d' c = pend d c @ fs)"
proof (induction fs arbitrary: d)
  case (Cons f fs)
  obtain d1 r1 where e: "catConnExec l RequestCtx (add_file_sql f) [] c d = (d1, r1)"
    by (cases "catConnExec l RequestCtx (add_file_sql f) [] c d")
  note step = file_catalog_exec(4) [OF assms e refl]
  show ?case
  proof (cases r1)
    case None
    with Cons.prems e have "call_each l c fs d1 = (d', r)" by simp
    from Cons.IH [OF this] step None show ?thesis by auto
  qed (use Cons.prems e step in auto)
qed simp

lemma call_each_registers: "file_catalog l snaps pend \<Longrightarrow> registers snaps pend c fs (call_each l c fs)"
  unfolding registers_def by (intro allI impI) (rule call_each_effect)

lemma register_batch_effect:
  assumes F: "file_catalog l snaps pend" and W: "registers snaps pend c fs work"
    and b: "register_batch l c work d = (d', r)"
  shows "snaps d' = (if r = None then snaps d @ [fs] else snaps d)"
proof -
  note frame = file_catalog_frame [OF F]
  let ?h = "fst (heartbeatBackfillPause l d)"
  obtain d1 r1 where e1: "catConnExec l RequestCtx ''BEGIN'' [] c ?h = (d1, r1)"
    by (cases "catConnExec l RequestCtx ''BEGIN'' [] c ?h")
  note s1 = file_catalog_exec(1) [OF F e1 refl, unfolded frame(1)]
  obtain d2 r2 where e2: "work d1 = (d2, r2)" by (cases "work d1")
  with W have s2: "snaps d2 = snaps d1 \<and> (r2 = None \<longrightarrow> pend d2 c = pend d1 c @ fs)" by (simp add: registers_def)
  obtain d3 r3 where e3: "catConnExec l RequestCtx ''COMMIT'' [] c d2 = (d3, r3)"
    by (cases "catConnExec l RequestCtx ''COMMIT'' [] c d2")
  note s3 = file_catalog_exec(2) [OF F e3 refl]
  obtain d4 r4 where e4: "catConnExec l WithoutCancel ''ROLLBACK'' [] c d2 = (d4, r4)"
    by (cases "catConnExec l WithoutCancel ''ROLLBACK'' [] c d2")
  with frame(5) [of "''ROLLBACK''" WithoutCancel c d2] have s4: "snaps d4 = snaps d2" by simp
  have s5: "snaps (fst (catConnExec l WithoutCancel ''ROLLBACK'' [] c d3)) = snaps d3" by (rule frame(5)) simp
  show ?thesis
  proof (cases r1)
    case None
    note n1 = None
    show ?thesis
    proof (cases r2)
      case None
      then show ?thesis using b e1 e2 e3 s1 s2 s3 s5 n1 by (cases r3) (auto simp: register_batch_def)
    next
      case (Some x)
      then show ?thesis using b e1 e2 e4 s1 s2 s4 n1 by (cases r4) (auto simp: register_batch_def split: prod.splits)
    qed
  qed (use b e1 s1 in \<open>auto simp: register_batch_def\<close>)
qed

text \<open>The contract the backfill relies on: a registration commits a prefix of the files it is given,
  in order and in batches no longer than the snapshot limit, all of them when it succeeds,
  and counts what it has committed.\<close>

definition committed_prefix ::
  "('d \<Rightarrow> string list list) \<Rightarrow> string list \<Rightarrow> 'd \<Rightarrow> 'd \<Rightarrow> nat \<Rightarrow> go_error option \<Rightarrow> bool" where
  "committed_prefix snaps files d d' n err \<longleftrightarrow>
     (\<exists>bs. snaps d' = snaps d @ bs \<and> (\<forall>b\<in>set bs. b \<noteq> [] \<and> length b \<le> backfillFilesPerSnapshot) \<and>
        n = length (concat bs) \<and> (\<exists>rest. files = concat bs @ rest \<and> (err = None \<longrightarrow> rest = [])))"

locale file_registrar =
  fixes register :: "'d cat_ops \<Rightarrow> nat \<Rightarrow> string list \<Rightarrow> 'd \<Rightarrow> 'd \<times> nat \<times> go_error option"
  assumes register_contract:
    "file_catalog l snaps pend \<Longrightarrow> register l c files d = (d', n, err) \<Longrightarrow> committed_prefix snaps files d d' n err"
begin

text \<open>Files that were not registered before are registered at most once.\<close>

lemma register_fresh:
  assumes "file_catalog l snaps pend" "register l c files d = (d', n, err)"
    and "distinct (concat (snaps d) @ files)"
  shows "distinct (concat (snaps d'))" "set (concat (snaps d')) \<subseteq> set (concat (snaps d)) \<union> set files"
proof -
  from register_contract [OF assms(1,2)] obtain bs rest where "snaps d' = snaps d @ bs" "files = concat bs @ rest"
    unfolding committed_prefix_def by blast
  with assms(3) show "distinct (concat (snaps d'))" "set (concat (snaps d')) \<subseteq> set (concat (snaps d)) \<union> set files"
    by (simp_all only: concat_append distinct_append set_append) blast+
qed

lemma register_progress:
  assumes "file_catalog l snaps pend" "register l c files d = (d', n, None)"
  shows "set files \<subseteq> set (concat (snaps d'))" "n = length files"
  using register_contract [OF assms] unfolding committed_prefix_def by auto

end


lemma committed_prefix_empty: "snaps d' = snaps d \<Longrightarrow> err \<noteq> None \<or> files = [] \<Longrightarrow> committed_prefix snaps files d d' 0 err"
  unfolding committed_prefix_def by (intro exI [of _ "[]"]) auto

lemma committed_prefix_batch:
  assumes "snaps d1 = snaps d @ [take k files]" "files \<noteq> []" "0 < k" "k \<le> backfillFilesPerSnapshot"
    and "committed_prefix snaps (drop k files) d1 d' n err"
  shows "committed_prefix snaps files d d' (length (take k files) + n) err"
proof -
  from assms(5) obtain bs rest where b: "snaps d' = snaps d1 @ bs" "\<forall>b\<in>set bs. b \<noteq> [] \<and> length b \<le> backfillFilesPerSnapshot"
    "n = length (concat bs)" "drop k files = concat bs @ rest" "err = None \<longrightarrow> rest = []"
    unfolding committed_prefix_def by blast
  have "files = take k files @ concat bs @ rest" using b(4) by (metis append_take_drop_id)
  then show ?thesis
    unfolding committed_prefix_def using assms(1-4) b by (intro exI [of _ "take k files # bs"]) auto
qed

lemma register_listed_loop_contract:
  assumes F: "file_catalog l snaps pend"
  shows "register_listed_loop l c files k d = (d', n, err) \<Longrightarrow> \<exists>m. n = k + m \<and> committed_prefix snaps files d d' m err"
proof (induction "length files" arbitrary: files k d rule: less_induct)
  case less
  let ?b = "take backfillFilesPerSnapshot files"
  obtain d1 r where b: "register_batch l c (call_list l c ?b) d = (d1, r)" by (cases "register_batch l c (call_list l c ?b) d")
  note eff = register_batch_effect [OF F call_list_registers [OF F] b]
  have pos: "0 < backfillFilesPerSnapshot" by (simp add: backfillFilesPerSnapshot_def)
  show ?case
  proof (cases "files = [] \<or> r \<noteq> None")
    case True
    with less.prems b eff show ?thesis
      by (intro exI [of _ 0]) (auto simp: register_listed_loop.simps [of l c files] intro!: committed_prefix_empty split: if_splits)
  next
    case False
    with less.prems b have "register_listed_loop l c (drop backfillFilesPerSnapshot files) (k + length ?b) d1 = (d', n, err)"
      by (simp add: register_listed_loop.simps [of l c files])
    from less.hyps [OF _ this] False pos obtain m
      where m: "n = k + length ?b + m" "committed_prefix snaps (drop backfillFilesPerSnapshot files) d1 d' m err" by auto
    have "snaps d1 = snaps d @ [?b]" "files \<noteq> []" using eff False by simp_all
    from committed_prefix_batch [where snaps = snaps, OF this pos order_refl m(2)] m(1) show ?thesis by (metis add.assoc)
  qed
qed

lemma register_files_loop_contract:
  assumes F: "file_catalog l snaps pend"
  shows "register_files_loop l c files k d = (d', n, err) \<Longrightarrow> \<exists>m. n = k + m \<and> committed_prefix snaps files d d' m err"
proof (induction "length files" arbitrary: files k d rule: less_induct)
  case less
  let ?b = "take backfillBatch files"
  obtain d1 r where b: "register_batch l c (call_each l c ?b) d = (d1, r)" by (cases "register_batch l c (call_each l c ?b) d")
  note eff = register_batch_effect [OF F call_each_registers [OF F] b]
  have pos: "0 < backfillBatch" "backfillBatch \<le> backfillFilesPerSnapshot"
    by (simp_all add: backfillBatch_def backfillFilesPerSnapshot_def)
  show ?case
  proof (cases "files = [] \<or> r \<noteq> None")
    case True
    with less.prems b eff show ?thesis
      by (intro exI [of _ 0]) (auto simp: register_files_loop.simps [of l c files] intro!: committed_prefix_empty split: if_splits)
  next
    case False
    with less.prems b have "register_files_loop l c (drop backfillBatch files) (k + length ?b) d1 = (d', n, err)"
      by (simp add: register_files_loop.simps [of l c files])
    from less.hyps [OF _ this] False pos obtain m
      where m: "n = k + length ?b + m" "committed_prefix snaps (drop backfillBatch files) d1 d' m err" by auto
    have "snaps d1 = snaps d @ [?b]" "files \<noteq> []" using eff False by simp_all
    from committed_prefix_batch [where snaps = snaps, OF this pos m(2)] m(1) show ?thesis by (metis add.assoc)
  qed
qed

interpretation listed: file_registrar registerListed
  by unfold_locales (auto simp: registerListed_def dest: register_listed_loop_contract)

interpretation single: file_registrar registerFiles
  by unfold_locales (auto simp: registerFiles_def dest: register_files_loop_contract)

section \<open>What the backfill registers\<close>

definition group_of :: "(string \<rightharpoonup> string list) \<Rightarrow> string \<Rightarrow> string list" where
  "group_of groups p = (case groups p of None \<Rightarrow> [] | Some g \<Rightarrow> g)"

abbreviation parquet :: "string list \<Rightarrow> string list" where
  "parquet files \<equiv> filter (\<lambda>f. has_suffix f ''.parquet'') files"

lemma group_loop_spec:
  assumes "\<And>p. groups p = (if p \<in> prefix_of ` set ps then Some (filter (\<lambda>f. prefix_of f = p) ps) else None)"
    and "distinct order" "set order = prefix_of ` set ps" "group_loop files groups order = (groups', order')"
  shows "(\<forall>p. group_of groups' p = filter (\<lambda>f. prefix_of f = p) (ps @ parquet files)) \<and>
    distinct order' \<and> set order' = prefix_of ` set (ps @ parquet files)"
  using assms
proof (induction files arbitrary: groups order ps)
  case Nil
  have "p \<notin> prefix_of ` set ps \<Longrightarrow> filter (\<lambda>f. prefix_of f = p) ps = []" for p by (auto simp: filter_empty_conv)
  with Nil show ?case by (auto simp: group_of_def)
next
  case (Cons f fs)
  show ?case
  proof (cases "has_suffix f ''.parquet''")
    case True
    let ?g = "groups(prefix_of f \<mapsto> group_of groups (prefix_of f) @ [f])"
    let ?o = "if groups (prefix_of f) = None then order @ [prefix_of f] else order"
    have nil: "p \<notin> prefix_of ` set ps \<Longrightarrow> filter (\<lambda>f. prefix_of f = p) ps = []" for p by (auto simp: filter_empty_conv)
    have g: "?g p = (if p \<in> prefix_of ` set (ps @ [f]) then Some (filter (\<lambda>f. prefix_of f = p) (ps @ [f])) else None)" for p
      using nil [of p] by (auto simp: group_of_def Cons.prems(1))
    have o: "distinct ?o" "set ?o = prefix_of ` set (ps @ [f])" using Cons.prems(1-3) by (auto split: if_splits)
    have "group_loop fs ?g ?o = (groups', order')" using Cons.prems(4) True by (simp add: Let_def group_of_def)
    from Cons.IH [OF g o this] True show ?thesis by simp
  next
    case False
    with Cons show ?thesis by simp
  qed
qed


text \<open>The files the loop registers, in the order of the prefixes.\<close>

definition new_files :: "string set \<Rightarrow> (string \<rightharpoonup> string list) \<Rightarrow> string list \<Rightarrow> string list" where
  "new_files existing groups order = concat (map (\<lambda>p. filter (\<lambda>f. f \<notin> existing) (group_of groups p)) order)"

lemma committed_prefix_then:
  assumes "committed_prefix snaps xs d d1 n None" "committed_prefix snaps ys d1 d' m err"
  shows "committed_prefix snaps (xs @ ys) d d' (n + m) err"
proof -
  from assms(1) obtain as where a: "snaps d1 = snaps d @ as" "\<forall>b\<in>set as. b \<noteq> [] \<and> length b \<le> backfillFilesPerSnapshot"
    "n = length (concat as)" "xs = concat as" unfolding committed_prefix_def by auto
  from assms(2) obtain bs rest where b: "snaps d' = snaps d1 @ bs" "\<forall>b\<in>set bs. b \<noteq> [] \<and> length b \<le> backfillFilesPerSnapshot"
    "m = length (concat bs)" "ys = concat bs @ rest" "err = None \<longrightarrow> rest = []" unfolding committed_prefix_def by blast
  show ?thesis unfolding committed_prefix_def by (intro exI [of _ "as @ bs"]) (use a b in auto)
qed

lemma committed_prefix_fail:
  "committed_prefix snaps xs d d' n (Some e) \<Longrightarrow> committed_prefix snaps (xs @ ys) d d' n (Some e)"
  unfolding committed_prefix_def by auto

definition loop_spec ::
  "('d \<Rightarrow> string list list) \<Rightarrow> string list \<Rightarrow> nat \<Rightarrow> backfill_result \<Rightarrow> 'd \<Rightarrow> 'd \<times> backfill_result \<times> go_error option \<Rightarrow> bool" where
  "loop_spec snaps new k res d out \<longleftrightarrow>
     (case out of (d', res', err) \<Rightarrow>
        (\<exists>n. committed_prefix snaps new d d' n err \<and> Registered res' = Registered res + n \<and>
           (err = None \<longrightarrow> Registered res' + Skipped res' = Registered res + Skipped res + k)))"

lemma loop_spec_fail:
  "committed_prefix snaps xs d d1 n (Some e) \<Longrightarrow>
     loop_spec snaps (xs @ ys) t res d (d1, res\<lparr>Registered := Registered res + n\<rparr>, Some e)"
  unfolding loop_spec_def by (auto dest: committed_prefix_fail)

lemma loop_spec_step:
  assumes "committed_prefix snaps xs d d1 n None" "loop_spec snaps ys t res1 d1 out"
    and "Registered res1 = Registered res + n" "Skipped res1 = Skipped res + k"
  shows "loop_spec snaps (xs @ ys) (n + k + t) res d out"
  using assms committed_prefix_then [OF assms(1)] by (fastforce simp: loop_spec_def split: prod.splits)

lemma prefix_loop_spec:
  assumes F: "file_catalog l snaps pend"
  shows "loop_spec snaps (new_files ex groups order) (length (concat (map (group_of groups) order))) res d
    (prefix_loop l c ex groups order res d)"
proof (induction order arbitrary: res d)
  case Nil
  show ?case by (auto simp: loop_spec_def new_files_def intro: committed_prefix_empty)
next
  case (Cons p order)
  let ?g = "group_of groups p" and ?n = "filter (\<lambda>f. f \<notin> ex) (group_of groups p)"
  let ?k = "length ?g - length ?n"
  have len: "length ?n + ?k = length ?g" by simp
  have new: "new_files ex groups (p # order) = ?n @ new_files ex groups order" by (simp add: new_files_def)
  have tot: "length (concat (map (group_of groups) (p # order))) = length ?n + ?k + length (concat (map (group_of groups) order))"
    using len by simp
  have all: "?g = ?n" if "?k = 0" using that len
    by (metis add_0_right filter_id_conv length_filter_less less_irrefl)
  have eq: "prefix_loop l c ex groups (p # order) res d =
      (if ?n = [] then prefix_loop l c ex groups order (res\<lparr>Skipped := Skipped res + ?k\<rparr>) d
       else if ?k = 0
       then (case registerListed l c ?g d of
               (d1, n, Some e) \<Rightarrow> (d1, res\<lparr>Registered := Registered res + n\<rparr>, Some e)
             | (d1, n, None) \<Rightarrow> prefix_loop l c ex groups order (res\<lparr>Registered := Registered res + n\<rparr>) d1)
       else (case registerFiles l c ?n d of
               (d1, n, Some e) \<Rightarrow> (d1, res\<lparr>Registered := Registered res + n\<rparr>, Some e)
             | (d1, n, None) \<Rightarrow>
                 prefix_loop l c ex groups order
                   (res\<lparr>Registered := Registered res + n, Skipped := Skipped res + ?k\<rparr>) d1))"
    by (simp add: group_of_def [symmetric] Let_def)

  consider (none) "?n = []" | (listed) "?n \<noteq> []" "?k = 0" | (single) "?n \<noteq> []" "?k \<noteq> 0" by blast
  then show ?case
  proof cases
    case none
    have "committed_prefix snaps ?n d d 0 None" using none by (simp add: committed_prefix_empty)
    from loop_spec_step [OF this Cons.IH, of "res\<lparr>Skipped := Skipped res + ?k\<rparr>" res ?k] none
    show ?thesis unfolding new tot eq by simp
  next
    case listed
    obtain d1 n err where r: "registerListed l c ?g d = (d1, n, err)" by (cases "registerListed l c ?g d")
    note con = listed.register_contract [OF F r]
    show ?thesis
    proof (cases err)
      case None
      from con None all [OF listed(2)] have c: "committed_prefix snaps ?n d d1 n None" "n = length ?n"
        using listed.register_progress(2) [OF F r [unfolded None]] by simp_all
      from loop_spec_step [OF c(1) Cons.IH, of "res\<lparr>Registered := Registered res + n\<rparr>" res 0] listed r None c(2)
      show ?thesis unfolding new tot eq by simp
    next
      case (Some e)
      with con all [OF listed(2)] have "committed_prefix snaps ?n d d1 n (Some e)" by simp
      from loop_spec_fail [OF this] listed r Some show ?thesis unfolding new eq by simp
    qed
  next
    case single
    obtain d1 n err where r: "registerFiles l c ?n d = (d1, n, err)" by (cases "registerFiles l c ?n d")
    note con = single.register_contract [OF F r]
    show ?thesis
    proof (cases err)
      case None
      from con None have c: "committed_prefix snaps ?n d d1 n None" by simp
      have n: "n = length ?n" by (rule single.register_progress(2) [OF F r [unfolded None]])
      from loop_spec_step [OF c Cons.IH, of "res\<lparr>Registered := Registered res + n, Skipped := Skipped res + ?k\<rparr>" res ?k]
        single r None n
      show ?thesis unfolding new tot eq by simp
    next
      case (Some e)
      from loop_spec_fail [OF con [unfolded Some]] single r Some show ?thesis unfolding new eq by simp
    qed
  qed
qed

end
