(* ===== verification/Backfill_Props.thy ===== *)
theory Backfill_Props
  imports Backfill Lake_Props
begin

text \<open>
  The property of the backfill, and a catalog that reads the registration calls back out of
  their text.
\<close>

section \<open>Grouping loses and repeats nothing\<close>

lemma mset_filter_disj:
  "(\<And>x. \<not> (P x \<and> Q x)) \<Longrightarrow> mset (filter P xs) + mset (filter Q xs) = mset (filter (\<lambda>x. P x \<or> Q x) xs)"
  by (induction xs) auto

lemma mset_groups:
  "distinct ps \<Longrightarrow> mset (concat (map (\<lambda>p. filter (\<lambda>x. f x = p) xs) ps)) = mset (filter (\<lambda>x. f x \<in> set ps) xs)"
proof (induction ps)
  case (Cons p ps)
  then have "mset (concat (map (\<lambda>p. filter (\<lambda>x. f x = p) xs) (p # ps))) =
      mset (filter (\<lambda>x. f x = p) xs) + mset (filter (\<lambda>x. f x \<in> set ps) xs)" by simp
  also have "\<dots> = mset (filter (\<lambda>x. f x = p \<or> f x \<in> set ps) xs)"
    by (rule mset_filter_disj) (use Cons.prems in auto)
  finally show ?case by simp
qed simp

lemma filter_concat_map: "concat (map (\<lambda>p. filter P (g p)) ps) = filter P (concat (map g ps))"
  by (induction ps) simp_all

lemma grouped:
  assumes "groupParquetByPrefix files = (groups, order)"
  shows "mset (concat (map (group_of groups) order)) = mset (parquet files)"
    and "mset (new_files ex groups order) = mset (filter (\<lambda>f. f \<notin> ex) (parquet files))"
proof -
  have g: "(\<forall>p. group_of groups p = filter (\<lambda>f. prefix_of f = p) (parquet files)) \<and>
      distinct order \<and> set order = prefix_of ` set (parquet files)"
    using group_loop_spec [of Map.empty "[]" "[]" files groups order] assms by (simp add: groupParquetByPrefix_def)
  then have "map (group_of groups) order = map (\<lambda>p. filter (\<lambda>f. prefix_of f = p) (parquet files)) order" by simp
  then have "mset (concat (map (group_of groups) order)) =
      mset (filter (\<lambda>f. prefix_of f \<in> set order) (parquet files))" using g by (simp only: mset_groups)
  also have "filter (\<lambda>f. prefix_of f \<in> set order) (parquet files) = parquet files"
    using g by (metis (no_types, lifting) filter_True image_eqI)
  finally show m: "mset (concat (map (group_of groups) order)) = mset (parquet files)" .
  have "new_files ex groups order = filter (\<lambda>f. f \<notin> ex) (concat (map (group_of groups) order))"
    by (simp add: new_files_def filter_concat_map)
  then have "mset (new_files ex groups order) = filter_mset (\<lambda>f. f \<notin> ex) (mset (concat (map (group_of groups) order)))"
    by simp
  with m show "mset (new_files ex groups order) = mset (filter (\<lambda>f. f \<notin> ex) (parquet files))" by (metis mset_filter)
qed

section \<open>The backfill\<close>

text \<open>The listing returns the files the catalog has registered and changes nothing.\<close>

definition lists_files :: "'d file_lister \<Rightarrow> ('d \<Rightarrow> string list list) \<Rightarrow> bool" where
  "lists_files list_files snaps \<longleftrightarrow>
     (\<forall>d d' r. list_files d = (d', r) \<longrightarrow> snaps d' = snaps d \<and>
        (\<forall>rows. r = Inr (rows, None) \<longrightarrow> set rows = set (concat (snaps d))))"

lemma backfill_result:
  assumes F: "file_catalog l snaps pend" and L: "lists_files list_files snaps"
    and B: "Backfill_lake l list_files files d = (d', res, err)"
  shows "\<exists>new n. mset new = mset (filter (\<lambda>f. f \<notin> set (concat (snaps d))) (parquet files)) \<and>
    committed_prefix snaps new d d' n err \<and> Registered res = n \<and>
    (err = None \<longrightarrow> Registered res + Skipped res = length (parquet files))"
proof -
  note frame = file_catalog_frame [OF F]
  let ?new = "filter (\<lambda>f. f \<notin> set (concat (snaps d))) (parquet files)"
  let ?goal = "\<lambda>d' res err. \<exists>new n. mset new = mset ?new \<and>
    committed_prefix snaps new d d' n err \<and> Registered res = n \<and>
    (err = None \<longrightarrow> Registered res + Skipped res = length (parquet files))"
  have fail: "?goal x \<lparr>Registered = 0, Skipped = 0\<rparr> (Some e)" if "snaps x = snaps d" for x e
    using that by (intro exI [of _ ?new] exI [of _ 0]) (simp add: committed_prefix_empty)
  obtain d1 r1 where l1: "list_files d = (d1, r1)" by (cases "list_files d")
  with L have s1: "snaps d1 = snaps d" by (simp add: lists_files_def)
  show ?thesis
  proof (cases "\<exists>rows. r1 = Inr (rows, None)")
    case False
    then consider (query) e where "r1 = Inl e" | (read) rows e where "r1 = Inr (rows, Some e)" by (cases r1) auto
    then obtain e where "registeredFiles list_files d = (d1, Inl e)"
      by cases (simp_all add: registeredFiles_def l1)
    with B have "d' = d1" "res = \<lparr>Registered = 0, Skipped = 0\<rparr>" "err = Some e" by (simp_all add: Backfill_lake_def)
    then show ?thesis using fail s1 by simp
  next
    case True
    then obtain rows where rows: "r1 = Inr (rows, None)" by blast
    then have ex: "registeredFiles list_files d = (d1, Inr (set (concat (snaps d))))"
      using l1 L by (auto simp: registeredFiles_def lists_files_def)
    obtain d2 r2 where l2: "catConn l d1 = (d2, r2)" by (cases "catConn l d1")
    obtain d3 r3 where l3: "heartbeatBackfillPause l d2 = (d3, r3)" by (cases "heartbeatBackfillPause l d2")
    have s3: "snaps d2 = snaps d" "snaps d3 = snaps d" using frame(3) [of d1] frame(1) [of d2] l2 l3 s1 by simp_all
    show ?thesis
    proof (cases r2)
      case (Inl e)
      with B ex l2 have "d' = d2" "res = \<lparr>Registered = 0, Skipped = 0\<rparr>"
        "err = Some (errorf ''lake backfill: '' e '''')" by (simp_all add: Backfill_lake_def)
      then show ?thesis using fail s3 by simp
    next
      case (Inr c)
      obtain d4 r4 where l4: "catConnExec l RequestCtx reset_partitioned [] c d3 = (d4, r4)"
        by (cases "catConnExec l RequestCtx reset_partitioned [] c d3")
      have s4: "snaps d4 = snaps d" using frame(5) [of reset_partitioned RequestCtx c d3] l4 s3 by simp
      show ?thesis
      proof (cases "r3 = None \<and> r4 = None")
        case False
        with B ex l2 l3 l4 Inr obtain e where "err = Some e" "res = \<lparr>Registered = 0, Skipped = 0\<rparr>" "snaps d' = snaps d"
          by (cases r3; cases r4) (auto simp: Backfill_lake_def Let_def frame s3 s4)
        then show ?thesis using fail by simp
      next
        case True
        obtain groups order where g: "groupParquetByPrefix files = (groups, order)" by (cases "groupParquetByPrefix files")
        let ?ex = "set (concat (snaps d))"
        obtain d5 res1 err1 where p: "prefix_loop l c ?ex groups order \<lparr>Registered = 0, Skipped = 0\<rparr> d4 = (d5, res1, err1)"
          by (cases "prefix_loop l c ?ex groups order \<lparr>Registered = 0, Skipped = 0\<rparr> d4")
        have out: "res = res1" "err = err1" "snaps d' = snaps d5"
          using B True ex l2 l3 l4 Inr g p by (auto simp: Backfill_lake_def Let_def frame)
        from prefix_loop_spec [OF F, of ?ex groups order "\<lparr>Registered = 0, Skipped = 0\<rparr>" d4 c] p
        obtain n where n: "committed_prefix snaps (new_files ?ex groups order) d4 d5 n err1" "Registered res1 = n"
          "err1 = None \<longrightarrow> Registered res1 + Skipped res1 = length (concat (map (group_of groups) order))"
          by (auto simp: loop_spec_def)
        have "length (concat (map (group_of groups) order)) = length (parquet files)"
          using grouped(1) [OF g] by (metis size_mset)
        with n out s4 grouped(2) [OF g] show ?thesis
          by (intro exI [of _ "new_files ?ex groups order"] exI [of _ n]) (simp add: committed_prefix_def)
      qed
    qed
  qed
qed



section \<open>A catalog of files\<close>

record file_db =
  fdSnaps :: "string list list"
  fdPend :: "string list"

definition call_head :: string where
  "call_head = ''CALL ducklake_add_data_files('' @ sqlString ''lake'' @ '', '' @ sqlString RawTable @ '', ''"

fun read_list :: "nat \<Rightarrow> string \<Rightarrow> string list" where
  "read_list 0 s = []"
| "read_list (Suc n) s =
     (case read_literal s of
        None \<Rightarrow> []
      | Some (v, t) \<Rightarrow> if has_prefix t '', '' then v # read_list n (drop 2 t) else [v])"

definition read_call :: "string \<Rightarrow> string list option" where
  "read_call q =
     (if has_prefix q call_head
      then let t = drop (length call_head) q
           in if has_prefix t ''['' then Some (read_list (length t) (tl t)) else map_option (\<lambda>(v, _). [v]) (read_literal t)
      else None)"

definition exec_file :: "string \<Rightarrow> file_db \<Rightarrow> file_db" where
  "exec_file q d =
     (case read_call q of
        Some fs \<Rightarrow> d\<lparr>fdPend := fdPend d @ fs\<rparr>
      | None \<Rightarrow> if q = ''BEGIN'' then d\<lparr>fdPend := []\<rparr>
          else if q = ''COMMIT'' then d\<lparr>fdSnaps := fdSnaps d @ [fdPend d]\<rparr> else d)"

lemma read_literal_sqlString: "t = [] \<or> hd t \<noteq> sq \<Longrightarrow> read_literal (sqlString v @ t) = Some (v, t)"
  using literal_body_escape by (simp add: read_literal_def sqlString_def)

lemma read_list_intercalate:
  "length fs \<le> n \<Longrightarrow> \<not> has_prefix t '', '' \<Longrightarrow> t = CHR '']'' # u \<Longrightarrow>
     read_list n (intercalate '', '' (map sqlString fs) @ t) = fs"
proof (induction fs arbitrary: n rule: induct_list012)
  case 1
  then show ?case by (cases n) (simp_all add: read_literal_def sq_chars)
next
  case (2 f)
  then obtain m where "n = Suc m" by (cases n) auto
  with 2 read_literal_sqlString [of t f] show ?case by (simp add: sq_chars)
next
  case (3 f g fs)
  then obtain m where n: "n = Suc m" "length (g # fs) \<le> m" by (cases n) auto
  let ?r = "intercalate '', '' (map sqlString (g # fs)) @ t"
  have "read_literal (sqlString f @ '', '' @ ?r) = Some (f, '', '' @ ?r)"
    by (rule read_literal_sqlString) (simp add: sq_chars)
  moreover have "intercalate '', '' (map sqlString (f # g # fs)) @ t = sqlString f @ '', '' @ ?r" by simp
  ultimately have "read_list n (intercalate '', '' (map sqlString (f # g # fs)) @ t) = f # read_list m ?r"
    unfolding n(1) by (simp only: read_list.simps) (simp add: has_prefix_def)
  with 3 n(2) show ?case by simp
qed


lemma intercalate_length: "length fs \<le> length (intercalate '', '' (map sqlString fs))"
  by (induction fs rule: induct_list012) (simp_all add: sqlString_def)

lemma read_call_list: "read_call (addDataFilesListSQL fs) = Some fs"
proof -
  let ?t = "''], allow_missing => true)''"
  have q: "addDataFilesListSQL fs = call_head @ ''['' @ intercalate '', '' (map sqlString fs) @ ?t"
    by (simp add: addDataFilesListSQL_def call_head_def)
  let ?i = "intercalate '', '' (map sqlString fs)"
  have "length fs \<le> length (''['' @ ?i @ ?t)" using intercalate_length [of fs] by simp
  from read_list_intercalate [OF this, of ?t "'', allow_missing => true)''"]
  have "read_list (length (''['' @ ?i @ ?t)) (?i @ ?t) = fs" by (simp add: has_prefix_def)
  then show ?thesis unfolding q read_call_def Let_def by (simp add: has_prefix_def)
qed

lemma read_call_file: "read_call (add_file_sql f) = Some [f]"
proof -
  have q: "add_file_sql f = call_head @ sqlString f @ '', allow_missing => true)''"
    by (simp add: add_file_sql_def call_head_def)
  have "read_literal (sqlString f @ '', allow_missing => true)'') = Some (f, '', allow_missing => true)'')"
    by (rule read_literal_sqlString) (simp add: sq_chars)
  then show ?thesis
    unfolding q read_call_def Let_def by (simp add: has_prefix_def sqlString_def sq_chars)
qed

lemma read_call_other:
  "read_call ''BEGIN'' = None" "read_call ''COMMIT'' = None" "read_call ''ROLLBACK'' = None"
  "read_call reset_partitioned = None" "read_call layout_partitioned = None"
  by (simp_all add: read_call_def has_prefix_def call_head_def reset_partitioned_def layout_partitioned_def)

definition cat1 :: "file_db cat_ops" where
  "cat1 = \<lparr>catConnect = (\<lambda>d. (d, None)), catSetMaxOpenConns = (\<lambda>n d. d), catCloseDB = (\<lambda>d. d),
     catMkdirAll = (\<lambda>p d. (d, None)), catExec = (\<lambda>q d. (d, None)), catSelect = (\<lambda>d. (d, None)),
     catQuery = (\<lambda>q d. (d, Inr (0, None))), catConn = (\<lambda>d. (d, Inr 0)),
     catConnExec = (\<lambda>k q args c d. (exec_file q d, None)),
     catConnClose = (\<lambda>c d. d), catBeginTx = (\<lambda>d. (d, Inr 0)), catTxExec = (\<lambda>q tx d. (d, None)),
     catTxQuery = (\<lambda>q tx d. (d, Inr (0, None))), catTxCommit = (\<lambda>tx d. (d, None)), catTxRollback = (\<lambda>tx d. d),
     catWait = (\<lambda>t d. (d, None)), catCtxErr = (\<lambda>d. None), catClock = (\<lambda>d. 0), catTick = (\<lambda>d. (d, True)),
     catNow = (\<lambda>d. 0), catProgress = (\<lambda>d. []), catSnapshots = (\<lambda>d. []), catTableInfo = (\<lambda>d. []),
     catPause = (\<lambda>d. []), catHasTable = (\<lambda>t d. True), catPartitionColumns = (\<lambda>d. 4),
     catSortSpecs = (\<lambda>d. 1), catEncrypted = (\<lambda>d. None)\<rparr>"

definition list1 :: "file_db file_lister" where
  "list1 d = (d, Inr (concat (fdSnaps d), None))"

lemma quiet_cat1 [simp]: "heartbeatBackfillPause cat1 d = (d, None)" "clearBackfillPause cat1 d = (d, None)"
  by (simp_all add: heartbeatBackfillPause_def clearBackfillPause_def ensureBackfillPauseTable_def err_then_def cat1_def)

lemma exec_file_simps:
  "exec_file ''BEGIN'' d = d\<lparr>fdPend := []\<rparr>" "exec_file ''COMMIT'' d = d\<lparr>fdSnaps := fdSnaps d @ [fdPend d]\<rparr>"
  "exec_file ''ROLLBACK'' d = d" "exec_file reset_partitioned d = d" "exec_file layout_partitioned d = d"
  "exec_file (addDataFilesListSQL fs) d = d\<lparr>fdPend := fdPend d @ fs\<rparr>"
  "exec_file (add_file_sql f) d = d\<lparr>fdPend := fdPend d @ [f]\<rparr>"
  unfolding exec_file_def read_call_other read_call_list read_call_file
  by (simp_all add: reset_partitioned_def layout_partitioned_def)

lemma file_catalog_cat1: "file_catalog cat1 fdSnaps (\<lambda>d c. fdPend d)"
proof -
  have ops: "catConnExec cat1 k q [] c d = (exec_file q d, None)" "catConn cat1 d = (d, Inr 0)" "catConnClose cat1 c d = d"
    for k q c d by (simp_all add: cat1_def)
  show ?thesis
    unfolding file_catalog_def ops by (intro conjI allI impI) (auto simp only: exec_file_simps quiet_cat1 fst_conv
      prod.inject insert_iff empty_iff if_True simp_thms, simp_all)
qed


end
