(* ===== verification/Config.thy ===== *)
theory Config
  imports CloudEvent Float64 Base64
begin

text \<open>
  \<^verbatim>\<open>internal/config/config.go\<close>: the settings, read from the environment with their defaults, and the
  checks that refuse a configuration the rest of the program could not run with. Unsigned 64-bit
  settings are naturals; their conversions to \<^verbatim>\<open>int\<close> and \<^verbatim>\<open>int64\<close> wrap. \<^verbatim>\<open>time.ParseDuration\<close> and
  the printing of a duration are the record \<open>time_lib\<close>; the address functions are those of
  \<open>ce_lib\<close>. The partly filled settings that \<^verbatim>\<open>Load\<close> returns beside an error are never used
  and are left out. Where Go ranges over a map of two checks, the order is a parameter.
\<close>

section \<open>Settings\<close>

record settings =
  sLogLevel :: string
  sConnectionAddr :: string
  sAttestationAddr :: string
  sOpsAddr :: string
  sTLSCertFile :: string
  sTLSKeyFile :: string
  sTLSClientCAFile :: string
  sMaxBodyBytes :: int
  sRateLimitRPS :: float64
  sRateLimitBurst :: int
  sTokenExchangeIssuer :: string
  sTokenExchangeKeySetURL :: string
  sChainID :: nat
  sVehicleNFTAddress :: address
  sAftermarketNFTAddress :: address
  sSyntheticNFTAddress :: address
  sRPCURL :: string
  sNATSMode :: string
  sNATSURL :: string
  sNATSStoreDir :: string
  sNATSReplicas :: int
  sNATSStreamPartitions :: int
  sNATSStreamMaxBytes :: int
  sSignalsMaxBytes :: int
  sEventsMaxBytes :: int
  sBlobBucket :: string
  sBlobPrefix :: string
  sBlobEncryptionKey :: string
  sDocumentSizeLimit :: int
  sS3Region :: string
  sS3AccessKeyID :: string
  sS3SecretAccessKey :: string
  sS3Endpoint :: string
  sS3KMSKeyID :: string
  sLakeCatalogDSN :: string
  sLakeDataPath :: string
  sLakeTempDirectory :: string
  sLakeMemoryLimit :: string
  sLakeThreads :: int
  sLakeTargetFileSize :: string
  sLakeRowGroupSize :: int
  sLakeParquetVersion :: string
  sLakeCompression :: string
  sLakeExtensionDir :: string
  sLakeEncryptionEnabled :: bool
  sLakeMaintenanceEnabled :: bool
  sLakeMaintInterval :: duration
  sLakeSnapshotKeep :: duration
  sLakeConsumerStaleness :: duration
  sLakeOrphanRetention :: duration
  sLakeCleanupGrace :: duration
  sLakeWriterConnections :: int
  sLakeMergeMaxFilesPerCall :: int
  sLakeRewriteDeleteThreshold :: float64
  sSinkMaxRowsPerFlush :: nat
  sSinkMaxBytesPerFlush :: nat
  sSinkMinFlushBytes :: nat
  sSinkMaxAge :: duration
  sSinkMaxAgeHard :: duration
  sSinkWorkers :: nat
  sSinkDrainTimeout :: duration
  sDecodeStreamEnabled :: bool
  sFingerprintValidation :: bool
  sAllowableTimeSkew :: duration


section \<open>The environment\<close>

record time_lib =
  ParseDuration :: "string \<Rightarrow> duration result"
  FormatDuration :: "duration \<Rightarrow> string"

record env_lib =
  Getenv :: "string \<Rightarrow> string"
  envTime :: time_lib
  envFloatLib :: float_lib
  envCE :: ce_lib

definition env :: "env_lib \<Rightarrow> string \<Rightarrow> string \<Rightarrow> string" where
  "env E key dflt = (let v = Getenv E key in if v \<noteq> [] then v else dflt)"

text \<open>\<^verbatim>\<open>strconv.ParseUint\<close> in base 10 for 64 bits, and \<^verbatim>\<open>strconv.ParseBool\<close>.\<close>

definition is_digit :: "char \<Rightarrow> bool" where
  "is_digit c \<longleftrightarrow> 48 \<le> (of_char c :: nat) \<and> (of_char c :: nat) \<le> 57"

definition strconv_error :: "string \<Rightarrow> string \<Rightarrow> string \<Rightarrow> go_error" where
  "strconv_error fn s why = errors_new (''strconv.'' @ fn @ '': parsing '' @ fmt_q s @ '': '' @ why)"

definition ParseUint :: "string \<Rightarrow> nat result" where
  "ParseUint s =
     (if s = [] \<or> \<not> list_all is_digit s then Inl (strconv_error ''ParseUint'' s ''invalid syntax'')
      else if 2 ^ 64 \<le> read_nat s then Inl (strconv_error ''ParseUint'' s ''value out of range'')
      else Inr (read_nat s))"

definition ParseBool :: "string \<Rightarrow> bool option" where
  "ParseBool s =
     (if s \<in> {''1'', ''t'', ''T'', ''TRUE'', ''true'', ''True''} then Some True
      else if s \<in> {''0'', ''f'', ''F'', ''FALSE'', ''false'', ''False''} then Some False
      else None)"

definition envUint :: "env_lib \<Rightarrow> string \<Rightarrow> nat \<Rightarrow> nat result" where
  "envUint E key dflt =
     (let v = Getenv E key
      in if v = [] then Inr dflt
         else case ParseUint v of Inl e \<Rightarrow> Inl (errorf (''parsing '' @ key @ '': '') e '''') | Inr n \<Rightarrow> Inr n)"

definition envFloat :: "env_lib \<Rightarrow> string \<Rightarrow> float64 \<Rightarrow> float64 result" where
  "envFloat E key dflt =
     (let v = Getenv E key
      in if v = [] then Inr dflt
         else case ParseFloat (envFloatLib E) v of
                None \<Rightarrow> Inl (errorf (''parsing '' @ key @ '': '') (strconv_error ''ParseFloat'' v ''invalid syntax'') '''')
              | Some f \<Rightarrow> Inr f)"

definition envBool :: "env_lib \<Rightarrow> string \<Rightarrow> bool \<Rightarrow> bool" where
  "envBool E key dflt =
     (let v = Getenv E key in if v = [] then dflt else case ParseBool v of None \<Rightarrow> dflt | Some b \<Rightarrow> b)"

definition envDuration :: "env_lib \<Rightarrow> string \<Rightarrow> duration \<Rightarrow> duration result" where
  "envDuration E key dflt =
     (let v = Getenv E key
      in if v = [] then Inr dflt
         else case ParseDuration (envTime E) v of Inl e \<Rightarrow> Inl (errorf (''parsing '' @ key @ '': '') e '''') | Inr d \<Rightarrow> Inr d)"

definition zero_address :: address where "zero_address = replicate 20 (ch 0)"

definition envAddress :: "env_lib \<Rightarrow> string \<Rightarrow> address result" where
  "envAddress E key =
     (let v = Getenv E key
      in if v = [] then Inl (errors_new (key @ '' is required''))
         else if \<not> IsHexAddress (envCE E) v then Inl (errors_new (key @ '' is not a valid address: '' @ fmt_q v))
         else if HexToAddress (envCE E) v = zero_address then Inl (errors_new (key @ '' must not be the zero address''))
         else Inr (HexToAddress (envCE E) v))"

section \<open>Load\<close>

definition res_bind :: "'a result \<Rightarrow> ('a \<Rightarrow> 'b result) \<Rightarrow> 'b result" where
  "res_bind r f = (case r of Inl e \<Rightarrow> Inl e | Inr x \<Rightarrow> f x)"

text \<open>The composite literal: the strings, every other field at its zero value.\<close>

definition base_settings :: "env_lib \<Rightarrow> settings" where
  "base_settings E =
     (let get = Getenv E
      in \<lparr>sLogLevel = env E ''LOG_LEVEL'' ''info'',
          sConnectionAddr = env E ''DIS_CONNECTION_ADDRESS'' ''0.0.0.0:9443'',
          sAttestationAddr = env E ''DIS_ATTESTATION_ADDRESS'' ''0.0.0.0:9442'',
          sOpsAddr = env E ''OPS_ADDRESS'' ''0.0.0.0:8080'',
          sTLSCertFile = get ''TLS_CERT_FILE'', sTLSKeyFile = get ''TLS_KEY_FILE'',
          sTLSClientCAFile = get ''TLS_CA_CERT_FILE'',
          sMaxBodyBytes = 0, sRateLimitRPS = Fin 0, sRateLimitBurst = 0,
          sTokenExchangeIssuer = get ''TOKEN_EXCHANGE_ISSUER_URL'',
          sTokenExchangeKeySetURL = get ''TOKEN_EXCHANGE_JWK_KEY_SET_URL'',
          sChainID = 0, sVehicleNFTAddress = zero_address, sAftermarketNFTAddress = zero_address,
          sSyntheticNFTAddress = zero_address, sRPCURL = get ''RPC_URL'',
          sNATSMode = env E ''NATS_MODE'' ''external'', sNATSURL = env E ''NATS_URL'' ''nats://localhost:4222'',
          sNATSStoreDir = env E ''NATS_STORE_DIR'' ''/data/nats'',
          sNATSReplicas = 0, sNATSStreamPartitions = 0, sNATSStreamMaxBytes = 0, sSignalsMaxBytes = 0, sEventsMaxBytes = 0,
          sBlobBucket = get ''BLOB_BUCKET'', sBlobPrefix = env E ''BLOB_PREFIX'' ''cloudevent/blobs/'',
          sBlobEncryptionKey = get ''BLOB_ENCRYPTION_KEY'', sDocumentSizeLimit = 0,
          sS3Region = get ''S3_AWS_REGION'', sS3AccessKeyID = get ''S3_AWS_ACCESS_KEY_ID'',
          sS3SecretAccessKey = get ''S3_AWS_SECRET_ACCESS_KEY'', sS3Endpoint = get ''S3_ENDPOINT'',
          sS3KMSKeyID = get ''S3_KMS_KEY_ID'',
          sLakeCatalogDSN = get ''DUCKLAKE_CATALOG_DSN'', sLakeDataPath = get ''DUCKLAKE_DATA_PATH'',
          sLakeTempDirectory = get ''DUCKDB_TEMP_DIRECTORY'', sLakeMemoryLimit = get ''DUCKDB_MEMORY_LIMIT'',
          sLakeThreads = 0, sLakeTargetFileSize = env E ''LAKE_TARGET_FILE_SIZE'' ''512MB'', sLakeRowGroupSize = 0,
          sLakeParquetVersion = env E ''LAKE_PARQUET_VERSION'' ''2'', sLakeCompression = env E ''LAKE_COMPRESSION'' ''snappy'',
          sLakeExtensionDir = get ''DUCKDB_EXTENSION_DIR'', sLakeEncryptionEnabled = False, sLakeMaintenanceEnabled = False,
          sLakeMaintInterval = 0, sLakeSnapshotKeep = 0, sLakeConsumerStaleness = 0, sLakeOrphanRetention = 0,
          sLakeCleanupGrace = 0, sLakeWriterConnections = 0, sLakeMergeMaxFilesPerCall = 0,
          sLakeRewriteDeleteThreshold = Fin 0, sSinkMaxRowsPerFlush = 0, sSinkMaxBytesPerFlush = 0,
          sSinkMinFlushBytes = 0, sSinkMaxAge = 0, sSinkMaxAgeHard = 0, sSinkWorkers = 0, sSinkDrainTimeout = 0,
          sDecodeStreamEnabled = False, sFingerprintValidation = False, sAllowableTimeSkew = 0\<rparr>)"

definition load_chain :: "env_lib \<Rightarrow> settings \<Rightarrow> settings result" where
  "load_chain E s =
     res_bind (envUint E ''DIMO_REGISTRY_CHAIN_ID'' 137) (\<lambda>chain.
     res_bind (envAddress E ''VEHICLE_NFT_ADDRESS'') (\<lambda>vehicle.
     res_bind (envAddress E ''AFTERMARKET_NFT_ADDRESS'') (\<lambda>aftermarket.
     res_bind (envAddress E ''SYNTHETIC_NFT_ADDRESS'') (\<lambda>synthetic.
       Inr (s\<lparr>sChainID := chain, sVehicleNFTAddress := vehicle, sAftermarketNFTAddress := aftermarket,
              sSyntheticNFTAddress := synthetic\<rparr>)))))"

definition load_limits :: "env_lib \<Rightarrow> settings \<Rightarrow> settings result" where
  "load_limits E s =
     res_bind (envUint E ''DOCUMENT_SIZE_THRESHOLD'' (2 ^ 20)) (\<lambda>docLimit.
     res_bind (envUint E ''MAX_BODY_BYTES'' (32 * 2 ^ 20)) (\<lambda>maxBody.
     res_bind (envUint E ''RATE_LIMIT_RPS'' 0) (\<lambda>rps.
     res_bind (envUint E ''RATE_LIMIT_BURST'' 100) (\<lambda>burst.
       Inr (s\<lparr>sDocumentSizeLimit := wrap64 (int docLimit), sMaxBodyBytes := wrap64 (int maxBody),
              sRateLimitRPS := Fin (of_int (round53 (int rps))), sRateLimitBurst := wrap64 (int burst)\<rparr>)))))"

definition load_nats :: "env_lib \<Rightarrow> settings \<Rightarrow> settings result" where
  "load_nats E s =
     res_bind (envUint E ''NATS_REPLICAS'' 1) (\<lambda>replicas.
     res_bind (envUint E ''NATS_STREAM_PARTITIONS'' 1) (\<lambda>parts.
       if parts < 1 \<or> 256 < parts
       then Inl (errors_new (''NATS_STREAM_PARTITIONS must be 1..256, got '' @ show_nat parts))
       else
     res_bind (envUint E ''NATS_STREAM_MAX_BYTES'' 0) (\<lambda>maxBytes.
     res_bind (envUint E ''SIGNALS_MAX_BYTES'' 0) (\<lambda>signalsMax.
     res_bind (envUint E ''EVENTS_MAX_BYTES'' 0) (\<lambda>eventsMax.
       Inr (s\<lparr>sNATSReplicas := wrap64 (int replicas), sNATSStreamPartitions := wrap64 (int parts),
              sNATSStreamMaxBytes := wrap64 (int maxBytes), sSignalsMaxBytes := wrap64 (int signalsMax),
              sEventsMaxBytes := wrap64 (int eventsMax),
              sDecodeStreamEnabled := envBool E ''DECODESTREAM_ENABLED'' True,
              sLakeMaintenanceEnabled := envBool E ''LAKE_MAINTENANCE_ENABLED'' False,
              sLakeEncryptionEnabled := envBool E ''LAKE_ENCRYPTION_ENABLED'' False,
              sFingerprintValidation := envBool E ''FINGERPRINT_VALIDATION'' True\<rparr>))))))"

definition load_lake :: "env_lib \<Rightarrow> settings \<Rightarrow> settings result" where
  "load_lake E s =
     res_bind (envUint E ''DUCKDB_THREADS'' 0) (\<lambda>threads.
     res_bind (envDuration E ''LAKE_MAINTENANCE_INTERVAL'' (15 * minute)) (\<lambda>interval.
     res_bind (envDuration E ''LAKE_SNAPSHOT_RETENTION'' (72 * hour)) (\<lambda>keep.
     res_bind (envDuration E ''LAKE_CONSUMER_STALENESS'' hour) (\<lambda>stale.
     res_bind (envDuration E ''LAKE_ORPHAN_RETENTION'' (7 * 24 * hour)) (\<lambda>orphan.
     res_bind (envDuration E ''LAKE_CLEANUP_GRACE'' (30 * minute)) (\<lambda>grace.
     res_bind (envUint E ''LAKE_WRITER_CONNECTIONS'' 2) (\<lambda>writerConns.
     res_bind (envUint E ''LAKE_ROW_GROUP_SIZE'' 16384) (\<lambda>rowGroupSize.
     res_bind (envUint E ''LAKE_MERGE_MAX_FILES_PER_CALL'' 0) (\<lambda>mergeMaxFiles.
     res_bind (envFloat E ''LAKE_REWRITE_DELETE_THRESHOLD'' (Fin 0)) (\<lambda>threshold.
       Inr (s\<lparr>sLakeThreads := wrap64 (int threads), sLakeMaintInterval := interval, sLakeSnapshotKeep := keep,
              sLakeConsumerStaleness := stale, sLakeOrphanRetention := orphan, sLakeCleanupGrace := grace,
              sLakeRowGroupSize := wrap64 (int rowGroupSize), sLakeMergeMaxFilesPerCall := wrap64 (int mergeMaxFiles),
              sLakeRewriteDeleteThreshold := threshold, sLakeWriterConnections := max (wrap64 (int writerConns)) 1\<rparr>)))))))))))"

definition load_sink :: "env_lib \<Rightarrow> settings \<Rightarrow> settings result" where
  "load_sink E s =
     res_bind (envUint E ''SINK_MAX_ROWS_PER_FLUSH'' 0) (\<lambda>rows.
     res_bind (envUint E ''SINK_MAX_BYTES_PER_FLUSH'' 0) (\<lambda>bytes.
     res_bind (envUint E ''SINK_MIN_FLUSH_BYTES'' 0) (\<lambda>minBytes.
     res_bind (envDuration E ''SINK_MAX_AGE'' 0) (\<lambda>age.
     res_bind (envDuration E ''SINK_MAX_AGE_HARD'' 0) (\<lambda>ageHard.
     res_bind (envUint E ''SINK_WORKERS'' 0) (\<lambda>workers.
     res_bind (envDuration E ''SINK_DRAIN_TIMEOUT'' 0) (\<lambda>drain.
     res_bind (case ParseDuration (envTime E) (env E ''ALLOWABLE_TIME_SKEW'' ''5m'') of
                 Inl e \<Rightarrow> Inl (errorf ''parsing ALLOWABLE_TIME_SKEW: '' e '''') | Inr d \<Rightarrow> Inr d) (\<lambda>skew.
       Inr (s\<lparr>sSinkMaxRowsPerFlush := rows, sSinkMaxBytesPerFlush := bytes, sSinkMinFlushBytes := minBytes,
              sSinkMaxAge := age, sSinkMaxAgeHard := ageHard, sSinkWorkers := workers, sSinkDrainTimeout := drain,
              sAllowableTimeSkew := skew\<rparr>)))))))))"


definition isKMSKeyARN :: "string \<Rightarrow> bool" where
  "isKMSKeyARN v \<longleftrightarrow> has_prefix v ''arn:'' \<and> contains v '':kms:''"

definition validateMaintenance :: "time_lib \<Rightarrow> settings \<Rightarrow> go_error option" where
  "validateMaintenance T s =
     (if sLakeSnapshotKeep s \<le> sLakeConsumerStaleness s
      then Some (errors_new (''LAKE_CONSUMER_STALENESS ('' @ FormatDuration T (sLakeConsumerStaleness s) @
             '') must be less than LAKE_SNAPSHOT_RETENTION ('' @ FormatDuration T (sLakeSnapshotKeep s) @ '')''))
      else None)"

text \<open>The loop over the two paths, in the order \<open>range_paths\<close> gives them.\<close>

fun check_paths :: "(string \<times> string) list \<Rightarrow> go_error option" where
  "check_paths [] = None"
| "check_paths ((name, v) # rest) =
     (if has_prefix v ''.'' then Some (errors_new (name @ '' must not be a relative path, got '' @ fmt_q v))
      else check_paths rest)"

definition check_settings :: "((string \<times> string) list \<Rightarrow> (string \<times> string) list) \<Rightarrow> time_lib \<Rightarrow> settings \<Rightarrow> go_error option" where
  "check_settings range_paths T s =
     (if sLakeCatalogDSN s = []
      then Some (errors_new ''DUCKLAKE_CATALOG_DSN is required (PostgreSQL DSN, or a local catalog file path for single-node)'')
      else if sLakeDataPath s = []
      then Some (errors_new ''DUCKLAKE_DATA_PATH is required (s3://bucket/prefix/ or absolute local path)'')
      else case check_paths (range_paths [(''DUCKLAKE_DATA_PATH'', sLakeDataPath s), (''BLOB_BUCKET'', sBlobBucket s)]) of
        Some e \<Rightarrow> Some e
      | None \<Rightarrow>
          if sS3KMSKeyID s \<noteq> [] \<and> \<not> isKMSKeyARN (sS3KMSKeyID s)
          then Some (errors_new (''S3_KMS_KEY_ID must be a KMS key ARN (arn:aws:kms:...), got '' @ fmt_q (sS3KMSKeyID s)))
          else if sBlobEncryptionKey s \<noteq> [] \<and>
            (case DecodeString (sBlobEncryptionKey s) of Inl _ \<Rightarrow> True | Inr key \<Rightarrow> length key \<noteq> 32)
          then Some (errors_new ''BLOB_ENCRYPTION_KEY must be base64 of exactly 32 bytes (AES-256)'')
          else validateMaintenance T s)"

definition Load :: "((string \<times> string) list \<Rightarrow> (string \<times> string) list) \<Rightarrow> env_lib \<Rightarrow> settings result" where
  "Load range_paths E =
     res_bind (load_chain E (base_settings E)) (\<lambda>s.
     res_bind (load_limits E s) (\<lambda>s.
     res_bind (load_nats E s) (\<lambda>s.
     res_bind (load_lake E s) (\<lambda>s.
     res_bind (load_sink E s) (\<lambda>s.
       case check_settings range_paths (envTime E) s of Some e \<Rightarrow> Inl e | None \<Rightarrow> Inr s)))))"

section \<open>Lemmas\<close>

lemma res_bind_Inr_iff: "res_bind r f = Inr y \<longleftrightarrow> (\<exists>x. r = Inr x \<and> f x = Inr y)"
  by (simp add: res_bind_def split: sum.splits)

lemma envUint_bound: "envUint E key dflt = Inr n \<Longrightarrow> dflt < 2 ^ 64 \<Longrightarrow> n < 2 ^ 64"
  by (auto simp: envUint_def ParseUint_def Let_def not_le split: if_splits sum.splits)

lemma envAddress_nonzero: "envAddress E key = Inr a \<Longrightarrow> a \<noteq> zero_address"
  by (auto simp: envAddress_def Let_def split: if_splits)

lemma check_paths_None: "check_paths ps = None \<Longrightarrow> (n, v) \<in> set ps \<Longrightarrow> \<not> has_prefix v ''.''"
  by (induction ps rule: check_paths.induct) (auto split: if_splits)

text \<open>What each part leaves as it is.\<close>

lemma load_frame:
  "load_limits E s = Inr s' \<Longrightarrow> sVehicleNFTAddress s' = sVehicleNFTAddress s \<and> sAftermarketNFTAddress s' = sAftermarketNFTAddress s \<and>
     sSyntheticNFTAddress s' = sSyntheticNFTAddress s"
  "load_nats E s = Inr s' \<Longrightarrow> sVehicleNFTAddress s' = sVehicleNFTAddress s \<and> sAftermarketNFTAddress s' = sAftermarketNFTAddress s \<and>
     sSyntheticNFTAddress s' = sSyntheticNFTAddress s"
  "load_lake E s = Inr s' \<Longrightarrow> sVehicleNFTAddress s' = sVehicleNFTAddress s \<and> sAftermarketNFTAddress s' = sAftermarketNFTAddress s \<and>
     sSyntheticNFTAddress s' = sSyntheticNFTAddress s \<and> sNATSStreamPartitions s' = sNATSStreamPartitions s"
  "load_sink E s = Inr s' \<Longrightarrow> sVehicleNFTAddress s' = sVehicleNFTAddress s \<and> sAftermarketNFTAddress s' = sAftermarketNFTAddress s \<and>
     sSyntheticNFTAddress s' = sSyntheticNFTAddress s \<and> sNATSStreamPartitions s' = sNATSStreamPartitions s \<and>
     sLakeWriterConnections s' = sLakeWriterConnections s"
  by (auto simp: load_limits_def load_nats_def load_lake_def load_sink_def res_bind_Inr_iff split: if_splits)

lemma load_nats_partitions: "load_nats E s = Inr s' \<Longrightarrow> 1 \<le> sNATSStreamPartitions s' \<and> sNATSStreamPartitions s' \<le> 256"
  by (auto simp: load_nats_def res_bind_Inr_iff wrap64_id in_int64_def split: if_splits)

lemma load_lake_conns: "load_lake E s = Inr s' \<Longrightarrow> 1 \<le> sLakeWriterConnections s'"
  by (auto simp: load_lake_def res_bind_Inr_iff)

lemma load_chain_addresses:
  "load_chain E s = Inr s' \<Longrightarrow> sVehicleNFTAddress s' \<noteq> zero_address \<and> sAftermarketNFTAddress s' \<noteq> zero_address \<and>
     sSyntheticNFTAddress s' \<noteq> zero_address"
  by (auto simp: load_chain_def res_bind_Inr_iff dest: envAddress_nonzero)

lemma check_settings_None:
  assumes "check_settings rng T s = None" "\<And>xs. set (rng xs) = set xs"
  shows "sLakeCatalogDSN s \<noteq> []" "sLakeDataPath s \<noteq> []" "\<not> has_prefix (sLakeDataPath s) ''.''" "\<not> has_prefix (sBlobBucket s) ''.''"
    "sS3KMSKeyID s \<noteq> [] \<Longrightarrow> isKMSKeyARN (sS3KMSKeyID s)"
    "sBlobEncryptionKey s \<noteq> [] \<Longrightarrow> \<exists>key. DecodeString (sBlobEncryptionKey s) = Inr key \<and> length key = 32"
    "sLakeConsumerStaleness s < sLakeSnapshotKeep s"
proof -
  let ?ps = "rng [(''DUCKLAKE_DATA_PATH'', sLakeDataPath s), (''BLOB_BUCKET'', sBlobBucket s)]"
  have p: "check_paths ?ps = None" using assms(1) by (simp add: check_settings_def split: if_splits option.splits)
  then show "\<not> has_prefix (sLakeDataPath s) ''.''" "\<not> has_prefix (sBlobBucket s) ''.''"
    using check_paths_None [OF p] assms(2) by auto
  show "sLakeCatalogDSN s \<noteq> []" "sLakeDataPath s \<noteq> []" "sS3KMSKeyID s \<noteq> [] \<Longrightarrow> isKMSKeyARN (sS3KMSKeyID s)"
    "sBlobEncryptionKey s \<noteq> [] \<Longrightarrow> \<exists>key. DecodeString (sBlobEncryptionKey s) = Inr key \<and> length key = 32"
    "sLakeConsumerStaleness s < sLakeSnapshotKeep s"
    using assms(1) by (auto simp: check_settings_def validateMaintenance_def split: if_splits option.splits sum.splits)
qed

end
