(* ===== verification/Server.thy ===== *)
theory Server
  imports Handler Float64 Subjects
begin

text \<open>
  \<^verbatim>\<open>internal/server\<close> and the wiring of the listeners in \<^verbatim>\<open>cmd/din/main.go\<close>: the middleware that
  authenticates a request, bounds its body, limits its rate and turns a panic into a response.
  A handler takes a request and the state behind it and returns the response, or \<open>None\<close> when
  it panicked before it wrote one. The token parser, the certificate loader and the token
  bucket are other packages: the records \<open>jwt_lib\<close>, \<open>tls_ops\<close> and \<open>rate_lib\<close>. A shard of
  the limiter is an association list in the order in which Go would iterate over its map.
\<close>

section \<open>Requests\<close>

text \<open>Of a certificate only the common name is read; \<open>srSource\<close> is the value in the request's context,
  \<open>srLimit\<close> the bound of the body reader.\<close>

record server_request =
  srMethod :: string
  srVerifiedChains :: "string list list option"
  srRemoteAddr :: string
  srAuthorization :: string
  srBody :: "bytes option"
  srSource :: "string option"
  srLimit :: "int option"

type_synonym 's http_handler = "server_request \<Rightarrow> 's \<Rightarrow> 's \<times> http_response option"

definition WithSource :: "string \<Rightarrow> server_request \<Rightarrow> server_request" where
  "WithSource source r = r\<lparr>srSource := Some source\<rparr>"

definition SourceFromContext :: "server_request \<Rightarrow> string option" where
  "SourceFromContext r = srSource r"

definition maxBytesError :: go_error where
  "maxBytesError = \<lparr>err_chain = [MaxBytesError], err_text = ''http: request body too large''\<rparr>"

text \<open>\<^verbatim>\<open>io.ReadAll(r.Body)\<close>; reading a nil body panics.\<close>

definition read_body :: "server_request \<Rightarrow> bytes result" where
  "read_body r =
     (case srBody r of
        None \<Rightarrow> Inl (sentinel_error RuntimePanic)
      | Some b \<Rightarrow>
          (case srLimit r of
             None \<Rightarrow> Inr b
           | Some n \<Rightarrow> if int (length b) \<le> n then Inr b else Inl maxBytesError))"

section \<open>Middleware\<close>

definition recoverMiddleware :: "('s \<times> nat) http_handler \<Rightarrow> ('s \<times> nat) http_handler" where
  "recoverMiddleware next r st =
     (case next r st of
        ((s1, panics), None) \<Rightarrow> ((s1, Suc panics), Some (http_Error ''internal server error'' 500))
      | (st1, Some resp) \<Rightarrow> (st1, Some resp))"

definition certSourceHandler :: "'s http_handler \<Rightarrow> 's http_handler" where
  "certSourceHandler next r s =
     (case srVerifiedChains r of
        Some ((source # _) # _) \<Rightarrow> next (WithSource source r) s
      | _ \<Rightarrow> (s, Some (http_Error ''client certificate required'' 401)))"

definition maxBytesMiddleware :: "int \<Rightarrow> 's http_handler \<Rightarrow> 's http_handler" where
  "maxBytesMiddleware limit next r s = next (if srBody r \<noteq> None then r\<lparr>srLimit := Some limit\<rparr> else r) s"

text \<open>\<open>ParseWithClaims issuer methods keys token\<close> is the token's \<^verbatim>\<open>ethereum_address\<close> claim, if the
  parser accepts the token.\<close>

record 'k jwt_lib =
  ParseURL :: "string \<Rightarrow> string result"
  NewKeyfunc :: "string \<Rightarrow> 'k result"
  ParseWithClaims :: "string \<Rightarrow> string list \<Rightarrow> 'k \<Rightarrow> string \<Rightarrow> address result"

definition zeroAddress :: address where "zeroAddress = replicate 20 (ch 0)"

definition attestation_auth :: "ce_lib \<Rightarrow> 'k jwt_lib \<Rightarrow> string \<Rightarrow> 'k \<Rightarrow> server_request \<Rightarrow> string result" where
  "attestation_auth L J issuer keys r =
     (let authStr = srAuthorization r
      in if \<not> has_prefix authStr ''Bearer '' then Inl (errors_new ''authorization header must use the Bearer scheme'')
         else case ParseWithClaims J issuer [''RS256''] keys (trim_space (drop 7 authStr)) of
                Inl e \<Rightarrow> Inl (errorf ''invalid token string: '' e '''')
              | Inr addr \<Rightarrow> if addr = zeroAddress then Inl (sentinel_error ErrInvalidEthAddr) else Inr (AddressHex L addr))"

definition newAttestationAuth ::
  "ce_lib \<Rightarrow> 'k jwt_lib \<Rightarrow> string \<Rightarrow> string \<Rightarrow> (server_request \<Rightarrow> string result) result" where
  "newAttestationAuth L J issuer jwksURL =
     (case ParseURL J issuer of
        Inl e \<Rightarrow> Inl (errorf ''failed to parse issuer URL: '' e '''')
      | Inr issuerURL \<Rightarrow>
          (case NewKeyfunc J jwksURL of
             Inl e \<Rightarrow> Inl (errorf (''failed to create a keyfunc.Keyfunc from the server'' @ [ch 39] @ ''s URL: '') e '''')
           | Inr keys \<Rightarrow> Inr (attestation_auth L J issuerURL keys)))"

definition authHandler :: "(server_request \<Rightarrow> string result) \<Rightarrow> 's http_handler \<Rightarrow> 's http_handler" where
  "authHandler auth next r s =
     (case auth r of
        Inl e \<Rightarrow> (s, Some (http_Error ''unauthorized'' 401))
      | Inr source \<Rightarrow> next (WithSource source r) s)"

definition postOnly :: "'s http_handler \<Rightarrow> 's http_handler" where
  "postOnly next r s =
     (if srMethod r \<noteq> ''POST'' then (s, Some (http_Error ''method not allowed'' 405)) else next r s)"

section \<open>The rate limiter\<close>

definition limiterMaxKeys :: nat where "limiterMaxKeys = 100000"
definition limiterShards :: nat where "limiterShards = 64"

record 'l rate_lib =
  NewLimiter :: "float64 \<Rightarrow> int \<Rightarrow> 'l"
  AllowNow :: "'l \<Rightarrow> go_time \<Rightarrow> 'l \<times> bool"
  Tokens :: "'l \<Rightarrow> go_time \<Rightarrow> float64"

record 'l remote_limiter =
  rlShards :: "(string \<times> 'l) list list"
  rlRPS :: float64
  rlBurst :: int

definition newRemoteLimiter :: "float64 \<Rightarrow> int \<Rightarrow> 'l remote_limiter" where
  "newRemoteLimiter rps burst = \<lparr>rlShards = replicate limiterShards [], rlRPS = rps, rlBurst = burst\<rparr>"

definition shard :: "string \<Rightarrow> nat" where
  "shard key = unat (fnv32a key) mod limiterShards"

definition evictLocked :: "'l rate_lib \<Rightarrow> go_time \<Rightarrow> int \<Rightarrow> (string \<times> 'l) list \<Rightarrow> (string \<times> 'l) list" where
  "evictLocked R now burst limiters =
     (let hot = filter (\<lambda>(key, lim). \<not> f_le (Fin (of_int burst)) (Tokens R lim now)) limiters;
          maxKeys = limiterMaxKeys div limiterShards
      in if length hot < maxKeys then hot else drop (max 1 (maxKeys div 10)) hot)"

definition allow :: "'l rate_lib \<Rightarrow> go_time \<Rightarrow> string \<Rightarrow> 'l remote_limiter \<Rightarrow> 'l remote_limiter \<times> bool" where
  "allow R now key l =
     (let i = shard key; s = rlShards l ! i;
          s1 = (case map_of s key of
                  Some _ \<Rightarrow> s
                | None \<Rightarrow>
                    (key, NewLimiter R (rlRPS l) (rlBurst l)) #
                    (if limiterMaxKeys div limiterShards \<le> length s then evictLocked R now (rlBurst l) s else s));
          (lim, ok) = AllowNow R (the (map_of s1 key)) now
      in (l\<lparr>rlShards := (rlShards l)[i := AList.update key lim s1]\<rparr>, ok))"

text \<open>The burst of \<^verbatim>\<open>rateLimitMiddleware\<close>: \<^verbatim>\<open>int(math.Ceil(rps))\<close> when it is not given, and at least one.\<close>

fun f_ceil :: "float64 \<Rightarrow> float64" where
  "f_ceil (Fin q) = Fin (of_int \<lceil>q\<rceil>)"
| "f_ceil x = x"

definition limiter_burst :: "float64 \<Rightarrow> int \<Rightarrow> int" where
  "limiter_burst rps burst =
     (if burst \<le> 0 then (let b = f_to_int64 (f_ceil rps) in if b < 1 then 1 else b) else burst)"

text \<open>The state of a limited handler is the limiter and the state behind it; \<open>now\<close> is the clock.\<close>

definition rateLimitMiddleware ::
  "'l rate_lib \<Rightarrow> float64 \<Rightarrow> (server_request \<Rightarrow> string) \<Rightarrow> go_time \<Rightarrow> ('l remote_limiter \<times> 's) http_handler
     \<Rightarrow> ('l remote_limiter \<times> 's) http_handler" where
  "rateLimitMiddleware R rps keyFn now next r st =
     (if f_le rps (Fin 0) then next r st
      else case allow R now (keyFn r) (fst st) of
             (l1, False) \<Rightarrow> ((l1, snd st), Some (http_Error ''rate limit exceeded'' 429))
           | (l1, True) \<Rightarrow> next r (l1, snd st))"

text \<open>\<open>splitHostPort\<close> is \<^verbatim>\<open>net.SplitHostPort\<close>.\<close>

definition remoteIPKey :: "(string \<Rightarrow> (string \<times> string) result) \<Rightarrow> server_request \<Rightarrow> string" where
  "remoteIPKey splitHostPort r =
     (case splitHostPort (srRemoteAddr r) of Inl e \<Rightarrow> srRemoteAddr r | Inr (host, _) \<Rightarrow> host)"

definition certCNKey :: "(string \<Rightarrow> (string \<times> string) result) \<Rightarrow> server_request \<Rightarrow> string" where
  "certCNKey splitHostPort r =
     (case srVerifiedChains r of Some ((cn # _) # _) \<Rightarrow> cn | _ \<Rightarrow> remoteIPKey splitHostPort r)"


section \<open>The servers\<close>

definition DefaultConnectionAddr :: string where "DefaultConnectionAddr = '':9443''"
definition DefaultAttestationAddr :: string where "DefaultAttestationAddr = '':9442''"
definition DefaultOpsAddr :: string where "DefaultOpsAddr = '':8080''"
definition DefaultTimeout :: duration where "DefaultTimeout = 5 * second"
definition DefaultMaxBodyBytes :: int where "DefaultMaxBodyBytes = 32 * 2 ^ 20"
definition DefaultIdleTimeout :: duration where "DefaultIdleTimeout = 60 * second"
definition DefaultMaxHeaderBytes :: int where "DefaultMaxHeaderBytes = 64 * 2 ^ 10"

record connection_config =
  ccAddr :: string
  TLSCertFile :: string
  TLSKeyFile :: string
  ClientCAFiles :: "string list"
  ccTimeout :: duration
  ccMaxBodyBytes :: int
  ccRateLimitRPS :: float64
  ccRateLimitBurst :: int

record attestation_config =
  acAddr :: string
  TokenExchangeIssuer :: string
  TokenExchangeKeySetURL :: string
  acTimeout :: duration
  acMaxBodyBytes :: int
  acRateLimitRPS :: float64
  acRateLimitBurst :: int

text \<open>A pool of certificates is the list of what was appended to it.\<close>

record 'c tls_ops =
  LoadX509KeyPair :: "string \<Rightarrow> string \<Rightarrow> 'c result"
  ReadFile :: "string \<Rightarrow> bytes result"
  CertsFromPEM :: "bytes \<Rightarrow> string list"

datatype client_auth = NoClientCert | RequireAndVerifyClientCert

record 'c tls_config =
  Certificates :: "'c list"
  ClientAuth :: client_auth
  ClientCAs :: "string list"

record ('c, 's) http_server =
  srvAddr :: string
  srvHandler :: "go_time \<Rightarrow> 's http_handler"
  srvTLS :: "'c tls_config option"
  ReadTimeout :: duration
  ReadHeaderTimeout :: duration
  WriteTimeout :: duration
  IdleTimeout :: duration
  srvMaxHeaderBytes :: int

text \<open>The handler behind the limiter, and the state of a server: the limiter, the state of the handler
  and the count of recovered panics.\<close>

definition behind_limiter :: "'s http_handler \<Rightarrow> ('l remote_limiter \<times> 's) http_handler" where
  "behind_limiter h r st = (case h r (snd st) of (s1, resp) \<Rightarrow> ((fst st, s1), resp))"

definition behind_recover :: "'s http_handler \<Rightarrow> ('s \<times> nat) http_handler" where
  "behind_recover h r st = (case h r (fst st) of (s1, resp) \<Rightarrow> ((s1, snd st), resp))"

type_synonym ('l, 's) server_state = "('l remote_limiter \<times> 's) \<times> nat"

definition or_default_pos :: "int \<Rightarrow> int \<Rightarrow> int" where
  "or_default_pos x dflt = (if x \<le> 0 then dflt else x)"

definition connection_stack ::
  "'l rate_lib \<Rightarrow> (string \<Rightarrow> (string \<times> string) result) \<Rightarrow> connection_config \<Rightarrow> 's http_handler \<Rightarrow> go_time
     \<Rightarrow> ('l, 's) server_state http_handler" where
  "connection_stack R split_hp cfg handler now =
     recoverMiddleware (behind_recover
       (rateLimitMiddleware R (ccRateLimitRPS cfg) (certCNKey split_hp) now
         (behind_limiter (maxBytesMiddleware (ccMaxBodyBytes cfg) (certSourceHandler handler)))))"

fun load_cas :: "'c tls_ops \<Rightarrow> string list \<Rightarrow> string list \<Rightarrow> string list result" where
  "load_cas T [] pool = Inr pool"
| "load_cas T (caFile # files) pool =
     (case ReadFile T caFile of
        Inl e \<Rightarrow> Inl (errorf (''reading client CA file '' @ caFile @ '': '') e '''')
      | Inr pem \<Rightarrow>
          if CertsFromPEM T pem = [] then Inl (errors_new (''no client CA certificates found in '' @ caFile))
          else load_cas T files (pool @ CertsFromPEM T pem))"

definition NewConnectionServer ::
  "'c tls_ops \<Rightarrow> 'l rate_lib \<Rightarrow> (string \<Rightarrow> (string \<times> string) result) \<Rightarrow> connection_config \<Rightarrow> 's http_handler
     \<Rightarrow> ('c, ('l, 's) server_state) http_server result" where
  "NewConnectionServer T R split_hp cfg0 handler =
     (let cfg = cfg0\<lparr>ccAddr := (if ccAddr cfg0 = [] then DefaultConnectionAddr else ccAddr cfg0),
                     ccTimeout := or_default_pos (ccTimeout cfg0) DefaultTimeout,
                     ccMaxBodyBytes := or_default_pos (ccMaxBodyBytes cfg0) DefaultMaxBodyBytes\<rparr>
      in case LoadX509KeyPair T (TLSCertFile cfg) (TLSKeyFile cfg) of
           Inl e \<Rightarrow> Inl (errorf ''loading server key pair: '' e '''')
         | Inr cert \<Rightarrow>
             if ClientCAFiles cfg = [] then Inl (errors_new ''at least one client CA file is required for mutual TLS'')
             else case load_cas T (ClientCAFiles cfg) [] of
                    Inl e \<Rightarrow> Inl e
                  | Inr caPool \<Rightarrow>
                      Inr \<lparr>srvAddr = ccAddr cfg, srvHandler = connection_stack R split_hp cfg handler,
                           srvTLS = Some \<lparr>Certificates = [cert], ClientAuth = RequireAndVerifyClientCert, ClientCAs = caPool\<rparr>,
                           ReadTimeout = ccTimeout cfg, ReadHeaderTimeout = ccTimeout cfg, WriteTimeout = ccTimeout cfg,
                           IdleTimeout = DefaultIdleTimeout, srvMaxHeaderBytes = DefaultMaxHeaderBytes\<rparr>)"

definition attestation_stack ::
  "'l rate_lib \<Rightarrow> (string \<Rightarrow> (string \<times> string) result) \<Rightarrow> attestation_config \<Rightarrow> (server_request \<Rightarrow> string result)
     \<Rightarrow> 's http_handler \<Rightarrow> go_time \<Rightarrow> ('l, 's) server_state http_handler" where
  "attestation_stack R split_hp cfg auth handler now =
     recoverMiddleware (behind_recover
       (rateLimitMiddleware R (acRateLimitRPS cfg) (remoteIPKey split_hp) now
         (behind_limiter (maxBytesMiddleware (acMaxBodyBytes cfg) (authHandler auth handler)))))"

definition NewAttestationServer ::
  "ce_lib \<Rightarrow> 'k jwt_lib \<Rightarrow> 'l rate_lib \<Rightarrow> (string \<Rightarrow> (string \<times> string) result) \<Rightarrow> attestation_config \<Rightarrow> 's http_handler
     \<Rightarrow> (unit, ('l, 's) server_state) http_server result" where
  "NewAttestationServer L J R split_hp cfg0 handler =
     (let cfg = cfg0\<lparr>acAddr := (if acAddr cfg0 = [] then DefaultAttestationAddr else acAddr cfg0),
                     acTimeout := or_default_pos (acTimeout cfg0) DefaultTimeout,
                     acMaxBodyBytes := or_default_pos (acMaxBodyBytes cfg0) DefaultMaxBodyBytes\<rparr>
      in case newAttestationAuth L J (TokenExchangeIssuer cfg) (TokenExchangeKeySetURL cfg) of
           Inl e \<Rightarrow> Inl (errorf ''building attestation auth: '' e '''')
         | Inr auth \<Rightarrow>
             Inr \<lparr>srvAddr = acAddr cfg, srvHandler = attestation_stack R split_hp cfg auth handler, srvTLS = None,
                  ReadTimeout = acTimeout cfg, ReadHeaderTimeout = acTimeout cfg, WriteTimeout = acTimeout cfg,
                  IdleTimeout = DefaultIdleTimeout, srvMaxHeaderBytes = DefaultMaxHeaderBytes\<rparr>)"

text \<open>The limiter each server starts with.\<close>

definition init_limiter :: "float64 \<Rightarrow> int \<Rightarrow> 'l remote_limiter" where
  "init_limiter rps burst = newRemoteLimiter rps (limiter_burst rps burst)"

text \<open>The operational server: the paths it knows and their responses; \<open>ready\<close> is the gate, if there is
  one, and \<open>metrics\<close> the handler of the metrics package.\<close>

definition ops_ok :: http_response where
  "ops_ok = \<lparr>status = 200, respBody = ''ok'', respHeaders = []\<rparr>"

definition ops_handler :: "(unit \<Rightarrow> bool) option \<Rightarrow> http_response \<Rightarrow> string \<Rightarrow> http_response" where
  "ops_handler ready metrics path =
     (if path = ''/ping'' then ops_ok
      else if path = ''/ready''
      then (case ready of
              None \<Rightarrow> ops_ok
            | Some f \<Rightarrow> if \<not> f () then http_Error ''not ready'' 503 else ops_ok)
      else if path = ''/metrics'' then metrics
      else http_Error ''404 page not found'' 404)"

text \<open>The ingest handlers behind the middleware.\<close>

definition ingest_handler ::
  "(http_request \<Rightarrow> 's \<Rightarrow> 's \<times> http_response option) \<Rightarrow> 's http_handler" where
  "ingest_handler h r s = h \<lparr>reqSource = SourceFromContext r, reqBody = read_body r\<rparr> s"



section \<open>What a stack of middleware does\<close>

text \<open>A request reaches the ingest handler only with an identity, as a POST and within its rate, and then
  with that identity and a bounded body; every request is answered.\<close>

definition gate ::
  "string option \<Rightarrow> bool \<Rightarrow> int \<Rightarrow> (http_request \<Rightarrow> 's \<Rightarrow> 's \<times> http_response option) \<Rightarrow> server_request \<Rightarrow> 's \<Rightarrow> 's \<Rightarrow> http_response \<Rightarrow> bool" where
  "gate who allowed limit h r s s' resp \<longleftrightarrow>
     (s' = s \<and> status resp \<in> {401, 405, 429}) \<or>
     (\<exists>src body out. who = Some src \<and> srMethod r = ''POST'' \<and> allowed \<and>
        (\<forall>b. body = Inr b \<longrightarrow> int (length b) \<le> limit \<and> srBody r = Some b) \<and>
        h \<lparr>reqSource = Some src, reqBody = body\<rparr> s = (s', out) \<and>
        resp = (case out of Some x \<Rightarrow> x | None \<Rightarrow> http_Error ''internal server error'' 500))"

text \<open>An authenticating middleware: it finds the identity of a request, or answers 401.\<close>

locale authenticator =
  fixes auth :: "'a \<Rightarrow> 's http_handler \<Rightarrow> 's http_handler"
    and ident :: "'a \<Rightarrow> server_request \<Rightarrow> string option"
  assumes auth_none: "ident a r = None \<Longrightarrow> \<exists>resp. auth a next r s = (s, Some resp) \<and> status resp = 401"
    and auth_some: "ident a r = Some src \<Longrightarrow> auth a next r s = next (WithSource src r) s"
    and ident_limit: "ident a (r\<lparr>srLimit := b\<rparr>) = ident a r"
begin

lemma inner_gate:
  assumes "maxBytesMiddleware limit (auth a (postOnly (ingest_handler h))) r s = (s', out)"
  shows "gate (ident a r) True limit h r s s' (case out of Some x \<Rightarrow> x | None \<Rightarrow> http_Error ''internal server error'' 500)"
proof -
  let ?r = "if srBody r \<noteq> None then r\<lparr>srLimit := Some limit\<rparr> else r"
  have idr: "ident a ?r = ident a r" by (simp add: ident_limit)
  have run: "auth a (postOnly (ingest_handler h)) ?r s = (s', out)"
    using assms by (simp add: maxBytesMiddleware_def)
  show ?thesis
  proof (cases "ident a r")
    case None
    with auth_none [of a ?r "postOnly (ingest_handler h)" s] idr run show ?thesis by (auto simp: gate_def)
  next
    case (Some src)
    with auth_some [of a ?r src] idr run have p: "postOnly (ingest_handler h) (WithSource src ?r) s = (s', out)" by simp
    show ?thesis
    proof (cases "srMethod r = ''POST''")
      case False
      with p show ?thesis by (auto simp: gate_def postOnly_def WithSource_def http_Error_def split: if_splits)
    next
      case True
      let ?b = "read_body (WithSource src ?r)"
      have "h \<lparr>reqSource = Some src, reqBody = ?b\<rparr> s = (s', out)"
        using p True by (simp add: postOnly_def ingest_handler_def SourceFromContext_def WithSource_def split: if_splits)
      moreover have "?b = Inr b \<Longrightarrow> int (length b) \<le> limit \<and> srBody r = Some b" for b
        by (cases "srBody r") (auto simp: read_body_def WithSource_def split: if_splits)
      ultimately show ?thesis using Some True unfolding gate_def by blast
    qed
  qed
qed

lemma stack_gate:
  assumes "recoverMiddleware (behind_recover (rateLimitMiddleware R rps keyFn now
      (behind_limiter (maxBytesMiddleware limit (auth a (postOnly (ingest_handler h))))))) r ((l, s), n) = (((l', s'), n'), out)"
  shows "\<exists>resp. out = Some resp \<and> gate (ident a r) (f_le rps (Fin 0) \<or> snd (allow R now (keyFn r) l)) limit h r s s' resp"
proof -
  let ?in = "maxBytesMiddleware limit (auth a (postOnly (ingest_handler h)))"
  obtain s1 out1 where i: "?in r s = (s1, out1)" by (cases "?in r s")
  obtain l1 ok where al: "allow R now (keyFn r) l = (l1, ok)" by (cases "allow R now (keyFn r) l")
  note g = inner_gate [OF i]
  show ?thesis
  proof (cases "f_le rps (Fin 0) \<or> ok")
    case False
    with assms al have "out = Some (http_Error ''rate limit exceeded'' 429)" "s' = s"
      by (auto simp: recoverMiddleware_def behind_recover_def rateLimitMiddleware_def)
    then show ?thesis by (simp add: gate_def http_Error_def)
  next
    case True
    have "rateLimitMiddleware R rps keyFn now (behind_limiter ?in) r (l, s) = ((if f_le rps (Fin 0) then l else l1, s1), out1)"
      using True al i by (auto simp: rateLimitMiddleware_def behind_limiter_def)
    then have "behind_recover (rateLimitMiddleware R rps keyFn now (behind_limiter ?in)) r ((l, s), n) =
        (((if f_le rps (Fin 0) then l else l1, s1), n), out1)" by (simp add: behind_recover_def)
    note run = assms [unfolded recoverMiddleware_def this]
    have "out = Some (case out1 of Some x \<Rightarrow> x | None \<Rightarrow> http_Error ''internal server error'' 500) \<and> s' = s1"
      using run by (cases out1) auto
    with g True al show ?thesis by (auto simp: gate_def)
  qed
qed

end


definition leaf_cn :: "server_request \<Rightarrow> string option" where
  "leaf_cn r = (case srVerifiedChains r of Some ((cn # _) # _) \<Rightarrow> Some cn | _ \<Rightarrow> None)"

definition token_source :: "ce_lib \<times> 'k jwt_lib \<times> string \<times> 'k \<Rightarrow> server_request \<Rightarrow> string option" where
  "token_source a r = (case a of (L, J, issuer, keys) \<Rightarrow> (case attestation_auth L J issuer keys r of Inl _ \<Rightarrow> None | Inr src \<Rightarrow> Some src))"

interpretation cert: authenticator "\<lambda>u :: unit. certSourceHandler" "\<lambda>u. leaf_cn"
  by unfold_locales
    (auto simp: certSourceHandler_def leaf_cn_def http_Error_def split: option.splits list.splits)

interpretation token: authenticator "\<lambda>(L, J, issuer, keys). authHandler (attestation_auth L J issuer keys)" token_source
  by unfold_locales
    (auto simp: authHandler_def token_source_def attestation_auth_def http_Error_def split: sum.splits prod.splits)

lemma load_cas_nonempty: "load_cas T files pool = Inr pool' \<Longrightarrow> files \<noteq> [] \<or> pool \<noteq> [] \<Longrightarrow> pool' \<noteq> []"
  by (induction T files pool rule: load_cas.induct) (auto split: sum.splits if_splits)

section \<open>The limiter's table\<close>

definition shard_ok :: "(string \<times> 'l) list \<Rightarrow> bool" where
  "shard_ok s \<longleftrightarrow> length s \<le> limiterMaxKeys div limiterShards \<and> distinct (map fst s)"

definition limiter_ok :: "'l remote_limiter \<Rightarrow> bool" where
  "limiter_ok l \<longleftrightarrow> length (rlShards l) = limiterShards \<and> list_all shard_ok (rlShards l)"

lemma limiter_ok_new: "limiter_ok (newRemoteLimiter rps burst)"
  by (simp add: limiter_ok_def newRemoteLimiter_def shard_ok_def list_all_iff limiterShards_def)

lemma evictLocked_shrinks:
  assumes "shard_ok s"
  shows "length (evictLocked R now burst s) < limiterMaxKeys div limiterShards"
    and "set (evictLocked R now burst s) \<subseteq> set s" and "distinct (map fst (evictLocked R now burst s))"
proof -
  let ?hot = "filter (\<lambda>(key, b). \<not> f_le (Fin (of_int burst)) (Tokens R b now)) s"
  have n: "limiterMaxKeys div limiterShards = 1562" by (simp add: limiterMaxKeys_def limiterShards_def)
  have "length s \<le> 1562" using assms by (simp add: shard_ok_def n)
  then have "length ?hot \<le> 1562" by (rule order_trans [OF length_filter_le])
  then show "length (evictLocked R now burst s) < limiterMaxKeys div limiterShards"
    by (simp add: evictLocked_def Let_def n) arith
  have "set (drop k ?hot) \<subseteq> set s" for k using set_drop_subset [of k ?hot] by auto
  moreover have "distinct (map fst (drop k ?hot))" for k
    using assms by (simp add: shard_ok_def drop_map [symmetric] distinct_map_filter)
  ultimately show "set (evictLocked R now burst s) \<subseteq> set s" "distinct (map fst (evictLocked R now burst s))"
    by (simp_all add: evictLocked_def Let_def) (metis drop0)+
qed

lemma length_update_mem: "k \<in> fst ` set xs \<Longrightarrow> length (AList.update k v xs) = length xs"
  by (induction xs) auto

lemma allow_keeps: "limiter_ok l \<Longrightarrow> limiter_ok (fst (allow R now key l))"
proof -
  assume ok: "limiter_ok l"
  let ?i = "shard key" and ?s = "rlShards l ! shard key"
  have i: "?i < length (rlShards l)" using ok by (simp add: limiter_ok_def shard_def limiterShards_def)
  then have s: "shard_ok ?s" using ok by (simp add: limiter_ok_def list_all_length)
  define s1 where "s1 = (case map_of ?s key of Some _ \<Rightarrow> ?s
      | None \<Rightarrow> (key, NewLimiter R (rlRPS l) (rlBurst l)) #
          (if limiterMaxKeys div limiterShards \<le> length ?s then evictLocked R now (rlBurst l) ?s else ?s))"
  have s1: "shard_ok s1 \<and> key \<in> fst ` set s1"
  proof (cases "map_of ?s key")
    case None
    then have "key \<notin> fst ` set ?s" by (simp add: map_of_eq_None_iff)
    with s evictLocked_shrinks [OF s, of R now "rlBurst l"] None show ?thesis
      by (auto simp: s1_def shard_ok_def)
  next
    case (Some x)
    then show ?thesis using s by (auto simp: s1_def dest: map_of_SomeD intro: image_eqI [rotated])
  qed
  obtain b r where u: "AllowNow R (the (map_of s1 key)) now = (b, r)" by (cases "AllowNow R (the (map_of s1 key)) now")
  have "shard_ok (AList.update key b s1)"
    using s1 by (simp add: shard_ok_def length_update_mem distinct_update)
  with ok i u show ?thesis
    by (simp add: allow_def Let_def s1_def [symmetric] limiter_ok_def list_all_length nth_list_update)
qed


end
