(* ===== verification/Fslist.thy ===== *)
theory Fslist
  imports Fsstore "HOL-Library.List_Lexorder" "HOL-Library.Char_ord"
begin

text \<open>
  The listing of \<^verbatim>\<open>internal/fsstore/fsstore.go\<close>: \<^verbatim>\<open>ListObjectsV2\<close> over \<^verbatim>\<open>filepath.WalkDir\<close>, from the deepest
  directory the prefix names. A directory tree is what one walk sees: an entry that cannot
  be read carries the error of its call, one deleted meanwhile the error that it does not
  exist. \<^verbatim>\<open>WalkDir\<close>, \<^verbatim>\<open>Rel\<close> and \<^verbatim>\<open>path.Split\<close> are computed as the standard library does for cleaned
  absolute paths. The reference is the plain list of the visible files below the root.
\<close>

section \<open>The tree\<close>

record object_info =
  oiKey :: string
  oiSize :: int

text \<open>A file has the result of \<^verbatim>\<open>DirEntry.Info\<close>, a directory the error of \<^verbatim>\<open>ReadDir\<close>, if any, and the
  entries read, in their order.\<close>

datatype fs_tree = FsFile "int result" | FsDir "go_error option" fs_entries
  and fs_entries = NoEntry | Entry string fs_tree fs_entries

datatype walk_act = WalkOn | SkipDir | WalkErr go_error

fun is_dir :: "fs_tree \<Rightarrow> bool" where
  "is_dir (FsDir _ _) = True"
| "is_dir (FsFile _) = False"

section \<open>The walk\<close>

definition path_dir :: "string \<Rightarrow> string" where
  "path_dir p = rev (dropWhile (\<lambda>c. c \<noteq> CHR ''/'') (rev p))"

fun common_len :: "string list \<Rightarrow> string list \<Rightarrow> nat" where
  "common_len (x # xs) (y # ys) = (if x = y then Suc (common_len xs ys) else 0)"
| "common_len _ _ = 0"

definition filepath_Rel :: "string \<Rightarrow> string \<Rightarrow> string" where
  "filepath_Rel base targ =
     (let b = clean_comps base; t = clean_comps targ; n = common_len b t
      in if b = t then ''.'' else intercalate ''/'' (replicate (length b - n) ''..'' @ drop n t))"

definition base_name :: "string \<Rightarrow> string" where
  "base_name p = (if clean_comps p = [] then ''/'' else last (clean_comps p))"

type_synonym 's walk_fn = "string \<Rightarrow> string \<Rightarrow> fs_tree \<Rightarrow> go_error option \<Rightarrow> 's \<Rightarrow> 's \<times> walk_act"

fun walk_dir :: "'s walk_fn \<Rightarrow> string \<Rightarrow> string \<Rightarrow> fs_tree \<Rightarrow> 's \<Rightarrow> 's \<times> walk_act"
  and walk_entries :: "'s walk_fn \<Rightarrow> string \<Rightarrow> fs_entries \<Rightarrow> 's \<Rightarrow> 's \<times> walk_act" where
  "walk_dir fn path name (FsFile info) s = fn path name (FsFile info) None s"
| "walk_dir fn path name (FsDir rerr es) s =
     (case fn path name (FsDir rerr es) None s of
        (s1, SkipDir) \<Rightarrow> (s1, WalkOn)
      | (s1, WalkErr e) \<Rightarrow> (s1, WalkErr e)
      | (s1, WalkOn) \<Rightarrow>
          (case (case rerr of None \<Rightarrow> (s1, WalkOn) | Some e \<Rightarrow> fn path name (FsDir rerr es) (Some e) s1) of
             (s2, SkipDir) \<Rightarrow> (s2, WalkOn)
           | (s2, WalkErr e) \<Rightarrow> (s2, WalkErr e)
           | (s2, WalkOn) \<Rightarrow> walk_entries fn path es s2))"
| "walk_entries fn path NoEntry s = (s, WalkOn)"
| "walk_entries fn path (Entry name t es) s =
     (case walk_dir fn (filepath_Join path name) name t s of
        (s1, SkipDir) \<Rightarrow> (s1, WalkOn)
      | (s1, WalkErr e) \<Rightarrow> (s1, WalkErr e)
      | (s1, WalkOn) \<Rightarrow> walk_entries fn path es s1)"

definition WalkDir :: "(string \<Rightarrow> fs_tree result) \<Rightarrow> 's walk_fn \<Rightarrow> string \<Rightarrow> 's \<Rightarrow> 's \<times> go_error option" where
  "WalkDir lstat fn root s =
     (case (case lstat root of
              Inl e \<Rightarrow> fn root [] (FsFile (Inl e)) (Some e) s
            | Inr t \<Rightarrow> walk_dir fn root (base_name root) t s) of
        (s1, WalkErr e) \<Rightarrow> (s1, Some e)
      | (s1, _) \<Rightarrow> (s1, None))"

section \<open>ListObjectsV2\<close>

definition list_visit :: "string \<Rightarrow> string \<Rightarrow> object_info list walk_fn" where
  "list_visit root prefix p name t err out =
     (case err of
        Some e \<Rightarrow> if errors_is e ErrNotExist then (out, WalkOn) else (out, WalkErr e)
      | None \<Rightarrow>
          if has_prefix name ''.'' then (out, if is_dir t then SkipDir else WalkOn)
          else case t of
            FsDir _ _ \<Rightarrow> (out, WalkOn)
          | FsFile info \<Rightarrow>
              let key = filepath_Rel root p
              in if \<not> has_prefix key prefix then (out, WalkOn)
                 else case info of
                   Inl e \<Rightarrow> if errors_is e ErrNotExist then (out, WalkOn) else (out, WalkErr e)
                 | Inr n \<Rightarrow> (out @ [\<lparr>oiKey = key, oiSize = n\<rparr>], WalkOn))"

definition ListObjectsV2 :: "(string \<Rightarrow> fs_tree result) \<Rightarrow> 'o fs_client \<Rightarrow> string \<Rightarrow> object_info list result" where
  "ListObjectsV2 lstat c prefix =
     (case WalkDir lstat (list_visit (fs_root c) prefix) (filepath_Join (fs_root c) (path_dir prefix)) [] of
        (out, Some e) \<Rightarrow> Inl (errorf (''listing '' @ prefix @ '': '') e '''')
      | (out, None) \<Rightarrow> Inr (sort_key oiKey out))"

section \<open>The reference\<close>

definition hidden :: "string \<Rightarrow> bool" where
  "hidden name \<longleftrightarrow> has_prefix name ''.''"

text \<open>The visible files, each with its components below the root and its size.\<close>

fun visible :: "string list \<Rightarrow> fs_tree \<Rightarrow> (string list \<times> int) list"
  and visible_in :: "string list \<Rightarrow> fs_entries \<Rightarrow> (string list \<times> int) list" where
  "visible cs (FsFile (Inl e)) = []"
| "visible cs (FsFile (Inr n)) = [(cs, n)]"
| "visible cs (FsDir rerr es) = visible_in cs es"
| "visible_in cs NoEntry = []"
| "visible_in cs (Entry name t es) = (if hidden name then [] else visible (cs @ [name]) t) @ visible_in cs es"

definition object_of :: "string list \<times> int \<Rightarrow> object_info" where
  "object_of x = \<lparr>oiKey = intercalate ''/'' (fst x), oiSize = snd x\<rparr>"

definition list_spec :: "fs_tree \<Rightarrow> string \<Rightarrow> object_info list" where
  "list_spec t prefix = sort_key oiKey (filter (\<lambda>x. has_prefix (oiKey x) prefix) (map object_of (visible [] t)))"

text \<open>A tree as an operating system has it: names are not empty, have no slash and are not one of the dot
  names, the names in a directory differ, and nothing but a deletion went wrong.\<close>

definition good_name :: "string \<Rightarrow> bool" where
  "good_name n \<longleftrightarrow> n \<noteq> [] \<and> CHR ''/'' \<notin> set n \<and> n \<noteq> ''.'' \<and> n \<noteq> ''..''"

definition gone_only :: "go_error option \<Rightarrow> bool" where
  "gone_only r \<longleftrightarrow> (\<forall>e. r = Some e \<longrightarrow> errors_is e ErrNotExist)"

fun entry_names :: "fs_entries \<Rightarrow> string list" where
  "entry_names NoEntry = []"
| "entry_names (Entry name t es) = name # entry_names es"

fun wf_tree :: "fs_tree \<Rightarrow> bool" and wf_entries :: "fs_entries \<Rightarrow> bool" where
  "wf_tree (FsFile info) \<longleftrightarrow> gone_only (case info of Inl e \<Rightarrow> Some e | Inr _ \<Rightarrow> None)"
| "wf_tree (FsDir rerr es) \<longleftrightarrow> gone_only rerr \<and> distinct (entry_names es) \<and> wf_entries es"
| "wf_entries NoEntry \<longleftrightarrow> True"
| "wf_entries (Entry name t es) \<longleftrightarrow> good_name name \<and> wf_tree t \<and> wf_entries es"

section \<open>Paths\<close>

lemma split_on_parts: "x \<in> set (split_on c s) \<Longrightarrow> c \<notin> set x"
  by (induction s arbitrary: x) (auto split: list.splits if_splits)

lemma split_on_intercalate:
  "xs \<noteq> [] \<Longrightarrow> (\<And>x. x \<in> set xs \<Longrightarrow> c \<notin> set x) \<Longrightarrow> split_on c (intercalate [c] xs) = xs"
  by (induction "[c]" xs rule: intercalate.induct) (auto simp: split_on_no_sep split_on_append_sep)

lemma foldl_clean_good: "list_all good_name cs \<Longrightarrow> foldl clean_step acc cs = acc @ cs"
  by (induction cs arbitrary: acc) (auto simp: clean_step_def good_name_def)

lemma clean_rooted: "list_all good_name cs \<Longrightarrow> clean_comps (rooted cs) = cs"
proof (cases cs)
  case (Cons x xs)
  moreover assume g: "list_all good_name cs"
  ultimately have "split_on CHR ''/'' (intercalate ''/'' cs) = cs"
    by (intro split_on_intercalate) (auto simp: list_all_iff good_name_def)
  then show ?thesis using foldl_clean_good [OF g] by (simp add: clean_comps_def rooted_def clean_step_def)
qed (simp add: clean_comps_def rooted_def clean_step_def)

lemma foldl_clean_keeps:
  "list_all good_name acc \<Longrightarrow> (\<And>x. x \<in> set cs \<Longrightarrow> CHR ''/'' \<notin> set x) \<Longrightarrow> list_all good_name (foldl clean_step acc cs)"
proof (induction cs arbitrary: acc)
  case (Cons c cs)
  have "list_all good_name (butlast acc)" using Cons.prems(1) by (auto simp: list_all_iff dest: in_set_butlastD)
  moreover have "good_name c" if "c \<noteq> []" "c \<noteq> ''.''" "c \<noteq> ''..''" using Cons.prems(2) [of c] that by (simp add: good_name_def)
  ultimately have "list_all good_name (clean_step acc c)"
    using Cons.prems(1) by (simp add: clean_step_def)
  with Cons show ?case by simp
qed simp

lemma clean_comps_good: "list_all good_name (clean_comps p)"
  unfolding clean_comps_def by (rule foldl_clean_keeps) (auto dest: split_on_parts)

lemma join_rooted:
  assumes "list_all good_name cs" "list_all good_name ds" "ds \<noteq> []"
  shows "filepath_Join (rooted cs) (intercalate ''/'' ds) = rooted (cs @ ds)"
proof -
  have s: "split_on CHR ''/'' (intercalate ''/'' ds) = ds"
    using assms(2,3) by (intro split_on_intercalate) (auto simp: list_all_iff good_name_def)
  have n: "intercalate ''/'' ds \<noteq> []"
    using assms(2) s by (metis assms(3) good_name_def list.pred_inject(2) split_on.simps(1))
  have "clean_comps (rooted cs @ ''/'' @ intercalate ''/'' ds) = foldl clean_step (clean_comps (rooted cs)) ds"
    using split_on_append_slash [of "CHR ''/''" "rooted cs"] s by (simp add: clean_comps_def)
  then show ?thesis using n by (simp add: filepath_Join_def clean_rooted [OF assms(1)] foldl_clean_good [OF assms(2)])
qed

lemma common_len_append: "common_len xs (xs @ ys) = length xs"
  by (induction xs) (auto elim: common_len.elims)

lemma rel_rooted:
  assumes "list_all good_name cs" "cs \<noteq> []"
  shows "filepath_Rel root (rooted (clean_comps root @ cs)) = intercalate ''/'' cs"
proof -
  have "clean_comps (rooted (clean_comps root @ cs)) = clean_comps root @ cs"
    using clean_comps_good assms(1) by (intro clean_rooted) simp
  then show ?thesis using assms(2) by (simp add: filepath_Rel_def Let_def common_len_append)
qed

section \<open>The walk below a directory\<close>

abbreviation picked :: "string \<Rightarrow> (string list \<times> int) list \<Rightarrow> object_info list" where
  "picked prefix xs \<equiv> filter (\<lambda>x. has_prefix (oiKey x) prefix) (map object_of xs)"

lemma walk_visible:
  fixes t :: fs_tree and es :: fs_entries
  assumes "list_all good_name cs"
  shows "wf_tree t \<Longrightarrow> \<not> hidden name \<Longrightarrow> (cs = [] \<longrightarrow> is_dir t) \<Longrightarrow>
      walk_dir (list_visit root prefix) (rooted (clean_comps root @ cs)) name t out = (out @ picked prefix (visible cs t), WalkOn)"
    and "wf_entries es \<Longrightarrow>
      walk_entries (list_visit root prefix) (rooted (clean_comps root @ cs)) es out = (out @ picked prefix (visible_in cs es), WalkOn)"
  using assms
proof (induction t and es arbitrary: cs name out and cs out)
  case (FsFile info)
  then have "filepath_Rel root (rooted (clean_comps root @ cs)) = intercalate ''/'' cs" by (simp add: rel_rooted)
  with FsFile show ?case
    by (cases info) (auto simp: list_visit_def hidden_def gone_only_def object_of_def Let_def)
next
  case (FsDir rerr es)
  then have "list_visit root prefix p name (FsDir rerr es) None out = (out, WalkOn)"
    "rerr = Some e \<Longrightarrow> list_visit root prefix p name (FsDir rerr es) (Some e) out = (out, WalkOn)" for p e
    by (auto simp: list_visit_def hidden_def gone_only_def)
  with FsDir show ?case by (cases rerr) simp_all
next
  case NoEntry
  then show ?case by simp
next
  case (Entry name t es)
  have j: "filepath_Join (rooted (clean_comps root @ cs)) name = rooted (clean_comps root @ cs @ [name])"
    using join_rooted [of "clean_comps root @ cs" "[name]"] clean_comps_good Entry.prems by simp
  show ?case
  proof (cases "hidden name")
    case True
    have "walk_dir (list_visit root prefix) p name t out = (out, WalkOn)" for p
      using True by (cases t) (simp_all add: list_visit_def hidden_def)
    with True Entry j show ?thesis by simp
  next
    case False
    have "list_all good_name (cs @ [name])" using Entry.prems by simp
    with Entry.IH(1) [of name "cs @ [name]" out] Entry.prems False
    have "walk_dir (list_visit root prefix) (rooted (clean_comps root @ cs @ [name])) name t out =
        (out @ picked prefix (visible (cs @ [name]) t), WalkOn)" by simp
    with Entry j False show ?thesis by simp
  qed
qed

section \<open>The directories a prefix names\<close>

fun at_path :: "string list \<Rightarrow> fs_tree \<Rightarrow> fs_tree option"
  and at_entries :: "string \<Rightarrow> string list \<Rightarrow> fs_entries \<Rightarrow> fs_tree option" where
  "at_path [] t = Some t"
| "at_path (d # ds) (FsFile info) = None"
| "at_path (d # ds) (FsDir rerr es) = at_entries d ds es"
| "at_entries d ds NoEntry = None"
| "at_entries d ds (Entry name t es) = (if name = d then at_path ds t else at_entries d ds es)"

definition below :: "string list \<Rightarrow> string list \<times> int \<Rightarrow> bool" where
  "below ds x \<longleftrightarrow> take (length ds) (fst x) = ds"

lemma visible_below:
  "wf_tree t \<Longrightarrow> x \<in> set (visible cs t) \<Longrightarrow> \<exists>ys. fst x = cs @ ys \<and> list_all good_name ys"
  "wf_entries es \<Longrightarrow> x \<in> set (visible_in cs es) \<Longrightarrow>
     \<exists>n ys. fst x = cs @ n # ys \<and> n \<in> set (entry_names es) \<and> list_all good_name (n # ys)"
proof (induction cs t and cs es rule: visible_visible_in.induct)
  case (5 cs name t es)
  then show ?case by (fastforce split: if_splits)
qed fastforce+

lemma filter_below_none:
  "wf_entries es \<Longrightarrow> d \<notin> set (entry_names es) \<Longrightarrow> filter (below (cs @ d # ds)) (visible_in cs es) = []"
  by (auto simp: filter_empty_conv below_def dest!: visible_below(2))

lemma filter_below:
  "wf_tree t \<Longrightarrow> list_all (\<lambda>d. \<not> hidden d) ds \<Longrightarrow>
     filter (below (cs @ ds)) (visible cs t) = (case at_path ds t of None \<Rightarrow> [] | Some u \<Rightarrow> visible (cs @ ds) u)"
  "wf_entries es \<Longrightarrow> distinct (entry_names es) \<Longrightarrow> list_all (\<lambda>d. \<not> hidden d) (d # ds) \<Longrightarrow>
     filter (below (cs @ d # ds)) (visible_in cs es) = (case at_entries d ds es of None \<Rightarrow> [] | Some u \<Rightarrow> visible (cs @ d # ds) u)"
proof (induction ds t and d ds es arbitrary: cs and cs rule: at_path_at_entries.induct)
  case (1 t)
  then show ?case by (auto simp: filter_id_conv below_def dest!: visible_below(1))
next
  case (2 d ds info)
  then show ?case by (cases info) (simp_all add: below_def)
next
  case (5 d ds name t es)
  show ?case
  proof (cases "name = d")
    case True
    then have "filter (below (cs @ d # ds)) (visible_in cs es) = []"
      using 5 by (intro filter_below_none) simp_all
    with True 5 "5.IH"(1) [OF True, of "cs @ [d]"] show ?thesis by (simp split: option.splits)
  next
    case False
    have "filter (below (cs @ d # ds)) (visible (cs @ [name]) t) = []"
      using 5 False by (auto simp: filter_empty_conv below_def dest!: visible_below(1))
    with False 5 show ?thesis by simp
  qed
qed simp_all

text \<open>A prefix as its directories and the rest after the last slash.\<close>

definition dirs_prefix :: "string list \<Rightarrow> string \<Rightarrow> string" where
  "dirs_prefix ds rest = concat (map (\<lambda>d. d @ ''/'') ds) @ rest"

lemma concat_slash: "ds \<noteq> [] \<Longrightarrow> concat (map (\<lambda>d. d @ ''/'') ds) = intercalate ''/'' ds @ ''/''"
  by (induction ds rule: induct_list012) auto

lemma path_dir_prefix: "CHR ''/'' \<notin> set rest \<Longrightarrow> path_dir (dirs_prefix ds rest) = concat (map (\<lambda>d. d @ ''/'') ds)"
proof (cases "ds = []")
  case False
  assume "CHR ''/'' \<notin> set rest"
  then have "dropWhile (\<lambda>c. c \<noteq> CHR ''/'') (rev rest @ xs) = dropWhile (\<lambda>c. c \<noteq> CHR ''/'') xs" for xs
    by (intro dropWhile_append2) auto
  with False show ?thesis by (simp add: path_dir_def dirs_prefix_def concat_slash)
qed (auto simp: path_dir_def dirs_prefix_def)

lemma has_prefix_cons_comp:
  assumes "CHR ''/'' \<notin> set x" "CHR ''/'' \<notin> set d"
  shows "has_prefix (x @ ''/'' @ r) (d @ ''/'' @ s) \<longleftrightarrow> x = d \<and> has_prefix r s"
proof -
  have "x = d \<and> (\<exists>q. r = s @ q)" if "x @ CHR ''/'' # r = d @ CHR ''/'' # s @ q" for q
    using that assms split_on_append_sep [of "CHR ''/''" x r] split_on_append_sep [of "CHR ''/''" d "s @ q"]
    by (metis append_same_eq list.inject same_append_eq)
  then show ?thesis by (auto simp: has_prefix_iff)
qed

lemma prefix_below:
  assumes "has_prefix (intercalate ''/'' xs) (dirs_prefix ds rest)" "list_all good_name xs" "list_all good_name ds"
  shows "take (length ds) xs = ds"
  using assms
proof (induction ds arbitrary: xs)
  case (Cons d ds)
  have d: "CHR ''/'' \<notin> set d" using Cons.prems by (simp add: good_name_def)
  consider "xs = []" | x where "xs = [x]" | x y ys where "xs = x # y # ys" by (metis list.exhaust)
  then show ?case
  proof cases
    case 1
    with Cons.prems show ?thesis by (simp add: dirs_prefix_def has_prefix_def)
  next
    case 2
    then have "CHR ''/'' \<notin> set x" using Cons.prems by (simp add: good_name_def)
    with 2 Cons.prems(1) show ?thesis by (auto simp: dirs_prefix_def has_prefix_iff)
  next
    case 3
    then have "CHR ''/'' \<notin> set x" using Cons.prems by (simp add: good_name_def)
    with has_prefix_cons_comp [OF this d] Cons 3 show ?thesis by (simp add: dirs_prefix_def)
  qed
qed simp

lemma picked_below:
  assumes "wf_tree t" "list_all good_name ds" "list_all (\<lambda>d. \<not> hidden d) ds"
  shows "picked (dirs_prefix ds rest) (visible [] t) =
    picked (dirs_prefix ds rest) (case at_path ds t of None \<Rightarrow> [] | Some u \<Rightarrow> visible ds u)"
proof -
  let ?P = "\<lambda>x. has_prefix (intercalate ''/'' (fst x)) (dirs_prefix ds rest)"
  have p: "picked (dirs_prefix ds rest) xs = map object_of (filter ?P xs)" for xs
    by (simp add: filter_map comp_def object_of_def)
  have "below ds x" if "x \<in> set (visible [] t)" "?P x" for x
    using prefix_below [OF that(2) _ assms(2)] visible_below(1) [OF assms(1) that(1)] by (auto simp: below_def)
  then have "filter ?P (visible [] t) = filter ?P (filter (below ds) (visible [] t))"
    by (auto intro: filter_cong)
  with filter_below(1) [OF assms(1,3), of "[]", unfolded append_Nil] p show ?thesis by simp
qed

section \<open>The listing\<close>

text \<open>What \<^verbatim>\<open>Lstat\<close> sees of the tree at the root.\<close>

definition sees :: "(string \<Rightarrow> fs_tree result) \<Rightarrow> string \<Rightarrow> fs_tree \<Rightarrow> bool" where
  "sees lstat root t \<longleftrightarrow>
     (\<forall>cs u. list_all good_name cs \<longrightarrow> at_path cs t = Some u \<longrightarrow> lstat (rooted (clean_comps root @ cs)) = Inr u)"

lemma at_path_wf: "wf_tree t \<Longrightarrow> at_path ds t = Some u \<Longrightarrow> wf_tree u"
  "wf_entries es \<Longrightarrow> at_entries d ds es = Some u \<Longrightarrow> wf_tree u"
  by (induction ds t and d ds es rule: at_path_at_entries.induct) (auto split: if_splits)

lemma join_dirs:
  assumes "list_all good_name ds"
  shows "filepath_Join root (concat (map (\<lambda>d. d @ ''/'') ds)) = rooted (clean_comps root @ ds)"
proof (cases "ds = []")
  case False
  have s: "split_on CHR ''/'' (intercalate ''/'' ds @ ''/'') = ds @ [[]]"
    using assms False split_on_append_slash [of "CHR ''/''" "intercalate ''/'' ds" "[]"] split_on_intercalate [of ds "CHR ''/''"]
    by (simp add: list_all_iff good_name_def)
  have "clean_comps (root @ ''/'' @ intercalate ''/'' ds @ ''/'') = foldl clean_step (clean_comps root) (ds @ [[]])"
    using split_on_append_slash [of "CHR ''/''" root "intercalate ''/'' ds @ ''/''"] s by (simp add: clean_comps_def)
  also have "\<dots> = clean_comps root @ ds" by (simp add: foldl_clean_good [OF assms] clean_step_def)
  finally show ?thesis using False by (simp add: filepath_Join_def concat_slash)
qed (simp add: filepath_Join_def)

lemma base_name_rooted: "list_all good_name ds \<Longrightarrow> ds \<noteq> [] \<Longrightarrow> base_name (rooted (clean_comps root @ ds)) = last ds"
  "base_name (rooted (clean_comps root)) = base_name root"
  using clean_comps_good clean_rooted [of "clean_comps root @ ds"] clean_rooted [of "clean_comps root"]
  by (simp_all add: base_name_def)

lemma list_walk:
  assumes "sees lstat (fs_root c) t" "wf_tree t" "is_dir t" "list_all good_name ds" "list_all (\<lambda>d. \<not> hidden d) ds" "CHR ''/'' \<notin> set rest"
    "at_path ds t = None \<Longrightarrow> \<exists>e. lstat (rooted (clean_comps (fs_root c) @ ds)) = Inl e \<and> errors_is e ErrNotExist"
  shows "ListObjectsV2 lstat c (dirs_prefix ds rest) =
    Inr (if ds = [] \<and> hidden (base_name (fs_root c)) then [] else list_spec t (dirs_prefix ds rest))"
proof -
  let ?p = "dirs_prefix ds rest" and ?q = "rooted (clean_comps (fs_root c) @ ds)"
  note unfolds = ListObjectsV2_def WalkDir_def path_dir_prefix [OF assms(6)] join_dirs [OF assms(4)]
  show ?thesis
  proof (cases "at_path ds t")
    case None
    with assms(7) obtain e where e: "lstat ?q = Inl e" "errors_is e ErrNotExist" by blast
    have "ds \<noteq> []" using None by auto
    with None e picked_below [OF assms(2,4,5), of rest] show ?thesis
      by (simp add: unfolds list_visit_def list_spec_def)
  next
    case (Some u)
    then have l: "lstat ?q = Inr u" using assms(1,4) by (simp add: sees_def)
    show ?thesis
    proof (cases "ds = [] \<and> hidden (base_name (fs_root c))")
      case True
      with Some assms(3) l show ?thesis
        using join_dirs [of "[]" "fs_root c"] path_dir_prefix [OF assms(6), of "[]"]
        by (cases u) (auto simp: ListObjectsV2_def WalkDir_def base_name_rooted(2) list_visit_def hidden_def)
    next
      case False
      have h: "\<not> hidden (base_name ?q)"
      proof (cases "ds = []")
        case True
        with False show ?thesis by (simp add: base_name_rooted(2))
      next
        case False
        then show ?thesis using assms(5) by (simp add: base_name_rooted(1) [OF assms(4)] list_all_iff)
      qed
      have "ds = [] \<longrightarrow> is_dir u" using Some assms(3) by auto
      from walk_visible(1) [OF assms(4) at_path_wf(1) [OF assms(2) Some] h this]
      have "walk_dir (list_visit (fs_root c) ?p) ?q (base_name ?q) u [] = (picked ?p (visible ds u), WalkOn)" by simp
      with False l Some picked_below [OF assms(2,4,5), of rest] show ?thesis by (auto simp: unfolds list_spec_def)
    qed
  qed
qed

lemma fs_list_root:
  assumes "sees lstat (fs_root c) t" "wf_tree t" "is_dir t" "\<not> hidden (base_name (fs_root c))"
  shows "ListObjectsV2 lstat c (dirs_prefix [] []) = Inr (list_spec t (dirs_prefix [] []))"
  using list_walk [OF assms(1-3), of "[]" "[]"] assms(4) by simp

text \<open>C31. Listing a prefix from its deepest directory gives the same as listing everything: over a tree in which nothing
  but deletions went wrong, for a prefix whose directories are not hidden and exist or
  are missing, the store returns exactly the visible files below the root whose key starts with the
  prefix, sorted by key, so that temporary files are never listed. There is one exception: a store whose root directory has
  a hidden name lists nothing for a prefix without a slash.\<close>

theorem fs_list_exact:
  assumes "sees lstat (fs_root c) t" "wf_tree t" "is_dir t" "list_all good_name ds" "list_all (\<lambda>d. \<not> hidden d) ds" "CHR ''/'' \<notin> set rest"
    "at_path ds t = None \<Longrightarrow> \<exists>e. lstat (rooted (clean_comps (fs_root c) @ ds)) = Inl e \<and> errors_is e ErrNotExist"
  shows "ListObjectsV2 lstat c (dirs_prefix ds rest) =
    Inr (if ds = [] \<and> hidden (base_name (fs_root c)) then [] else list_spec t (dirs_prefix ds rest))"
  using assms by (rule list_walk)

definition tree0 :: fs_tree where
  "tree0 = FsDir None (Entry ''raw'' (FsDir None (Entry ''.tmp-1'' (FsFile (Inr 9)) (Entry ''b'' (FsFile (Inr 2)) (Entry ''a'' (FsFile (Inr 1)) NoEntry))))
     (Entry ''raw2'' (FsFile (Inr 3)) NoEntry))"

definition lstat0 :: "string \<Rightarrow> fs_tree result" where
  "lstat0 p = (case at_path (drop 1 (clean_comps p)) tree0 of None \<Rightarrow> Inl (sentinel_error ErrNotExist) | Some u \<Rightarrow> Inr u)"

theorem fs_list_exact_witness:
  "\<forall>ops. ListObjectsV2 lstat0 \<lparr>fs_root = ''/data'', fs_ops = ops, fs_state = ()\<rparr> ''raw/'' =
     Inr [\<lparr>oiKey = ''raw/a'', oiSize = 1\<rparr>, \<lparr>oiKey = ''raw/b'', oiSize = 2\<rparr>]"
proof -
  have r: "clean_comps ''/data'' = [''data'']" by (simp add: clean_comps_def clean_step_def)
  have "sees lstat0 ''/data'' tree0"
    using clean_rooted [of "''data'' # cs" for cs] by (auto simp: sees_def lstat0_def r good_name_def)
  moreover have "wf_tree tree0" "is_dir tree0" "list_all good_name [''raw'']" "list_all (\<lambda>d. \<not> hidden d) [''raw'']"
    by (simp_all add: tree0_def gone_only_def good_name_def hidden_def has_prefix_def)
  moreover have "at_path [''raw''] tree0 \<noteq> None" by (simp add: tree0_def)
  ultimately have "ListObjectsV2 lstat0 \<lparr>fs_root = ''/data'', fs_ops = ops, fs_state = ()\<rparr> (dirs_prefix [''raw''] []) =
      Inr (if [''raw''] = [] \<and> hidden (base_name ''/data'') then [] else list_spec tree0 (dirs_prefix [''raw''] []))" for ops
    using fs_list_exact [where c = "\<lparr>fs_root = ''/data'', fs_ops = ops, fs_state = ()\<rparr>" and ds = "[''raw'']" and rest = "[]" and t = tree0 and lstat = lstat0] by auto
  moreover have "list_spec tree0 ''raw/'' = [\<lparr>oiKey = ''raw/a'', oiSize = 1\<rparr>, \<lparr>oiKey = ''raw/b'', oiSize = 2\<rparr>]"
    by code_simp
  ultimately show ?thesis by (simp add: dirs_prefix_def)
qed

end
