(* ===== verification/S3client.thy ===== *)
theory S3client
  imports Fslist
begin

text \<open>
  \<^verbatim>\<open>internal/s3client/s3client.go\<close>: the object store on S3. The AWS SDK is a parameter: loading its configuration,
  building its client, the put call and the paginator of the list call. The timeout of an
  upload is an error of the call like any other.
\<close>

section \<open>The SDK\<close>

datatype load_option = WithRegion string | WithStaticCredentials string string | WithRetryMaxAttempts nat

record s3_options =
  BaseEndpoint :: "string option"
  UsePathStyle :: bool

record put_input =
  piBucket :: string
  piKey :: string
  piBody :: bytes
  piContentType :: string
  ServerSideEncryption :: "string option"
  SSEKMSKeyId :: "string option"
  BucketKeyEnabled :: bool

record ('b, 'p) s3_api =
  apiPutObject :: "put_input \<Rightarrow> 'b \<Rightarrow> 'b \<times> go_error option"
  NewPaginator :: "string \<Rightarrow> string \<Rightarrow> 'p"
  HasMorePages :: "'p \<Rightarrow> bool"
  NextPage :: "'p \<Rightarrow> 'b \<Rightarrow> 'p \<times> (string option \<times> int option) list result"

record ('a, 'b) aws_lib =
  LoadDefaultConfig :: "load_option list \<Rightarrow> 'a result"
  NewFromConfig :: "'a \<Rightarrow> s3_options \<Rightarrow> 'b"

section \<open>The client\<close>

record s3_config =
  s3Bucket :: string
  s3Region :: string
  s3AccessKeyID :: string
  s3SecretAccessKey :: string
  s3Endpoint :: string
  s3KMSKeyID :: string

definition maxRetryAttempts :: nat where "maxRetryAttempts = 3"

record 'b s3_client =
  s3_conn :: 'b
  s3_bucket :: string
  s3_kmsKeyID :: string

definition load_options :: "s3_config \<Rightarrow> load_option list" where
  "load_options cfg =
     (if s3Region cfg \<noteq> [] then [WithRegion (s3Region cfg)] else []) @
     (if s3AccessKeyID cfg \<noteq> [] \<and> s3SecretAccessKey cfg \<noteq> []
      then [WithStaticCredentials (s3AccessKeyID cfg) (s3SecretAccessKey cfg)] else []) @
     [WithRetryMaxAttempts maxRetryAttempts]"

definition New_s3 :: "('a, 'b) aws_lib \<Rightarrow> s3_config \<Rightarrow> 'b s3_client result" where
  "New_s3 A cfg =
     (if s3Bucket cfg = [] then Inl (errors_new ''s3 bucket is required'')
      else case LoadDefaultConfig A (load_options cfg) of
        Inl e \<Rightarrow> Inl (errorf ''loading AWS config: '' e '''')
      | Inr awsCfg \<Rightarrow>
          Inr \<lparr>s3_conn = NewFromConfig A awsCfg
                 (if s3Endpoint cfg \<noteq> [] then \<lparr>BaseEndpoint = Some (s3Endpoint cfg), UsePathStyle = True\<rparr>
                  else \<lparr>BaseEndpoint = None, UsePathStyle = False\<rparr>),
               s3_bucket = s3Bucket cfg, s3_kmsKeyID = s3KMSKeyID cfg\<rparr>)"

definition put_request :: "'b s3_client \<Rightarrow> string \<Rightarrow> bytes \<Rightarrow> put_input" where
  "put_request c key body =
     (let in0 = \<lparr>piBucket = s3_bucket c, piKey = key, piBody = body, piContentType = ''application/octet-stream'',
                 ServerSideEncryption = None, SSEKMSKeyId = None, BucketKeyEnabled = False\<rparr>
      in if s3_kmsKeyID c \<noteq> []
         then in0\<lparr>ServerSideEncryption := Some ''aws:kms'', SSEKMSKeyId := Some (s3_kmsKeyID c), BucketKeyEnabled := True\<rparr>
         else in0)"

definition s3_PutObject :: "('b, 'p) s3_api \<Rightarrow> string \<Rightarrow> bytes \<Rightarrow> 'b s3_client \<Rightarrow> 'b s3_client \<times> go_error option" where
  "s3_PutObject api key body c =
     (case apiPutObject api (put_request c key body) (s3_conn c) of
        (b1, Some e) \<Rightarrow> (c\<lparr>s3_conn := b1\<rparr>, Some (errorf (''put object '' @ s3_bucket c @ ''/'' @ key @ '': '') e ''''))
      | (b1, None) \<Rightarrow> (c\<lparr>s3_conn := b1\<rparr>, None))"

text \<open>\<^verbatim>\<open>aws.ToString\<close> and \<^verbatim>\<open>aws.ToInt64\<close> of a field that may be missing.\<close>

definition listed_object :: "string option \<times> int option \<Rightarrow> object_info" where
  "listed_object ob = \<lparr>oiKey = (case fst ob of None \<Rightarrow> [] | Some k \<Rightarrow> k), oiSize = (case snd ob of None \<Rightarrow> 0 | Some n \<Rightarrow> n)\<rparr>"

text \<open>The loop over the pages. A service that always has one more page would keep it running: then it has no result.\<close>

partial_function (option) page_loop ::
  "('b, 'p) s3_api \<Rightarrow> 'b s3_client \<Rightarrow> string \<Rightarrow> 'p \<Rightarrow> object_info list \<Rightarrow> object_info list result option" where
  "page_loop api c prefix p objects =
     (if \<not> HasMorePages api p then Some (Inr objects)
      else case NextPage api p (s3_conn c) of
        (p1, Inl e) \<Rightarrow> Some (Inl (errorf (''listing objects under '' @ s3_bucket c @ ''/'' @ prefix @ '': '') e ''''))
      | (p1, Inr page) \<Rightarrow> page_loop api c prefix p1 (objects @ map listed_object page))"

definition s3_ListObjectsV2 :: "('b, 'p) s3_api \<Rightarrow> 'b s3_client \<Rightarrow> string \<Rightarrow> object_info list result option" where
  "s3_ListObjectsV2 api c prefix = page_loop api c prefix (NewPaginator api (s3_bucket c) prefix) []"

section \<open>Listing\<close>

text \<open>A paginator that serves the given pages and then ends.\<close>

fun serves :: "('b, 'p) s3_api \<Rightarrow> 'b \<Rightarrow> 'p \<Rightarrow> (string option \<times> int option) list list \<Rightarrow> bool" where
  "serves api b p [] \<longleftrightarrow> \<not> HasMorePages api p"
| "serves api b p (page # pages) \<longleftrightarrow>
     HasMorePages api p \<and> snd (NextPage api p b) = Inr page \<and> serves api b (fst (NextPage api p b)) pages"

lemma page_loop_serves:
  "serves api (s3_conn c) p pages \<Longrightarrow> page_loop api c prefix p objects = Some (Inr (objects @ map listed_object (concat pages)))"
proof (induction pages arbitrary: p objects)
  case Nil
  then show ?case by (simp add: page_loop.simps)
next
  case (Cons page pages)
  then show ?case by (cases "NextPage api p (s3_conn c)") (simp add: page_loop.simps [of _ _ _ p])
qed

lemma s3_list_complete:
  assumes "serves api (s3_conn c) (NewPaginator api (s3_bucket c) prefix) pages"
  shows "s3_ListObjectsV2 api c prefix = Some (Inr (map listed_object (concat pages)))"
  unfolding s3_ListObjectsV2_def using page_loop_serves [OF assms] by simp

section \<open>The store's contract\<close>

text \<open>S3 is strongly consistent: an object is read back as it was put, at its bucket and key, and no other object changes.\<close>

definition s3_consistent :: "('b, 'p) s3_api \<Rightarrow> ('b \<Rightarrow> string \<Rightarrow> string \<Rightarrow> bytes option) \<Rightarrow> bool" where
  "s3_consistent api obj \<longleftrightarrow>
     (\<forall>i b b'. apiPutObject api i b = (b', None) \<longrightarrow> obj b' (piBucket i) (piKey i) = Some (piBody i)) \<and>
     (\<forall>i b b' r bk k. apiPutObject api i b = (b', r) \<longrightarrow> (bk, k) \<noteq> (piBucket i, piKey i) \<longrightarrow> obj b' bk k = obj b bk k)"

lemma put_request_sel [simp]:
  "piBucket (put_request c key body) = s3_bucket c" "piKey (put_request c key body) = key" "piBody (put_request c key body) = body"
  by (simp_all add: put_request_def Let_def)

lemma s3_PutObject_cases:
  assumes "s3_PutObject api key body c = (c', r)"
  obtains b r0 where "apiPutObject api (put_request c key body) (s3_conn c) = (b, r0)" "c' = c\<lparr>s3_conn := b\<rparr>" "r = None \<longleftrightarrow> r0 = None"
  using assms by (auto simp: s3_PutObject_def split: prod.splits option.splits)

interpretation s3_store: object_store "s3_PutObject api" "\<lambda>c. obj (s3_conn c) (s3_bucket c)" "\<lambda>c. id"
    "\<lambda>c. s3_consistent api obj" for api :: "('b, 'p) s3_api" and obj
proof unfold_locales
  fix c :: "'b s3_client" and k b c' r k' v
  assume s: "s3_consistent api obj"
  show "obj (s3_conn c') (s3_bucket c') k = Some b" if "s3_PutObject api k b c = (c', None)"
    using that by (elim s3_PutObject_cases) (use s in \<open>force simp: s3_consistent_def\<close>)
  assume p: "s3_PutObject api k b c = (c', r)"
  show "obj (s3_conn c') (s3_bucket c') k' = Some v" if "id k' \<noteq> id k" "obj (s3_conn c) (s3_bucket c) k' = Some v"
    using p by (elim s3_PutObject_cases) (use s that in \<open>force simp: s3_consistent_def\<close>)
qed simp_all

interpretation s3_sealable: sealable_store "s3_PutObject api" "\<lambda>c. obj (s3_conn c) (s3_bucket c)" "\<lambda>c. id"
    "\<lambda>c. s3_consistent api obj" cip rng for api :: "('b, 'p) s3_api" and obj cip rng
  by unfold_locales

text \<open>Under a configured key every upload asks for encryption with it.\<close>

lemma s3_put_encrypted:
  "s3_kmsKeyID c \<noteq> [] \<Longrightarrow> ServerSideEncryption (put_request c key body) = Some ''aws:kms'' \<and> SSEKMSKeyId (put_request c key body) = Some (s3_kmsKeyID c)"
  by (simp add: put_request_def Let_def)

end
