(* ===== verification/Wiring.thy ===== *)
theory Wiring
  imports Config Maintain Server Decodestream S3client
begin

text \<open>
  The wiring of \<^verbatim>\<open>cmd/din/main.go\<close> and the store selection of \<^verbatim>\<open>internal/objstore\<close>: how the settings
  become the configurations of the components, and the consumer of a sink with its
  acknowledgement timing; and \<^verbatim>\<open>internal/convert/modules.go\<close>, which registers the device modules. The order in
  which \<^verbatim>\<open>run\<close> starts the components is the subject of the theory \<open>Startup\<close>.
\<close>

section \<open>Configurations\<close>

definition lakeConfig :: "settings \<Rightarrow> lake_config" where
  "lakeConfig s =
     \<lparr>CatalogDSN = sLakeCatalogDSN s, DataPath = sLakeDataPath s, S3Region = sS3Region s,
      S3AccessKeyID = sS3AccessKeyID s, S3SecretAccessKey = sS3SecretAccessKey s, S3Endpoint = sS3Endpoint s,
      S3KMSKeyID = sS3KMSKeyID s, Encrypted = sLakeEncryptionEnabled s, cfgMemoryLimit = sLakeMemoryLimit s,
      Threads = sLakeThreads s, TargetFileSize = sLakeTargetFileSize s, RowGroupSize = sLakeRowGroupSize s,
      Compression = sLakeCompression s, ParquetVersion = sLakeParquetVersion s, ExtensionDir = sLakeExtensionDir s,
      TempDirectory = sLakeTempDirectory s,
      MaxConns = wrap64 (sNATSStreamPartitions s * sLakeWriterConnections s + 2)\<rparr>"

definition maintConfig :: "settings \<Rightarrow> maint_config" where
  "maintConfig s =
     \<lparr>Interval = sLakeMaintInterval s, SnapshotKeep = sLakeSnapshotKeep s,
      ConsumerStaleness = sLakeConsumerStaleness s, OrphanRetention = sLakeOrphanRetention s,
      FileCleanupGrace = sLakeCleanupGrace s, MergeMaxFilesPerCall = sLakeMergeMaxFilesPerCall s,
      MemoryLimit = sLakeMemoryLimit s, RewriteDeleteThreshold = sLakeRewriteDeleteThreshold s\<rparr>"

definition sinkConfig :: "settings \<Rightarrow> int \<Rightarrow> sink_config" where
  "sinkConfig s podSinks =
     \<lparr>MaxRowsPerFlush = wrap64 (int (sSinkMaxRowsPerFlush s)), MaxBytesPerFlush = wrap64 (int (sSinkMaxBytesPerFlush s)),
      MaxBufferedBytes = 0, PodSinks = podSinks, cfgMaxAge = sSinkMaxAge s,
      MinFlushBytes = wrap64 (int (sSinkMinFlushBytes s)), MaxAgeHard = sSinkMaxAgeHard s,
      Workers = wrap64 (int (sSinkWorkers s)), FetchBatch = 0, DrainTimeout = sSinkDrainTimeout s, sinkName = [],
      FlushTimeout = 0, CommitFailureWindow = 0\<rparr>"

definition connectionConfig :: "settings \<Rightarrow> connection_config" where
  "connectionConfig s =
     \<lparr>ccAddr = sConnectionAddr s, TLSCertFile = sTLSCertFile s, TLSKeyFile = sTLSKeyFile s,
      ClientCAFiles = [sTLSClientCAFile s], ccTimeout = 0, ccMaxBodyBytes = sMaxBodyBytes s,
      ccRateLimitRPS = sRateLimitRPS s, ccRateLimitBurst = sRateLimitBurst s\<rparr>"

definition attestationConfig :: "settings \<Rightarrow> attestation_config" where
  "attestationConfig s =
     \<lparr>acAddr = sAttestationAddr s, TokenExchangeIssuer = sTokenExchangeIssuer s,
      TokenExchangeKeySetURL = sTokenExchangeKeySetURL s, acTimeout = 0, acMaxBodyBytes = sMaxBodyBytes s,
      acRateLimitRPS = sRateLimitRPS s, acRateLimitBurst = sRateLimitBurst s\<rparr>"

definition bridgeConfig :: "settings \<Rightarrow> bridge_config" where
  "bridgeConfig s =
     \<lparr>bcChainID = sChainID s, VehicleNFTAddress = sVehicleNFTAddress s, bcReplicas = sNATSReplicas s,
      StreamPartitions = sNATSStreamPartitions s, SignalsMaxBytes = Config.sSignalsMaxBytes s,
      EventsMaxBytes = Config.sEventsMaxBytes s\<rparr>"

definition streamConfig :: "settings \<Rightarrow> stream_settings" where
  "streamConfig s =
     DefaultConfig\<lparr>Replicas := sNATSReplicas s, Partitions := sNATSStreamPartitions s, MaxBytes := sNATSStreamMaxBytes s\<rparr>"

section \<open>The sinks' acknowledgement timing\<close>

definition hardCap :: "settings \<Rightarrow> duration" where
  "hardCap s = (if sSinkMaxAgeHard s \<le> 0 then DefaultMaxAgeHard else sSinkMaxAgeHard s)"

definition ackWait :: "settings \<Rightarrow> duration" where
  "ackWait s = wrap64 (hardCap s + 3 * minute)"

record sink_consumer_config =
  scDurable :: string
  scAckPolicy :: ack_policy
  scAckWait :: duration
  scMaxAckPending :: int
  scMaxDeliver :: int
  scBackOff :: "duration list"

definition sink_consumer :: "settings \<Rightarrow> nat \<Rightarrow> nat \<Rightarrow> sink_consumer_config" where
  "sink_consumer s streams i =
     \<lparr>scDurable = (if 1 < streams then ''parquet-sink-p'' @ fmt_p03d i else ''parquet-sink''),
      scAckPolicy = AckExplicitPolicy, scAckWait = ackWait s, scMaxAckPending = 250000, scMaxDeliver = 1000,
      scBackOff = [ackWait s, wrap64 (ackWait s + 10 * minute), 30 * minute]\<rparr>"

definition sink_config_for :: "settings \<Rightarrow> nat \<Rightarrow> nat \<Rightarrow> sink_config" where
  "sink_config_for s streams i =
     (let cfg = (sinkConfig s (int streams))\<lparr>sinkName := scDurable (sink_consumer s streams i)\<rparr>;
          ft = wrap64 (ackWait s - minute)
      in if ft < 5 * minute then cfg\<lparr>FlushTimeout := ft\<rparr> else cfg)"

section \<open>The object store\<close>

definition IsLocalPath :: "string \<Rightarrow> bool" where
  "IsLocalPath bucket \<longleftrightarrow> has_prefix bucket ''file://'' \<or> has_prefix bucket ''/''"

definition LocalRoot :: "string \<Rightarrow> string" where
  "LocalRoot bucket = (if has_prefix bucket ''file://'' then drop 7 bucket else bucket)"

text \<open>A store: one of the two clients, with its \<^verbatim>\<open>PutObject\<close> and \<^verbatim>\<open>ListObjectsV2\<close>.\<close>

datatype ('o, 'b) store_state = FsState "'o fs_client" | S3State "'b s3_client"

definition store_put ::
  "('b, 'p) s3_api \<Rightarrow> string \<Rightarrow> bytes \<Rightarrow> ('o, 'b) store_state \<Rightarrow> ('o, 'b) store_state \<times> go_error option" where
  "store_put api key body st =
     (case st of
        FsState c \<Rightarrow> (case PutObject key body c of (c1, e) \<Rightarrow> (FsState c1, e))
      | S3State c \<Rightarrow> (case s3_PutObject api key body c of (c1, e) \<Rightarrow> (S3State c1, e)))"

definition store_list ::
  "('b, 'p) s3_api \<Rightarrow> ('o \<Rightarrow> string \<Rightarrow> fs_tree result) \<Rightarrow> string \<Rightarrow> ('o, 'b) store_state \<Rightarrow> object_info list result option" where
  "store_list api lstat prefix st =
     (case st of
        FsState c \<Rightarrow> Some (ListObjectsV2 (lstat (fs_state c)) c prefix)
      | S3State c \<Rightarrow> s3_ListObjectsV2 api c prefix)"

definition newBaseObjectStore ::
  "'o os_ops \<Rightarrow> ('a, 'b) aws_lib \<Rightarrow> settings \<Rightarrow> string \<Rightarrow> 'o \<Rightarrow> 'o \<times> ('o, 'b) store_state result" where
  "newBaseObjectStore ops A s bucket os =
     (if IsLocalPath bucket
      then (case New_fsstore ops (LocalRoot bucket) os of
              (o1, Inl e) \<Rightarrow> (o1, Inl e) | (o1, Inr c) \<Rightarrow> (o1, Inr (FsState c)))
      else (os, case New_s3 A \<lparr>s3Bucket = bucket, s3Region = sS3Region s, s3AccessKeyID = sS3AccessKeyID s,
                     s3SecretAccessKey = sS3SecretAccessKey s, s3Endpoint = sS3Endpoint s, s3KMSKeyID = sS3KMSKeyID s\<rparr> of
                  Inl e \<Rightarrow> Inl e | Inr c \<Rightarrow> Inr (S3State c)))"

text \<open>The wrapped store: its state and its \<^verbatim>\<open>PutObject\<close>.\<close>

definition newObjectStore ::
  "'o os_ops \<Rightarrow> ('a, 'b) aws_lib \<Rightarrow> ('b, 'p) s3_api \<Rightarrow> (bytes \<Rightarrow> 'c result) \<Rightarrow> ('c \<Rightarrow> aead result) \<Rightarrow> 'r rng
     \<Rightarrow> settings \<Rightarrow> string \<Rightarrow> 'o
     \<Rightarrow> 'o \<times> (('o, 'b) store_state \<times> (string \<Rightarrow> bytes \<Rightarrow> 'r \<times> ('o, 'b) store_state
                   \<Rightarrow> ('r \<times> ('o, 'b) store_state) \<times> go_error option)) result" where
  "newObjectStore ops A api aes gcm rng s bucket os =
     (case newBaseObjectStore ops A s bucket os of
        (o1, Inl e) \<Rightarrow> (o1, Inl e)
      | (o1, Inr store) \<Rightarrow>
          (case NewCipher aes gcm (sBlobEncryptionKey s) of
             Inl e \<Rightarrow> (o1, Inl e)
           | Inr cipher \<Rightarrow> (o1, Inr (store, WrapStore cipher rng (store_put api)))))"

text \<open>Either store meets the splitter's contract.\<close>

definition store_stored ::
  "('o \<Rightarrow> string \<Rightarrow> bytes option) \<Rightarrow> ('b \<Rightarrow> string \<Rightarrow> string \<Rightarrow> bytes option) \<Rightarrow> ('o, 'b) store_state \<Rightarrow> string \<Rightarrow> bytes option" where
  "store_stored view obj st =
     (case st of FsState c \<Rightarrow> fs_stored view c | S3State c \<Rightarrow> obj (s3_conn c) (s3_bucket c))"

definition store_loc :: "('o, 'b) store_state \<Rightarrow> string \<Rightarrow> string" where
  "store_loc st = (case st of FsState c \<Rightarrow> fs_path c | S3State c \<Rightarrow> id)"

definition store_ok ::
  "('b, 'p) s3_api \<Rightarrow> ('o \<Rightarrow> string \<Rightarrow> bytes option) \<Rightarrow> ('b \<Rightarrow> string \<Rightarrow> string \<Rightarrow> bytes option) \<Rightarrow> ('o, 'b) store_state \<Rightarrow> bool" where
  "store_ok api view obj st =
     (case st of FsState c \<Rightarrow> posix_files (fs_ops c) view | S3State c \<Rightarrow> s3_consistent api obj)"

interpretation din_store: object_store "store_put api" "store_stored view obj" store_loc "store_ok api view obj"
  for api :: "('b, 'p) s3_api" and view :: "'o \<Rightarrow> string \<Rightarrow> bytes option" and obj
proof unfold_locales
  fix st :: "('o, 'b) store_state" and k b st' r k' v
  assume ok: "store_ok api view obj st"
  show "store_stored view obj st' k = Some b" if "store_put api k b st = (st', None)"
    using ok that fs_store.put_stored [where view = view] s3_store.put_stored [where api = api and obj = obj]
    by (auto simp: store_put_def store_stored_def store_ok_def split: store_state.splits prod.splits)
  assume p: "store_put api k b st = (st', r)"
  show "store_stored view obj st' k' = Some v" if "store_loc st k' \<noteq> store_loc st k" "store_stored view obj st k' = Some v"
    using ok p that fs_store.put_keeps [where view = view] s3_store.put_keeps [where api = api and obj = obj]
    by (auto simp: store_put_def store_stored_def store_ok_def store_loc_def split: store_state.splits prod.splits)
  show "store_ok api view obj st'" "store_loc st' = store_loc st"
    using ok p fs_store.put_ok [where view = view] fs_store.put_loc [where view = view]
    by (auto simp: store_put_def store_ok_def store_loc_def split: store_state.splits prod.splits)
qed

interpretation din_sealable: sealable_store "store_put api" "store_stored view obj" store_loc "store_ok api view obj" cip rng
  for api :: "('b, 'p) s3_api" and view :: "'o \<Rightarrow> string \<Rightarrow> bytes option" and obj cip rng
  by unfold_locales

section \<open>Device modules\<close>

text \<open>The modules belong to another repository: here each is the values it is built with. The names of the sources
  are that repository's too.\<close>

record module_chain =
  AftermarketContractAddr :: address
  VehicleContractAddr :: address
  mcChainID :: nat

datatype device_module = AutoPiModule module_chain | RuptelaModule module_chain | HashDogModule module_chain

record module_sources =
  AutoPiSource :: string
  RuptelaSource :: string
  KaufmannSource :: string
  HashDogSource :: string

record convert_config =
  cvChainID :: nat
  cvVehicleNFTAddress :: address
  cvAftermarketNFTAddress :: address
  cvSyntheticNFTAddress :: address

definition RegisterModules :: "module_sources \<Rightarrow> convert_config \<Rightarrow> (string \<rightharpoonup> device_module) \<Rightarrow> (string \<rightharpoonup> device_module)" where
  "RegisterModules M cfg registry =
     (let mk = (\<lambda>aftermarket. \<lparr>AftermarketContractAddr = aftermarket, VehicleContractAddr = cvVehicleNFTAddress cfg, mcChainID = cvChainID cfg\<rparr>)
      in registry(AutoPiSource M \<mapsto> AutoPiModule (mk (cvAftermarketNFTAddress cfg)),
                  RuptelaSource M \<mapsto> RuptelaModule (mk (cvAftermarketNFTAddress cfg)),
                  KaufmannSource M \<mapsto> RuptelaModule (mk (cvSyntheticNFTAddress cfg)),
                  HashDogSource M \<mapsto> HashDogModule (mk (cvAftermarketNFTAddress cfg))))"

definition convertConfig :: "settings \<Rightarrow> convert_config" where
  "convertConfig s =
     \<lparr>cvChainID = sChainID s, cvVehicleNFTAddress = sVehicleNFTAddress s, cvAftermarketNFTAddress = sAftermarketNFTAddress s,
      cvSyntheticNFTAddress = sSyntheticNFTAddress s\<rparr>"

text \<open>No registration overwrites another, and modules registered for other sources stay.\<close>

lemma modules_registered:
  assumes "distinct [AutoPiSource M, RuptelaSource M, KaufmannSource M, HashDogSource M]"
  shows "dom (RegisterModules M cfg r) = {AutoPiSource M, RuptelaSource M, KaufmannSource M, HashDogSource M} \<union> dom r"
    and "RegisterModules M cfg r (KaufmannSource M) =
      Some (RuptelaModule \<lparr>AftermarketContractAddr = cvSyntheticNFTAddress cfg, VehicleContractAddr = cvVehicleNFTAddress cfg, mcChainID = cvChainID cfg\<rparr>)"
    and "RegisterModules M cfg r (RuptelaSource M) =
      Some (RuptelaModule \<lparr>AftermarketContractAddr = cvAftermarketNFTAddress cfg, VehicleContractAddr = cvVehicleNFTAddress cfg, mcChainID = cvChainID cfg\<rparr>)"
  using assms by (auto simp: RegisterModules_def Let_def)

end
