(* ===== verification/Node_Props.thy ===== *)
theory Node_Props
  imports Wiring Instances
begin

text \<open>
  The properties of the servers, the settings and the wiring: who can reach the ingest handlers, how
  much the rate limiter may keep, what a configuration that loads guarantees, and how the
  acknowledgement timing of a sink fits its flushes.
\<close>

section \<open>Servers\<close>

lemma connection_server_parts:
  assumes "NewConnectionServer T R hp cfg handler = Inr srv"
  shows "\<exists>tls. srvTLS srv = Some tls \<and> ClientAuth tls = RequireAndVerifyClientCert \<and> ClientCAs tls \<noteq> []"
    and "srvHandler srv = connection_stack R hp (cfg\<lparr>ccAddr := (if ccAddr cfg = [] then DefaultConnectionAddr else ccAddr cfg),
        ccTimeout := or_default_pos (ccTimeout cfg) DefaultTimeout,
        ccMaxBodyBytes := or_default_pos (ccMaxBodyBytes cfg) DefaultMaxBodyBytes\<rparr>) handler"
  using assms load_cas_nonempty [of T "ClientCAFiles cfg" "[]"]
  by (auto simp: NewConnectionServer_def Let_def split: sum.splits if_splits)

lemma attestation_server_parts:
  assumes "NewAttestationServer L J R hp cfg handler = Inr srv"
  shows "\<exists>issuer keys. ParseURL J (TokenExchangeIssuer cfg) = Inr issuer \<and> NewKeyfunc J (TokenExchangeKeySetURL cfg) = Inr keys \<and>
    srvHandler srv = attestation_stack R hp (cfg\<lparr>acAddr := (if acAddr cfg = [] then DefaultAttestationAddr else acAddr cfg),
        acTimeout := or_default_pos (acTimeout cfg) DefaultTimeout,
        acMaxBodyBytes := or_default_pos (acMaxBodyBytes cfg) DefaultMaxBodyBytes\<rparr>) (attestation_auth L J issuer keys) handler"
  using assms by (auto simp: NewAttestationServer_def newAttestationAuth_def Let_def split: sum.splits)

text \<open>C9. Only an authenticated connection reaches the ingest handler, and every request is answered: the
  connection server requires a client certificate verified against a non-empty pool, and a request either
  is refused (401, 405 or 429) with the state behind the middleware untouched, or it is a POST
  within its rate, and the handler runs once, with the common name of the verified leaf
  certificate as its identity and a body within the limit; its response is returned, and a
  panic becomes a 500.\<close>

theorem connection_server_authenticates:
  assumes "NewConnectionServer T R hp cfg (postOnly (ingest_handler h)) = Inr srv"
    "srvHandler srv now r ((l, s), n) = (((l', s'), n'), out)"
  shows "(\<exists>tls. srvTLS srv = Some tls \<and> ClientAuth tls = RequireAndVerifyClientCert \<and> ClientCAs tls \<noteq> []) \<and>
    (\<exists>resp. out = Some resp \<and>
      gate (leaf_cn r) (f_le (ccRateLimitRPS cfg) (Fin 0) \<or> snd (allow R now (certCNKey hp r) l))
        (or_default_pos (ccMaxBodyBytes cfg) DefaultMaxBodyBytes) h r s s' resp)"
  using connection_server_parts [OF assms(1)] cert.stack_gate assms(2) unfolding connection_stack_def by fastforce

text \<open>A pair of servers: a token bucket that counts, certificates and tokens that are always there, and a
  handler that counts its calls.\<close>

definition rate0 :: "int rate_lib" where
  "rate0 = \<lparr>NewLimiter = (\<lambda>rps burst. burst), AllowNow = (\<lambda>b now. (b - 1, 0 < b)), Tokens = (\<lambda>b now. Fin (of_int b))\<rparr>"

definition tls0 :: "unit tls_ops" where
  "tls0 = \<lparr>LoadX509KeyPair = (\<lambda>c k. Inr ()), ReadFile = (\<lambda>f. Inr ''pem''), CertsFromPEM = (\<lambda>b. [''ca''])\<rparr>"

definition jwt0 :: "unit jwt_lib" where
  "jwt0 = \<lparr>ParseURL = Inr, NewKeyfunc = (\<lambda>u. Inr ()), ParseWithClaims = (\<lambda>iss ms k t. if t = ''tok'' then Inr ''A'' else Inl (errors_new ''bad''))\<rparr>"

definition hp0 :: "string \<Rightarrow> (string \<times> string) result" where "hp0 a = Inr (a, [])"

definition count0 :: "http_request \<Rightarrow> nat \<Rightarrow> nat \<times> http_response option" where
  "count0 r s = (Suc s, Some status_ok)"

definition sreq0 :: server_request where
  "sreq0 = \<lparr>srMethod = ''POST'', srVerifiedChains = Some [[''0xA'']], srRemoteAddr = ''10.0.0.1'',
     srAuthorization = ''Bearer tok'', srBody = Some ''{}'', srSource = None, srLimit = None\<rparr>"

definition ccfg0 :: connection_config where
  "ccfg0 = \<lparr>ccAddr = [], TLSCertFile = ''c'', TLSKeyFile = ''k'', ClientCAFiles = [''ca''], ccTimeout = 0,
     ccMaxBodyBytes = 10, ccRateLimitRPS = Fin 1, ccRateLimitBurst = 2\<rparr>"

definition acfg0 :: attestation_config where
  "acfg0 = \<lparr>acAddr = [], TokenExchangeIssuer = ''iss'', TokenExchangeKeySetURL = ''url'', acTimeout = 0,
     acMaxBodyBytes = 10, acRateLimitRPS = Fin 1, acRateLimitBurst = 2\<rparr>"

lemma allow0: "snd (allow rate0 now key (init_limiter (Fin 1) 2))"
proof -
  have "shard key < limiterShards" by (simp add: shard_def limiterShards_def)
  then have "rlShards (init_limiter (Fin 1) 2 :: int remote_limiter) ! shard key = []"
    by (simp add: init_limiter_def newRemoteLimiter_def)
  then show ?thesis
    by (simp add: allow_def Let_def rate0_def init_limiter_def newRemoteLimiter_def limiter_burst_def limiterMaxKeys_def limiterShards_def)
qed

theorem connection_server_authenticates_witness:
  "\<exists>srv l' s' n' resp. NewConnectionServer tls0 rate0 hp0 ccfg0 (postOnly (ingest_handler count0)) = Inr srv \<and>
     srvHandler srv 0 sreq0 ((init_limiter (Fin 1) 2, 0), 0) = (((l', s'), n'), Some resp) \<and>
     gate (Some ''0xA'') True 10 count0 sreq0 0 s' resp"
proof -
  obtain srv where c: "NewConnectionServer tls0 rate0 hp0 ccfg0 (postOnly (ingest_handler count0)) = Inr srv"
    by (simp add: NewConnectionServer_def tls0_def ccfg0_def)
  obtain l' s' n' out where r: "srvHandler srv 0 sreq0 ((init_limiter (Fin 1) 2, 0), 0) = (((l', s'), n'), out)"
    by (metis prod.collapse)
  have cn: "leaf_cn sreq0 = Some ''0xA''" by (simp add: leaf_cn_def sreq0_def)
  have lim: "or_default_pos (ccMaxBodyBytes ccfg0) DefaultMaxBodyBytes = 10" by (simp add: or_default_pos_def ccfg0_def)
  from connection_server_authenticates [OF c r] allow0 cn lim c r show ?thesis by auto
qed

text \<open>C10. The attestation server admits only the holders of tokens: a request either is refused (401, 405 or
  429) with the state behind the middleware untouched, or it carries a bearer token that the
  parser accepts for the configured issuer and keys under RS256 with an address that is not
  zero, and the handler runs once with that address as its identity.\<close>

theorem attestation_server_authenticates:
  assumes "NewAttestationServer L J R hp cfg (postOnly (ingest_handler h)) = Inr srv"
    "srvHandler srv now r ((l, s), n) = (((l', s'), n'), out)"
  shows "\<exists>issuer keys resp. ParseURL J (TokenExchangeIssuer cfg) = Inr issuer \<and> NewKeyfunc J (TokenExchangeKeySetURL cfg) = Inr keys \<and>
    out = Some resp \<and>
    gate (token_source (L, J, issuer, keys) r) (f_le (acRateLimitRPS cfg) (Fin 0) \<or> snd (allow R now (remoteIPKey hp r) l))
      (or_default_pos (acMaxBodyBytes cfg) DefaultMaxBodyBytes) h r s s' resp \<and>
    (\<forall>src. token_source (L, J, issuer, keys) r = Some src \<longrightarrow>
       (\<exists>tok addr. srAuthorization r = ''Bearer '' @ tok \<and> addr \<noteq> zeroAddress \<and> src = AddressHex L addr \<and>
          ParseWithClaims J issuer [''RS256''] keys (trim_space tok) = Inr addr))"
proof -
  from attestation_server_parts [OF assms(1)] obtain issuer keys
    where a: "ParseURL J (TokenExchangeIssuer cfg) = Inr issuer" "NewKeyfunc J (TokenExchangeKeySetURL cfg) = Inr keys"
      and hd: "srvHandler srv = attestation_stack R hp (cfg\<lparr>acAddr := (if acAddr cfg = [] then DefaultAttestationAddr else acAddr cfg),
        acTimeout := or_default_pos (acTimeout cfg) DefaultTimeout,
        acMaxBodyBytes := or_default_pos (acMaxBodyBytes cfg) DefaultMaxBodyBytes\<rparr>) (attestation_auth L J issuer keys) (postOnly (ingest_handler h))"
    by blast
  from token.stack_gate [where a = "(L, J, issuer, keys)", simplified, OF assms(2) [unfolded hd attestation_stack_def, simplified]]
  obtain resp where "out = Some resp"
    "gate (token_source (L, J, issuer, keys) r) (f_le (acRateLimitRPS cfg) (Fin 0) \<or> snd (allow R now (remoteIPKey hp r) l))
      (or_default_pos (acMaxBodyBytes cfg) DefaultMaxBodyBytes) h r s s' resp" by auto
  moreover have "\<exists>tok addr. srAuthorization r = ''Bearer '' @ tok \<and> addr \<noteq> zeroAddress \<and> src = AddressHex L addr \<and>
      ParseWithClaims J issuer [''RS256''] keys (trim_space tok) = Inr addr"
    if "token_source (L, J, issuer, keys) r = Some src" for src
    using that by (auto simp: token_source_def attestation_auth_def Let_def elim!: has_prefixE split: sum.splits if_splits)
  ultimately show ?thesis using a by blast
qed

theorem attestation_server_authenticates_witness:
  "\<exists>srv l' s' n' resp. NewAttestationServer lib0 jwt0 rate0 hp0 acfg0 (postOnly (ingest_handler count0)) = Inr srv \<and>
     srvHandler srv 0 sreq0 ((init_limiter (Fin 1) 2, 0), 0) = (((l', s'), n'), Some resp) \<and>
     gate (Some ''0xA'') True 10 count0 sreq0 0 s' resp"
proof -
  obtain srv where c: "NewAttestationServer lib0 jwt0 rate0 hp0 acfg0 (postOnly (ingest_handler count0)) = Inr srv"
    by (simp add: NewAttestationServer_def newAttestationAuth_def jwt0_def acfg0_def)
  obtain l' s' n' out where r: "srvHandler srv 0 sreq0 ((init_limiter (Fin 1) 2, 0), 0) = (((l', s'), n'), out)"
    by (metis prod.collapse)
  have src: "token_source (lib0, jwt0, ''iss'', ()) sreq0 = Some ''0xA''" by code_simp
  have lim: "or_default_pos (acMaxBodyBytes acfg0) DefaultMaxBodyBytes = 10" by (simp add: or_default_pos_def acfg0_def)
  have iss: "ParseURL jwt0 (TokenExchangeIssuer acfg0) = Inr ''iss''" by (simp add: jwt0_def acfg0_def)
  from attestation_server_authenticates [OF c r] allow0 src lim c r iss show ?thesis by auto
qed

section \<open>The rate limiter\<close>

text \<open>C26. The rate limiter's memory is bounded: after any sequence of requests, whatever their keys and
  times, it holds at most 100000 buckets in its shards, and no key twice in one.\<close>

theorem rate_limiter_bounded:
  "let l = foldl (\<lambda>l (now, key). fst (allow R now key l)) (newRemoteLimiter rps burst) calls
   in sum_list (map length (rlShards l)) \<le> limiterMaxKeys \<and> list_all (\<lambda>s. distinct (map fst s)) (rlShards l)"
proof -
  define l where "l = foldl (\<lambda>l (now, key). fst (allow R now key l)) (newRemoteLimiter rps burst) calls"
  have "limiter_ok (foldl (\<lambda>l (now, key). fst (allow R now key l)) l0 calls)" if "limiter_ok l0" for l0
    using that by (induction calls arbitrary: l0) (auto simp: allow_keeps)
  then have ok: "limiter_ok l" unfolding l_def by (simp add: limiter_ok_new)
  have "sum_list (map length ss) \<le> length ss * (limiterMaxKeys div limiterShards)" if "list_all shard_ok ss" for ss :: "(string \<times> 'a) list list"
    using that by (induction ss) (auto simp: shard_ok_def)
  from this [of "rlShards l"] ok have "sum_list (map length (rlShards l)) \<le> limiterShards * (limiterMaxKeys div limiterShards)"
    by (simp add: limiter_ok_def)
  also have "\<dots> \<le> limiterMaxKeys" by (simp add: limiterMaxKeys_def limiterShards_def)
  finally have "sum_list (map length (rlShards l)) \<le> limiterMaxKeys" .
  moreover have "list_all (\<lambda>s. distinct (map fst s)) (rlShards l)"
    using ok by (simp add: limiter_ok_def shard_ok_def list_all_iff)
  ultimately show ?thesis unfolding l_def by (simp add: Let_def)
qed


section \<open>Settings\<close>


section \<open>Acknowledgement timing\<close>


text \<open>Settings with every zero value, and an environment with the required variables set.\<close>

definition env_vars0 :: "(string \<times> string) list" where
  "env_vars0 = [(''VEHICLE_NFT_ADDRESS'', ''0xA''), (''AFTERMARKET_NFT_ADDRESS'', ''0xA''), (''SYNTHETIC_NFT_ADDRESS'', ''0xA''),
     (''DUCKLAKE_CATALOG_DSN'', ''/data/cat''), (''DUCKLAKE_DATA_PATH'', ''/data/lake'')]"

definition time0 :: time_lib where
  "time0 = \<lparr>ParseDuration = (\<lambda>s. Inr minute), FormatDuration = show_int\<rparr>"

definition genv0 :: env_lib where
  "genv0 = \<lparr>Getenv = (\<lambda>k. case map_of env_vars0 k of None \<Rightarrow> [] | Some v \<Rightarrow> v), envTime = time0,
     envFloatLib = \<lparr>ParseFloat = (\<lambda>s. None), FormatG = (\<lambda>x. [])\<rparr>, envCE = lib0\<rparr>"

definition default_keys :: "string list" where
  "default_keys = [''DIMO_REGISTRY_CHAIN_ID'', ''DOCUMENT_SIZE_THRESHOLD'', ''MAX_BODY_BYTES'', ''RATE_LIMIT_RPS'',
     ''RATE_LIMIT_BURST'', ''NATS_REPLICAS'', ''NATS_STREAM_PARTITIONS'', ''NATS_STREAM_MAX_BYTES'',
     ''SIGNALS_MAX_BYTES'', ''EVENTS_MAX_BYTES'', ''DUCKDB_THREADS'', ''LAKE_MAINTENANCE_INTERVAL'',
     ''LAKE_SNAPSHOT_RETENTION'', ''LAKE_CONSUMER_STALENESS'', ''LAKE_ORPHAN_RETENTION'', ''LAKE_CLEANUP_GRACE'',
     ''LAKE_WRITER_CONNECTIONS'', ''LAKE_ROW_GROUP_SIZE'', ''LAKE_MERGE_MAX_FILES_PER_CALL'',
     ''LAKE_REWRITE_DELETE_THRESHOLD'', ''SINK_MAX_ROWS_PER_FLUSH'', ''SINK_MAX_BYTES_PER_FLUSH'',
     ''SINK_MIN_FLUSH_BYTES'', ''SINK_MAX_AGE'', ''SINK_MAX_AGE_HARD'', ''SINK_WORKERS'', ''SINK_DRAIN_TIMEOUT'',
     ''BLOB_BUCKET'', ''BLOB_ENCRYPTION_KEY'', ''S3_KMS_KEY_ID'']"

lemma default_keys_unset: "list_all (\<lambda>k. map_of env_vars0 k = None) default_keys"
  by code_simp

lemma env0_unset: "list_all (\<lambda>k. Getenv genv0 k = []) default_keys"
  using default_keys_unset by (simp add: genv0_def list_all_iff)

lemma env0_default:
  "list_all (\<lambda>k. (\<forall>n. envUint genv0 k n = Inr n) \<and> (\<forall>d. envDuration genv0 k d = Inr d) \<and> (\<forall>f. envFloat genv0 k f = Inr f)) default_keys"
  using env0_unset by (simp add: list_all_iff envUint_def envDuration_def envFloat_def)

lemmas env0_defaults = env0_default [unfolded default_keys_def list.pred_inject] env0_unset [unfolded default_keys_def list.pred_inject]

lemma env0_given:
  "Getenv genv0 ''DUCKLAKE_CATALOG_DSN'' = ''/data/cat''" "Getenv genv0 ''DUCKLAKE_DATA_PATH'' = ''/data/lake''"
  "envAddress genv0 ''VEHICLE_NFT_ADDRESS'' = Inr ''A''" "envAddress genv0 ''AFTERMARKET_NFT_ADDRESS'' = Inr ''A''"
  "envAddress genv0 ''SYNTHETIC_NFT_ADDRESS'' = Inr ''A''"
  by (simp_all add: envAddress_def genv0_def env_vars0_def lib0_def zero_address_def numeral_eq_Suc)

definition paths0 :: "settings \<Rightarrow> bool" where
  "paths0 s \<longleftrightarrow> sLakeCatalogDSN s = ''/data/cat'' \<and> sLakeDataPath s = ''/data/lake'' \<and> sBlobBucket s = [] \<and> sBlobEncryptionKey s = [] \<and>
     sS3KMSKeyID s = []"

lemma load0_parts:
  "paths0 (base_settings genv0)"
  "paths0 s \<Longrightarrow> \<exists>s'. load_chain genv0 s = Inr s' \<and> paths0 s'"
  "paths0 s \<Longrightarrow> \<exists>s'. load_limits genv0 s = Inr s' \<and> paths0 s'"
  "paths0 s \<Longrightarrow> \<exists>s'. load_nats genv0 s = Inr s' \<and> paths0 s'"
  "paths0 s \<Longrightarrow> \<exists>s'. load_lake genv0 s = Inr s' \<and> paths0 s' \<and> sLakeSnapshotKeep s' = 72 * hour \<and> sLakeConsumerStaleness s' = hour"
  "paths0 s \<Longrightarrow> \<exists>s'. load_sink genv0 s = Inr s' \<and> paths0 s' \<and> sLakeSnapshotKeep s' = sLakeSnapshotKeep s \<and>
     sLakeConsumerStaleness s' = sLakeConsumerStaleness s"
proof -
  have p: "ParseDuration (envTime genv0) v = Inr minute" for v by (simp add: genv0_def time0_def)
  show "paths0 (base_settings genv0)" by (simp add: paths0_def base_settings_def Let_def env0_defaults env0_given)
  show "paths0 s \<Longrightarrow> \<exists>s'. load_chain genv0 s = Inr s' \<and> paths0 s'"
    by (simp add: load_chain_def res_bind_def env0_defaults env0_given paths0_def)
  show "paths0 s \<Longrightarrow> \<exists>s'. load_limits genv0 s = Inr s' \<and> paths0 s'"
    by (simp add: load_limits_def res_bind_def env0_defaults paths0_def)
  show "paths0 s \<Longrightarrow> \<exists>s'. load_nats genv0 s = Inr s' \<and> paths0 s'"
    by (simp add: load_nats_def res_bind_def env0_defaults paths0_def)
  show "paths0 s \<Longrightarrow> \<exists>s'. load_lake genv0 s = Inr s' \<and> paths0 s' \<and> sLakeSnapshotKeep s' = 72 * hour \<and> sLakeConsumerStaleness s' = hour"
    by (simp add: load_lake_def res_bind_def env0_defaults paths0_def)
  show "paths0 s \<Longrightarrow> \<exists>s'. load_sink genv0 s = Inr s' \<and> paths0 s' \<and> sLakeSnapshotKeep s' = sLakeSnapshotKeep s \<and>
     sLakeConsumerStaleness s' = sLakeConsumerStaleness s"
    by (simp add: load_sink_def res_bind_def env0_defaults paths0_def p)
qed

lemma load0: "\<exists>s. Load (\<lambda>xs. xs) genv0 = Inr s"
proof -
  obtain s1 where 1: "load_chain genv0 (base_settings genv0) = Inr s1" "paths0 s1" using load0_parts(1,2) by blast
  obtain s2 where 2: "load_limits genv0 s1 = Inr s2" "paths0 s2" using load0_parts(3) [OF 1(2)] by blast
  obtain s3 where 3: "load_nats genv0 s2 = Inr s3" "paths0 s3" using load0_parts(4) [OF 2(2)] by blast
  obtain s4 where 4: "load_lake genv0 s3 = Inr s4" "paths0 s4" "sLakeSnapshotKeep s4 = 72 * hour" "sLakeConsumerStaleness s4 = hour"
    using load0_parts(5) [OF 3(2)] by blast
  obtain s5 where 5: "load_sink genv0 s4 = Inr s5" "paths0 s5" "sLakeSnapshotKeep s5 = 72 * hour" "sLakeConsumerStaleness s5 = hour"
    using load0_parts(6) [OF 4(2)] 4(3,4) by auto
  have "check_settings (\<lambda>xs. xs) T s5 = None" for T
    using 5(2-4) by (simp add: check_settings_def paths0_def validateMaintenance_def has_prefix_def duration_defs)
  then show ?thesis by (simp add: Load_def res_bind_def 1 2 3 4 5)
qed



section \<open>Maintenance settings\<close>



section \<open>The blob store\<close>


definition aws0 :: "(unit, unit) aws_lib" where
  "aws0 = \<lparr>LoadDefaultConfig = (\<lambda>os. Inr ()), NewFromConfig = (\<lambda>c ops. ())\<rparr>"

definition api0 :: "(unit, unit) s3_api" where
  "api0 = \<lparr>apiPutObject = (\<lambda>i b. (b, Some (errors_new ''down''))), NewPaginator = (\<lambda>b p. ()), HasMorePages = (\<lambda>p. False),
     NextPage = (\<lambda>p b. (p, Inr []))\<rparr>"

definition ssettings0 :: settings where
  "ssettings0 = (base_settings genv0)\<lparr>sBlobEncryptionKey := EncodeToString (replicate 32 (CHR ''k''))\<rparr>"

lemma wired_split0:
  "\<exists>st sev. MaybeSplit (New (WrapStore (Some aead0) rng0 (store_put api0)) ''p/'' 1) 0 ''u'' raw0 ((), FsState fs0) = (st, Inr sev) \<and> DataIndexKey sev \<noteq> []"
proof -
  let ?key = "buildBlobKey ''p/'' (hSubject (Header raw0)) 0 ''u''"
  obtain blob where s: "Seal aead0 rng0 ?key ''{}'' () = ((), Inr blob)" by (simp add: Seal_def rng0_def)
  obtain c' where p: "PutObject ?key blob fs0 = (c', None)" using put_fs0 ..
  have d: "dataPayloadLen raw0 = 2" "decodePayload raw0 = Inr ''{}''" by (simp_all add: dataPayloadLen_def decodePayload_def raw0_def)
  show ?thesis
    by (simp add: MaybeSplit_def New_def WrapStore_def enc_PutObject_def store_put_def d s p Let_def buildBlobKey_nonempty)
qed


end
