(* ===== verification/Startup.thy ===== *)
theory Startup
  imports Wiring Backfill
begin

text \<open>
  The life of the process, \<^verbatim>\<open>run\<close> and the subcommands of \<^verbatim>\<open>cmd/din/main.go\<close>, with the embedded server of
  \<^verbatim>\<open>internal/natsembed\<close> and the extension install of \<^verbatim>\<open>internal/lake/extensions.go\<close>. A function body with
  deferred releases is built from three combinators: a call that can fail, a call whose release is
  deferred, and an event. The events are what the outside can see: resources opened and released, goroutines
  started, the readiness gate, the end of the wait for the goroutines. What the goroutines do is the
  subject of the other theories; signals and log lines are left out.
\<close>

section \<open>Embedded NATS\<close>

record embed_config =
  StoreDir :: string
  emPort :: int
  StartTimeout :: duration
  MaxStore :: int

record embed_options =
  eoJetStream :: bool
  eoStoreDir :: string
  eoPort :: int
  eoNoSigs :: bool
  eoMaxStore :: int
  DontListen :: bool

record 's nats_lib =
  NewServer :: "embed_options \<Rightarrow> 's \<Rightarrow> 's \<times> go_error option"
  ReadyForConnections :: "duration \<Rightarrow> 's \<Rightarrow> 's \<times> bool"
  ShutdownServer :: "'s \<Rightarrow> 's"
  WaitForShutdown :: "'s \<Rightarrow> 's"
  ConnectInProcess :: "'s \<Rightarrow> 's \<times> go_error option"
  ConnectURL :: "string \<Rightarrow> 's \<Rightarrow> 's \<times> go_error option"
  CloseConn_nats :: "'s \<Rightarrow> 's"
  NewJetStream :: "'s \<Rightarrow> 's \<times> go_error option"

definition embed_opts :: "embed_config \<Rightarrow> embed_options" where
  "embed_opts cfg =
     \<lparr>eoJetStream = True, eoStoreDir = StoreDir cfg, eoPort = emPort cfg, eoNoSigs = True,
      eoMaxStore = (if 0 < MaxStore cfg then MaxStore cfg else 0), DontListen = (emPort cfg \<le> 0)\<rparr>"

definition Run_embed :: "time_lib \<Rightarrow> 's nats_lib \<Rightarrow> embed_config \<Rightarrow> 's \<Rightarrow> 's \<times> go_error option" where
  "Run_embed T N cfg s =
     (if StoreDir cfg = [] then (s, Some (errors_new ''natsembed: StoreDir is required''))
      else let timeout = (if StartTimeout cfg = 0 then 10 * second else StartTimeout cfg)
           in case NewServer N (embed_opts cfg) s of
                (s1, Some e) \<Rightarrow> (s1, Some (errorf ''creating embedded nats server: '' e ''''))
              | (s1, None) \<Rightarrow>
                  (case ReadyForConnections N timeout s1 of
                     (s2, True) \<Rightarrow> (s2, None)
                   | (s2, False) \<Rightarrow>
                       (WaitForShutdown N (ShutdownServer N s2),
                        Some (errors_new (''embedded nats server not ready after '' @ FormatDuration T timeout)))))"

definition Connect_embed :: "'s nats_lib \<Rightarrow> 's \<Rightarrow> 's \<times> go_error option" where
  "Connect_embed N s =
     (case ConnectInProcess N s of
        (s1, Some e) \<Rightarrow> (s1, Some (errorf ''connecting to embedded nats server: '' e ''''))
      | (s1, None) \<Rightarrow> (s1, None))"

section \<open>Combinators\<close>

datatype resource = EmbeddedServer | NATSConn | LakeDB | SinkWriter nat

datatype node_task = ConnectionListener | AttestationListener | OpsListener | SinkLoop nat sink_config
  | MaintainLoop maint_config | BridgeLoop bridge_config

datatype node_event = Opened resource | Released resource | Started node_task | ReadyOpened | Waited

type_synonym 'w body = "'w \<Rightarrow> 'w \<times> node_event list \<times> go_error option"

definition attempt :: "('w \<Rightarrow> 'w \<times> go_error option) \<Rightarrow> 'w body \<Rightarrow> 'w body" where
  "attempt f k w = (case f w of (w1, Some e) \<Rightarrow> (w1, [], Some e) | (w1, None) \<Rightarrow> k w1)"

definition with_deferred :: "resource \<Rightarrow> ('w \<Rightarrow> 'w \<times> go_error option) \<Rightarrow> ('w \<Rightarrow> 'w) \<Rightarrow> 'w body \<Rightarrow> 'w body" where
  "with_deferred r f release k w =
     (case f w of
        (w1, Some e) \<Rightarrow> (w1, [], Some e)
      | (w1, None) \<Rightarrow> (case k w1 of (w2, tr, res) \<Rightarrow> (release w2, Opened r # tr @ [Released r], res)))"

definition emit :: "node_event \<Rightarrow> 'w body \<Rightarrow> 'w body" where
  "emit ev k w = (case k w of (w1, tr, res) \<Rightarrow> (w1, ev # tr, res))"

section \<open>The node\<close>

text \<open>What \<^verbatim>\<open>run\<close> calls, over the state of the process's surroundings.\<close>

record ('w, 'h) node_ops =
  nRunEmbedded :: "embed_config \<Rightarrow> 'w \<Rightarrow> 'w \<times> go_error option"
  nShutdown :: "'w \<Rightarrow> 'w"
  nConnectEmbedded :: "'w \<Rightarrow> 'w \<times> go_error option"
  nConnect :: "string \<Rightarrow> 'w \<Rightarrow> 'w \<times> go_error option"
  nConnClose :: "'w \<Rightarrow> 'w"
  nJetStream :: "'w \<Rightarrow> 'w \<times> go_error option"
  nEnsureStreams :: "stream_settings \<Rightarrow> 'w \<Rightarrow> 'w \<times> 'h list result"
  nOpenLake :: "lake_config \<Rightarrow> 'w \<Rightarrow> 'w \<times> go_error option"
  nCloseLake :: "'w \<Rightarrow> 'w"
  nNewObjectStore :: "settings \<Rightarrow> string \<Rightarrow> 'w \<Rightarrow> 'w \<times> go_error option"
  nInitConverter :: "duration \<Rightarrow> convert_config \<Rightarrow> 'w \<Rightarrow> 'w"
  nNewVerifier :: "string \<Rightarrow> 'w \<Rightarrow> 'w \<times> go_error option"
  nNewConnectionServer :: "connection_config \<Rightarrow> 'w \<Rightarrow> 'w \<times> go_error option"
  nNewAttestationServer :: "attestation_config \<Rightarrow> 'w \<Rightarrow> 'w \<times> go_error option"
  nCreateConsumer :: "'h \<Rightarrow> sink_consumer_config \<Rightarrow> 'w \<Rightarrow> 'w \<times> go_error option"
  nNewWriterN :: "nat \<Rightarrow> int \<Rightarrow> 'w \<Rightarrow> 'w \<times> go_error option"
  nWriterClose :: "nat \<Rightarrow> 'w \<Rightarrow> 'w"
  nEnsureDecoded :: "bridge_config \<Rightarrow> 'w \<Rightarrow> 'w \<times> go_error option"
  nGroupWait :: "'w \<Rightarrow> 'w \<times> go_error option"

definition wait_all :: "('w, 'h) node_ops \<Rightarrow> 'w body" where
  "wait_all n w = (case nGroupWait n w of (w1, e) \<Rightarrow> (w1, [Waited], e))"

definition with_nats :: "('w, 'h) node_ops \<Rightarrow> settings \<Rightarrow> 'w body \<Rightarrow> 'w body" where
  "with_nats n s k =
     (if sNATSMode s = ''embedded''
      then with_deferred EmbeddedServer
             (nRunEmbedded n \<lparr>StoreDir = sNATSStoreDir s, emPort = 0, StartTimeout = 0, MaxStore = 0\<rparr>) (nShutdown n)
             (with_deferred NATSConn (nConnectEmbedded n) (nConnClose n) k)
      else with_deferred NATSConn (nConnect n (sNATSURL s)) (nConnClose n) k)"

text \<open>The loop over the partition streams.\<close>

fun start_sinks :: "('w, 'h) node_ops \<Rightarrow> settings \<Rightarrow> nat \<Rightarrow> nat \<Rightarrow> 'h list \<Rightarrow> 'w body \<Rightarrow> 'w body" where
  "start_sinks n s streams i [] k = k"
| "start_sinks n s streams i (h # hs) k =
     attempt (nCreateConsumer n h (sink_consumer s streams i))
       (with_deferred (SinkWriter i) (nNewWriterN n i (sLakeWriterConnections s)) (nWriterClose n i)
         (emit (Started (SinkLoop i (sink_config_for s streams i))) (start_sinks n s streams (Suc i) hs k)))"

definition start_maintenance :: "settings \<Rightarrow> 'w body \<Rightarrow> 'w body" where
  "start_maintenance s k =
     (if sLakeMaintenanceEnabled s then emit (Started (MaintainLoop (maintConfig s))) k else k)"

definition start_bridge :: "('w, 'h) node_ops \<Rightarrow> settings \<Rightarrow> 'w body \<Rightarrow> 'w body" where
  "start_bridge n s k =
     (if sDecodeStreamEnabled s
      then attempt (nJetStream n) (attempt (nEnsureDecoded n (bridgeConfig s)) (emit (Started (BridgeLoop (bridgeConfig s))) k))
      else k)"

definition require_blob_bucket :: "settings \<Rightarrow> 'w \<Rightarrow> 'w \<times> go_error option" where
  "require_blob_bucket s w = (w, if sBlobBucket s = [] then Some (errors_new ''BLOB_BUCKET is required'') else None)"

definition start_node :: "('w, 'h) node_ops \<Rightarrow> settings \<Rightarrow> 'h list \<Rightarrow> 'w body" where
  "start_node n s rawStreams =
     with_deferred LakeDB (nOpenLake n (lakeConfig s)) (nCloseLake n)
      (attempt (require_blob_bucket s)
      (attempt (nNewObjectStore n s (sBlobBucket s))
      (attempt (\<lambda>w. (nInitConverter n (sAllowableTimeSkew s) (convertConfig s) w, None))
      (attempt (nNewVerifier n (sRPCURL s))
      (attempt (nNewConnectionServer n (connectionConfig s))
      (attempt (nNewAttestationServer n (attestationConfig s))
      (emit (Started ConnectionListener) (emit (Started AttestationListener) (emit (Started OpsListener)
      (start_sinks n s (length rawStreams) 0 rawStreams
      (start_maintenance s
      (start_bridge n s
      (emit ReadyOpened (wait_all n))))))))))))))"

definition run :: "('w, 'h) node_ops \<Rightarrow> settings result \<Rightarrow> 'w body" where
  "run n loaded w =
     (case loaded of
        Inl e \<Rightarrow> (w, [], Some e)
      | Inr s \<Rightarrow>
          with_nats n s
            (attempt (nJetStream n)
              (\<lambda>w. case nEnsureStreams n (streamConfig s) w of
                     (w1, Inl e) \<Rightarrow> (w1, [], Some e)
                   | (w1, Inr rawStreams) \<Rightarrow> start_node n s rawStreams w1)) w)"

definition runMaintenance :: "('w, 'h) node_ops \<Rightarrow> settings result \<Rightarrow> 'w body" where
  "runMaintenance n loaded w =
     (case loaded of
        Inl e \<Rightarrow> (w, [], Some e)
      | Inr s \<Rightarrow>
          with_deferred LakeDB (nOpenLake n (lakeConfig s)) (nCloseLake n)
            (emit (Started OpsListener) (emit (Started (MaintainLoop (maintConfig s))) (wait_all n))) w)"

section \<open>Listeners\<close>

text \<open>\<^verbatim>\<open>serveHTTP\<close>. The listener runs until it fails or is shut down; the flag says whether the context was done
  before it returned. An error of the shutdown is only logged.\<close>

record 's http_listener =
  ListenAndServeTLS :: "'s \<Rightarrow> 's \<times> go_error"
  ListenAndServe :: "'s \<Rightarrow> 's \<times> go_error"
  hsShutdown :: "'s \<Rightarrow> 's \<times> go_error option"

definition serveHTTP :: "'s http_listener \<Rightarrow> bool \<Rightarrow> bool \<Rightarrow> 's \<Rightarrow> 's \<times> go_error option" where
  "serveHTTP srv useTLS ctxDone s =
     (if ctxDone then (fst (hsShutdown srv s), None)
      else case (if useTLS then ListenAndServeTLS srv s else ListenAndServe srv s) of
        (s1, err) \<Rightarrow> (s1, if errors_is err ErrServerClosed then None else Some err))"

section \<open>Subcommands\<close>

type_synonym 'w command = "'w \<Rightarrow> ('w \<times> go_error option) option"

text \<open>\<^verbatim>\<open>runSubcommand\<close> over the three commands it dispatches to; \<^verbatim>\<open>main\<close> calls it when there are arguments.\<close>

definition runSubcommand ::
  "(string \<Rightarrow> 'w command) \<Rightarrow> 'w command \<Rightarrow> (string \<Rightarrow> 'w command) \<Rightarrow> string list \<Rightarrow> 'w command" where
  "runSubcommand install maintain backfill args w =
     (let cmd = hd args
      in if cmd = ''install-duckdb-extensions''
         then (if length args \<noteq> 2 then Some (w, Some (errors_new ''usage: din install-duckdb-extensions <dir>''))
               else install (args ! 1) w)
         else if cmd = ''maintain'' then maintain w
         else if cmd = ''lake-backfill''
         then (if length args \<noteq> 2 then Some (w, Some (errors_new ''usage: din lake-backfill <s3://bucket/prefix/ | /abs/dir>''))
               else backfill (args ! 1) w)
         else Some (w, Some (errors_new (''unknown subcommand '' @ fmt_q cmd))))"

definition main_din ::
  "'w command \<Rightarrow> (string \<Rightarrow> 'w command) \<Rightarrow> 'w command \<Rightarrow> (string \<Rightarrow> 'w command) \<Rightarrow> string list \<Rightarrow> 'w command" where
  "main_din service install maintain backfill os_Args =
     (if 1 < length os_Args then runSubcommand install maintain backfill (drop 1 os_Args) else service)"

definition InstallExtensions :: "'d cat_ops \<Rightarrow> string \<Rightarrow> 'd \<Rightarrow> 'd \<times> go_error option" where
  "InstallExtensions l dir d =
     (case catConnect l d of
        (d1, Some e) \<Rightarrow> (d1, Some (errorf ''opening duckdb: '' e ''''))
      | (d1, None) \<Rightarrow>
          (case exec_all (map (\<lambda>q. wrap_err (q @ '': '') (catExec l q))
                  [''SET extension_directory = '' @ sqlString dir, ''INSTALL ducklake'', ''INSTALL postgres'', ''INSTALL httpfs'']) d1 of
             (d2, r) \<Rightarrow> (catCloseDB l d2, r)))"

definition strings_Cut :: "char \<Rightarrow> string \<Rightarrow> string \<times> string" where
  "strings_Cut c s = (takeWhile (\<lambda>x. x \<noteq> c) s, drop 1 (dropWhile (\<lambda>x. x \<noteq> c) s))"

definition trim_suffix :: "string \<Rightarrow> string \<Rightarrow> string" where
  "trim_suffix s suf = (if has_suffix s suf then take (length s - length suf) s else s)"

text \<open>The bucket, the key prefix and the start of the URIs of a source.\<close>

definition backfill_source :: "string \<Rightarrow> (string \<times> string \<times> string) result" where
  "backfill_source source =
     (if has_prefix source ''s3://''
      then (case strings_Cut (CHR ''/'') (drop 5 source) of
              (bucket, pre) \<Rightarrow> Inr (bucket, pre, ''s3://'' @ bucket @ ''/''))
      else if IsLocalPath source then Inr (source, [], trim_suffix (LocalRoot source) ''/'' @ ''/'')
      else Inl (errors_new (''source must be s3://bucket/prefix/ or an absolute path, got '' @ fmt_q source)))"

text \<open>\<^verbatim>\<open>lakeBackfill\<close>. The sealing of the store does not concern the listing. There is no result if the pages
  of the listing never end.\<close>

definition lakeBackfill ::
  "'o os_ops \<Rightarrow> ('a, 'b) aws_lib \<Rightarrow> ('b, 'p) s3_api \<Rightarrow> ('o \<Rightarrow> string \<Rightarrow> fs_tree result) \<Rightarrow> (bytes \<Rightarrow> 'c result)
     \<Rightarrow> ('c \<Rightarrow> aead result) \<Rightarrow> 'r rng \<Rightarrow> (string \<Rightarrow> (string \<times> string) result) \<Rightarrow> 'd cat_ops \<Rightarrow> 'd file_lister
     \<Rightarrow> settings result \<Rightarrow> string \<Rightarrow> 'o \<Rightarrow> 'd \<Rightarrow> ('o \<times> 'd \<times> go_error option) option" where
  "lakeBackfill ops A api lstat aes gcm rng parseURL l list_files loaded source os d =
     (case loaded of
        Inl e \<Rightarrow> Some (os, d, Some e)
      | Inr s \<Rightarrow>
     (case backfill_source source of
        Inl e \<Rightarrow> Some (os, d, Some e)
      | Inr (bucket, pre, uriBase) \<Rightarrow>
     (case newObjectStore ops A api aes gcm rng s bucket os of
        (os1, Inl e) \<Rightarrow> Some (os1, d, Some e)
      | (os1, Inr (store, put)) \<Rightarrow>
     (case store_list api lstat pre store of
        None \<Rightarrow> None
      | Some (Inl e) \<Rightarrow> Some (os1, d, Some (errorf (''listing '' @ source @ '': '') e ''''))
      | Some (Inr objects) \<Rightarrow>
     (case Open_lake parseURL l (lakeConfig s) d of
        (d1, Some e) \<Rightarrow> Some (os1, d1, Some e)
      | (d1, None) \<Rightarrow>
          (case Backfill_lake l list_files (map (\<lambda>x. uriBase @ oiKey x) objects) d1 of
             (d2, res, err) \<Rightarrow> Some (os1, catCloseDB l d2, err)))))))"

section \<open>The node's surroundings\<close>

text \<open>The broker, the database, the file system, the connections each sink's writer has pinned, and the two
  globals of the converter: the tolerated skew and the registry of device modules.\<close>

record ('s, 'd, 'o) node_world =
  nwNATS :: 's
  nwDB :: 'd
  nwOS :: 'o
  nwConns :: "nat \<Rightarrow> nat list"
  nwSkew :: duration
  nwModules :: "string \<rightharpoonup> device_module"

definition on_nats :: "('s \<Rightarrow> 's \<times> 'x) \<Rightarrow> ('s, 'd, 'o) node_world \<Rightarrow> ('s, 'd, 'o) node_world \<times> 'x" where
  "on_nats f w = (case f (nwNATS w) of (s, x) \<Rightarrow> (w\<lparr>nwNATS := s\<rparr>, x))"

definition on_db :: "('d \<Rightarrow> 'd \<times> 'x) \<Rightarrow> ('s, 'd, 'o) node_world \<Rightarrow> ('s, 'd, 'o) node_world \<times> 'x" where
  "on_db f w = (case f (nwDB w) of (d, x) \<Rightarrow> (w\<lparr>nwDB := d\<rparr>, x))"

definition left_of :: "'a + 'b \<Rightarrow> 'a option" where
  "left_of r = (case r of Inl e \<Rightarrow> Some e | Inr _ \<Rightarrow> None)"

definition NewVerifier :: "(string \<Rightarrow> go_error option) \<Rightarrow> string \<Rightarrow> go_error option" where
  "NewVerifier dial rpcURL =
     (case dial rpcURL of None \<Rightarrow> None | Some e \<Rightarrow> Some (errorf (''failed to connect to rpc url '' @ rpcURL @ '': '') e ''''))"

definition new_writer :: "'d duck_ops \<Rightarrow> ce_lib \<Rightarrow> nat \<Rightarrow> int \<Rightarrow> ('s, 'd, 'o) node_world \<Rightarrow> ('s, 'd, 'o) node_world \<times> go_error option" where
  "new_writer D L i conns w =
     (case NewWriterN D L RawTable conns (nwDB w) of
        (d, Inl e) \<Rightarrow> (w\<lparr>nwDB := d\<rparr>, Some e)
      | (d, Inr wr) \<Rightarrow> (w\<lparr>nwDB := d, nwConns := (nwConns w)(i := wConns wr)\<rparr>, None))"

definition din_node ::
  "time_lib \<Rightarrow> module_sources \<Rightarrow> 's nats_lib \<Rightarrow> ('s, 'h) js_admin \<Rightarrow> ('h \<Rightarrow> sink_consumer_config \<Rightarrow> 's \<Rightarrow> 's \<times> go_error option)
     \<Rightarrow> (string \<Rightarrow> (string \<times> string) result) \<Rightarrow> 'd cat_ops \<Rightarrow> 'd duck_ops \<Rightarrow> ce_lib
     \<Rightarrow> 'o os_ops \<Rightarrow> ('a, 'b) aws_lib \<Rightarrow> ('b, 'p) s3_api \<Rightarrow> (bytes \<Rightarrow> 'c result) \<Rightarrow> ('c \<Rightarrow> aead result) \<Rightarrow> 'r rng
     \<Rightarrow> (string \<Rightarrow> go_error option) \<Rightarrow> 'x tls_ops \<Rightarrow> 'k jwt_lib \<Rightarrow> 'l rate_lib \<Rightarrow> (string \<Rightarrow> (string \<times> string) result)
     \<Rightarrow> (http_request \<Rightarrow> 'y \<Rightarrow> 'y \<times> http_response option) \<Rightarrow> (http_request \<Rightarrow> 'z \<Rightarrow> 'z \<times> http_response option)
     \<Rightarrow> (('s, 'd, 'o) node_world \<Rightarrow> ('s, 'd, 'o) node_world \<times> go_error option)
     \<Rightarrow> (('s, 'd, 'o) node_world, 'h) node_ops" where
  "din_node T M N js mkconsumer parseURL l D L ops A api aes gcm rng dial tls J R hp connection attestation wait =
     \<lparr>nRunEmbedded = (\<lambda>cfg. on_nats (Run_embed T N cfg)), nShutdown = (\<lambda>w. w\<lparr>nwNATS := ShutdownServer N (nwNATS w)\<rparr>),
      nConnectEmbedded = on_nats (Connect_embed N), nConnect = (\<lambda>url. on_nats (ConnectURL N url)),
      nConnClose = (\<lambda>w. w\<lparr>nwNATS := CloseConn_nats N (nwNATS w)\<rparr>), nJetStream = on_nats (NewJetStream N),
      nEnsureStreams = (\<lambda>cfg. on_nats (EnsureStreams js cfg)),
      nOpenLake = (\<lambda>cfg. on_db (Open_lake parseURL l cfg)), nCloseLake = (\<lambda>w. w\<lparr>nwDB := catCloseDB l (nwDB w)\<rparr>),
      nNewObjectStore = (\<lambda>s bucket w.
         case newObjectStore ops A api aes gcm rng s bucket (nwOS w) of (o1, r) \<Rightarrow> (w\<lparr>nwOS := o1\<rparr>, left_of r)),
      nInitConverter = (\<lambda>skew cfg w.
         w\<lparr>nwSkew := SetAllowableTimeSkew skew (nwSkew w), nwModules := RegisterModules M cfg (nwModules w)\<rparr>),
      nNewVerifier = (\<lambda>url w. (w, NewVerifier dial url)),
      nNewConnectionServer = (\<lambda>cfg w. (w, left_of (NewConnectionServer tls R hp cfg (postOnly (ingest_handler connection))))),
      nNewAttestationServer = (\<lambda>cfg w. (w, left_of (NewAttestationServer L J R hp cfg (postOnly (ingest_handler attestation))))),
      nCreateConsumer = (\<lambda>h cfg. on_nats (mkconsumer h cfg)), nNewWriterN = new_writer D L,
      nWriterClose = (\<lambda>i w. w\<lparr>nwDB := fst (close_conns D (nwConns w i) (nwDB w))\<rparr>),
      nEnsureDecoded = (\<lambda>cfg. on_nats (EnsureStreams_decoded js (New_config cfg))), nGroupWait = wait\<rparr>"

text \<open>The program: the service and the subcommands over the same surroundings. The maintenance command serves
  the operations endpoints beside the maintainer's loop, as \<^verbatim>\<open>run\<close> does.\<close>

definition body_command :: "'w body \<Rightarrow> 'w command" where
  "body_command b w = (case b w of (w1, tr, e) \<Rightarrow> Some (w1, e))"

definition din_main ::
  "(('s, 'd, 'o) node_world, 'h) node_ops \<Rightarrow> 'o os_ops \<Rightarrow> ('a, 'b) aws_lib \<Rightarrow> ('b, 'p) s3_api \<Rightarrow> ('o \<Rightarrow> string \<Rightarrow> fs_tree result)
     \<Rightarrow> (bytes \<Rightarrow> 'c result) \<Rightarrow> ('c \<Rightarrow> aead result) \<Rightarrow> 'r rng \<Rightarrow> (string \<Rightarrow> (string \<times> string) result) \<Rightarrow> 'd cat_ops
     \<Rightarrow> 'd file_lister \<Rightarrow> settings result \<Rightarrow> string list \<Rightarrow> ('s, 'd, 'o) node_world command" where
  "din_main n ops A api lstat aes gcm rng parseURL l list_files loaded =
     main_din (body_command (run n loaded)) (\<lambda>dir w. Some (on_db (InstallExtensions l dir) w))
       (body_command (runMaintenance n loaded))
       (\<lambda>source w. case lakeBackfill ops A api lstat aes gcm rng parseURL l list_files loaded source (nwOS w) (nwDB w) of
          None \<Rightarrow> None
        | Some (os, d, e) \<Rightarrow> Some (w\<lparr>nwOS := os, nwDB := d\<rparr>, e))"

section \<open>What a life looks like\<close>

fun opens :: "node_event list \<Rightarrow> resource list" where
  "opens [] = []"
| "opens (Opened r # tr) = r # opens tr"
| "opens (_ # tr) = opens tr"

fun releases :: "node_event list \<Rightarrow> resource list" where
  "releases [] = []"
| "releases (Released r # tr) = r # releases tr"
| "releases (_ # tr) = releases tr"

fun tasks :: "node_event list \<Rightarrow> node_task list" where
  "tasks [] = []"
| "tasks (Started t # tr) = t # tasks tr"
| "tasks (_ # tr) = tasks tr"

lemma opens_append [simp]: "opens (a @ b) = opens a @ opens b"
  by (induction a rule: opens.induct) simp_all

lemma releases_append [simp]: "releases (a @ b) = releases a @ releases b"
  by (induction a rule: releases.induct) simp_all

lemma released_only [simp]: "opens (map Released rs) = []" "releases (map Released rs) = rs"
  by (induction rs) simp_all

text \<open>A run that gets ready opens the resources \<open>os\<close> and starts the tasks \<open>ts\<close> before, and releases after the
  wait; one that does not fails, with everything it opened released in reverse.\<close>

definition life :: "resource list \<Rightarrow> node_task list \<Rightarrow> node_event list \<Rightarrow> go_error option \<Rightarrow> bool" where
  "life os ts tr res \<longleftrightarrow>
     (\<exists>pre. tr = pre @ [ReadyOpened, Waited] @ map Released (rev os) \<and> ReadyOpened \<notin> set pre \<and> releases pre = [] \<and>
        opens pre = os \<and> tasks pre = ts) \<or>
     (ReadyOpened \<notin> set tr \<and> Waited \<notin> set tr \<and> res \<noteq> None \<and> releases tr = rev (opens tr))"

lemma life_fail: "life os ts [] (Some e)"
  by (simp add: life_def)

lemma life_deferred: "life os ts tr res \<Longrightarrow> life (r # os) ts (Opened r # tr @ [Released r]) res"
  unfolding life_def by (elim disjE exE) (rule disjI1, rule_tac x = "Opened r # pre" in exI, simp, rule disjI2, simp)

lemma life_started: "life os ts tr res \<Longrightarrow> life os (t # ts) (Started t # tr) res"
  unfolding life_def by (elim disjE exE) (rule disjI1, rule_tac x = "Started t # pre" in exI, simp, rule disjI2, simp)

definition completes :: "resource list \<Rightarrow> node_task list \<Rightarrow> 'w body \<Rightarrow> bool" where
  "completes os ts k \<longleftrightarrow> (\<forall>w. life os ts (fst (snd (k w))) (snd (snd (k w))))"

lemma completes_life: "completes os ts k \<Longrightarrow> k w = (w', tr, res) \<Longrightarrow> life os ts tr res"
  unfolding completes_def by (drule spec [of _ w]) simp

lemma completes_attempt: "completes os ts k \<Longrightarrow> completes os ts (attempt f k)"
  by (simp add: completes_def attempt_def life_fail split: prod.splits option.splits)

lemma completes_deferred: "completes os ts k \<Longrightarrow> completes (r # os) ts (with_deferred r f release k)"
  unfolding completes_def
proof
  fix w assume k: "\<forall>w. life os ts (fst (snd (k w))) (snd (snd (k w)))"
  obtain w1 e where f: "f w = (w1, e)" by (cases "f w")
  obtain w2 tr res where r: "k w1 = (w2, tr, res)" by (cases "k w1") auto
  with k [rule_format, of w1] have "life os ts tr res" by simp
  then show "life (r # os) ts (fst (snd (with_deferred r f release k w))) (snd (snd (with_deferred r f release k w)))"
    using f r by (cases e) (simp_all add: with_deferred_def life_deferred life_fail)
qed

lemma completes_emit: "completes os ts k \<Longrightarrow> completes os (t # ts) (emit (Started t) k)"
  by (auto simp: completes_def emit_def split: prod.splits intro!: life_started) (metis fst_conv snd_conv)

lemma completes_ready: "completes [] [] (emit ReadyOpened (wait_all n))"
  by (auto simp: completes_def life_def emit_def wait_all_def split: prod.splits)

lemmas completes_intros = completes_attempt completes_deferred completes_emit completes_ready

lemma completes_sinks:
  "completes os ts k \<Longrightarrow>
     completes (map SinkWriter [i..<i + length hs] @ os) (map (\<lambda>i. SinkLoop i (sink_config_for s streams i)) [i..<i + length hs] @ ts)
       (start_sinks n s streams i hs k)"
proof (induction hs arbitrary: i)
  case (Cons h hs)
  have u: "[i..<i + length (h # hs)] = i # [Suc i..<Suc i + length hs]" by (simp add: upt_rec)
  show ?case unfolding u list.map append_Cons start_sinks.simps by (intro completes_intros Cons)
qed simp

lemma completes_node:
  "completes (LakeDB # map SinkWriter [0..<length hs])
     ([ConnectionListener, AttestationListener, OpsListener] @ map (\<lambda>i. SinkLoop i (sink_config_for s (length hs) i)) [0..<length hs] @
      (if sLakeMaintenanceEnabled s then [MaintainLoop (maintConfig s)] else []) @
      (if sDecodeStreamEnabled s then [BridgeLoop (bridgeConfig s)] else []))
     (start_node n s hs)"
proof -
  let ?b = "if sDecodeStreamEnabled s then [BridgeLoop (bridgeConfig s)] else []"
  let ?m = "if sLakeMaintenanceEnabled s then [MaintainLoop (maintConfig s)] else []"
  have "completes [] ?b (start_bridge n s (emit ReadyOpened (wait_all n)))"
    by (simp add: start_bridge_def completes_intros)
  then have "completes [] (?m @ ?b) (start_maintenance s (start_bridge n s (emit ReadyOpened (wait_all n))))"
    by (simp add: start_maintenance_def completes_emit)
  from completes_sinks [OF this, of 0 hs s "length hs" n]
  have "completes (map SinkWriter [0..<length hs])
      (map (\<lambda>i. SinkLoop i (sink_config_for s (length hs) i)) [0..<length hs] @ ?m @ ?b)
      (start_sinks n s (length hs) 0 hs (start_maintenance s (start_bridge n s (emit ReadyOpened (wait_all n)))))" by simp
  then show ?thesis unfolding start_node_def append_Cons append_Nil by (intro completes_intros)
qed

lemma completes_nats:
  "completes os ts k \<Longrightarrow> completes ((if sNATSMode s = ''embedded'' then [EmbeddedServer] else []) @ NATSConn # os) ts (with_nats n s k)"
  by (simp add: with_nats_def completes_deferred)

end
