(* ===== verification/Startup_Props.thy ===== *)
theory Startup_Props
  imports Startup Node_Props Backfill_Props
begin

text \<open>
  The properties of the process's life and of the backfill command: what is opened, started and released, in which
  order, and which files a backfill of a local directory registers.
\<close>

section \<open>The life of the node\<close>

lemma EnsureStreams_length:
  "EnsureStreams js cfg s = (s', Inr hs) \<Longrightarrow> 1 \<le> Partitions cfg \<Longrightarrow> length hs = nat (Partitions cfg)"
  by (elim EnsureStreams_successE) (auto dest!: create_loop_trace simp: effective_def)

text \<open>C29. The node gets ready only when it is complete, and leaves nothing open: either the readiness gate opens, after
  the NATS connection, the lake and one writer per partition stream have been opened and the three listeners, one sink
  loop per stream and, where enabled, the maintenance loop and the bridge have been started, and then
  nothing is released before the wait for these has ended; or the gate never opens and an error is returned. In
  both cases every resource opened is released, in the reverse order.\<close>

theorem node_lifecycle:
  assumes "run (din_node T M N js mkconsumer parseURL l D L ops A api aes gcm rng dial tls J R hp connection attestation wait) (Inr s) w = (w', tr, res)"
    "1 \<le> sNATSStreamPartitions s"
  shows "let k = nat (sNATSStreamPartitions s) in
    life ((if sNATSMode s = ''embedded'' then [EmbeddedServer] else []) @ [NATSConn, LakeDB] @ map SinkWriter [0..<k])
      ([ConnectionListener, AttestationListener, OpsListener] @ map (\<lambda>i. SinkLoop i (sink_config_for s k i)) [0..<k] @
       (if sLakeMaintenanceEnabled s then [MaintainLoop (maintConfig s)] else []) @
       (if sDecodeStreamEnabled s then [BridgeLoop (bridgeConfig s)] else [])) tr res \<and>
    releases tr = rev (opens tr)"
proof -
  let ?n = "din_node T M N js mkconsumer parseURL l D L ops A api aes gcm rng dial tls J R hp connection attestation wait"
  let ?k = "nat (sNATSStreamPartitions s)"
  let ?ts = "[ConnectionListener, AttestationListener, OpsListener] @ map (\<lambda>i. SinkLoop i (sink_config_for s ?k i)) [0..<?k] @
       (if sLakeMaintenanceEnabled s then [MaintainLoop (maintConfig s)] else []) @
       (if sDecodeStreamEnabled s then [BridgeLoop (bridgeConfig s)] else [])"
  let ?e = "\<lambda>w. case nEnsureStreams ?n (streamConfig s) w of (w1, Inl e) \<Rightarrow> (w1, [], Some e) | (w1, Inr hs) \<Rightarrow> start_node ?n s hs w1"
  have "length hs = ?k" if "nEnsureStreams ?n (streamConfig s) w = (w1, Inr hs)" for w w1 hs
    using that assms(2) EnsureStreams_length [of js "streamConfig s"]
    by (auto simp: din_node_def on_nats_def streamConfig_def split: prod.splits)
  note len = this
  have "completes (LakeDB # map SinkWriter [0..<?k]) ?ts ?e"
    unfolding completes_def
  proof
    fix w
    obtain w1 r where e: "nEnsureStreams ?n (streamConfig s) w = (w1, r)" by (cases "nEnsureStreams ?n (streamConfig s) w")
    show "life (LakeDB # map SinkWriter [0..<?k]) ?ts (fst (snd (?e w))) (snd (snd (?e w)))"
    proof (cases r)
      case (Inl err)
      then show ?thesis by (simp add: e life_fail)
    next
      case (Inr hs)
      with len e have "length hs = ?k" by blast
      with completes_node [of hs s ?n] e Inr show ?thesis unfolding completes_def by simp
    qed
  qed
  then have "completes ((if sNATSMode s = ''embedded'' then [EmbeddedServer] else []) @ NATSConn # LakeDB # map SinkWriter [0..<?k]) ?ts
      (with_nats ?n s (attempt (nJetStream ?n) ?e))"
    by (intro completes_nats completes_attempt)
  moreover have "with_nats ?n s (attempt (nJetStream ?n) ?e) w = (w', tr, res)" using assms(1) by (simp add: run_def)
  ultimately have lf: "life ((if sNATSMode s = ''embedded'' then [EmbeddedServer] else []) @ NATSConn # LakeDB # map SinkWriter [0..<?k]) ?ts tr res"
    by (rule completes_life)
  moreover have "releases tr = rev (opens tr)" using lf unfolding life_def by auto
  ultimately show ?thesis by (simp add: Let_def)
qed

section \<open>Backfill of a directory\<close>

lemma newObjectStore_local:
  assumes "newObjectStore ops A api aes gcm rng s bucket os = (os', Inr (store, put))" "IsLocalPath bucket"
  shows "store = FsState \<lparr>fs_root = LocalRoot bucket, fs_ops = ops, fs_state = os'\<rparr>"
  using assms by (auto simp: newObjectStore_def newBaseObjectStore_def New_fsstore_def split: prod.splits sum.splits option.splits if_splits)

lemma IsLocalPath_not_s3: "IsLocalPath p \<Longrightarrow> \<not> has_prefix p ''s3://''"
  by (auto simp: IsLocalPath_def has_prefix_iff)


section \<open>A node in a box\<close>

definition nats0 :: "string list nats_lib" where
  "nats0 = \<lparr>NewServer = (\<lambda>opts s. (s, None)), ReadyForConnections = (\<lambda>t s. (s, True)), ShutdownServer = (\<lambda>s. s),
     WaitForShutdown = (\<lambda>s. s), ConnectInProcess = (\<lambda>s. (s, None)), ConnectURL = (\<lambda>u s. (s, None)), CloseConn_nats = (\<lambda>s. s),
     NewJetStream = (\<lambda>s. (s, None))\<rparr>"

definition duck1 :: "file_db duck_ops" where
  "duck1 = \<lparr>OpenConn = (\<lambda>d. (d, Inr 0)), CloseConn = (\<lambda>c d. (d, None)), ExecContext = (\<lambda>k q c d. (d, None)),
     DriverIsDuckDB = (\<lambda>c. True), NewAppender = (\<lambda>t c d. (d, None)), AppendRow = (\<lambda>r c d. (d, None)),
     CloseWithCancel = (\<lambda>c d. (d, None)), RetryWait = (\<lambda>t d. (d, None))\<rparr>"

definition sources0 :: module_sources where
  "sources0 = \<lparr>AutoPiSource = ''a'', RuptelaSource = ''r'', KaufmannSource = ''k'', HashDogSource = ''h''\<rparr>"

definition url0 :: "string \<Rightarrow> (string \<times> string) result" where "url0 u = Inr (u, [])"

definition admin1 :: "(string list, string) js_admin" where
  "admin1 = \<lparr>StreamNames = (\<lambda>s. ([], None)), CreateOrUpdateStream = (\<lambda>cfg s. (s, Inr (scName cfg)))\<rparr>"

definition node0 :: "((string list, file_db, (string \<times> bytes) list) node_world, string) node_ops" where
  "node0 = din_node time0 sources0 nats0 admin1 (\<lambda>h cfg s. (s, None)) url0 cat1 duck1 lib0 os0 aws0 api0 (\<lambda>b. Inr ()) (\<lambda>u. Inr aead0) rng0
     (\<lambda>u. None) tls0 jwt0 rate0 hp0 count0 count0 (\<lambda>w. (w, None))"

definition world0 :: "(string list, file_db, (string \<times> bytes) list) node_world" where
  "world0 = \<lparr>nwNATS = [], nwDB = \<lparr>fdSnaps = [], fdPend = []\<rparr>, nwOS = [], nwConns = (\<lambda>i. []), nwSkew = 0, nwModules = (\<lambda>k. None)\<rparr>"

definition nsettings0 :: settings where
  "nsettings0 = (base_settings genv0)\<lparr>sNATSStreamPartitions := 2, sBlobBucket := ''/blobs'', sLakeWriterConnections := 1\<rparr>"

text \<open>The lake opens over the catalog of files, and every call of the node succeeds.\<close>

lemma exec_all_quiet: "\<forall>f\<in>set fs. \<forall>d. f d = (d, None) \<Longrightarrow> exec_all fs d = (d, None)"
  by (induction fs) (simp_all add: err_then_def)

lemma Open_lake_cat1:
  assumes "CatalogDSN cfg \<noteq> []" "DataPath cfg \<noteq> []"
  shows "Open_lake url0 cat1 cfg d = (d, None)"
proof -
  have c: "catExec cat1 q d = (d, None)" "catSelect cat1 d = (d, None)" "catHasTable cat1 t d" "catEncrypted cat1 d = None"
    "catConnect cat1 d = (d, None)" "catMkdirAll cat1 p d = (d, None)" "catSetMaxOpenConns cat1 n d = d"
    "catPartitionColumns cat1 d = 4" "catSortSpecs cat1 d = 1" "catPause cat1 d = []" for q d t p n
    by (simp_all add: cat1_def)
  have r: "retryCatalog wait f d = (d, None)" if "f d = (d, None)" for wait f and d :: file_db
    using that by (simp add: retryCatalog_def retryCatalogIf_def retry_loop.simps)
  have "exec_all (map (run_setup cat1) qs) d = (d, None)" for qs
    by (rule exec_all_quiet) (auto simp: run_setup_def c)
  moreover have "assertEncryptionState cat1 cfg d = (d, None)" by (simp add: assertEncryptionState_def c)
  moreover have "reassertLayout cat1 d = (d, None)"
    by (simp add: reassertLayout_def backfillPauseActive_def ensureBackfillPauseTable_def pause_fresh_def isPartitioned_def isSorted_def c assert_spec_def err_then_def ok_true_def)
  then have "ensureSchema cat1 d = (d, None)" by (simp add: ensureSchema_def r tryEnsureSchema_def c)
  moreover have "tryAssertOptions cat1 cfg d = (d, None)"
    unfolding tryAssertOptions_def by (rule exec_all_quiet) (auto simp: wrap_err_def c)
  then have "assertOptions cat1 cfg d = (d, None)" by (simp add: assertOptions_def r)
  ultimately have "bootstrap url0 cat1 cfg d = (d, None)" by (simp add: bootstrap_def err_then_def wrap_err_def r c)
  with assms show ?thesis by (simp add: Open_lake_def err_then_def wrap_err_def c)
qed

definition readies :: "'w body \<Rightarrow> bool" where
  "readies k \<longleftrightarrow> (\<forall>w. ReadyOpened \<in> set (fst (snd (k w))))"

lemma readies_attempt: "(\<And>w. snd (f w) = None) \<Longrightarrow> readies k \<Longrightarrow> readies (attempt f k)"
  unfolding readies_def attempt_def by (intro allI) (metis (no_types, lifting) case_prod_unfold option.simps(4))

lemma readies_deferred: "(\<And>w. snd (f w) = None) \<Longrightarrow> readies k \<Longrightarrow> readies (with_deferred r f release k)"
  by (auto simp: readies_def with_deferred_def case_prod_unfold)

lemma readies_emit: "readies k \<Longrightarrow> readies (emit ev k)"
  by (auto simp: readies_def emit_def case_prod_unfold)

lemma readies_ready: "readies (emit ReadyOpened (wait_all n))"
  by (simp add: readies_def emit_def wait_all_def case_prod_unfold)

lemma readies_sinks:
  "(\<And>h cfg w. snd (nCreateConsumer n h cfg w) = None) \<Longrightarrow> (\<And>i c w. snd (nNewWriterN n i c w) = None) \<Longrightarrow> readies k \<Longrightarrow>
     readies (start_sinks n s streams i hs k)"
  by (induction hs arbitrary: i) (simp_all add: readies_attempt readies_deferred readies_emit)

lemma nsettings0_sel:
  "sNATSStreamPartitions nsettings0 = 2" "sBlobBucket nsettings0 = ''/blobs''" "sLakeCatalogDSN nsettings0 = ''/data/cat''"
  "sLakeDataPath nsettings0 = ''/data/lake''" "sBlobEncryptionKey nsettings0 = []"
  using load0_parts(1) by (simp_all add: nsettings0_def paths0_def)

lemma pin_conns_duck1: "\<exists>cs'. pin_conns duck1 n cs d = (d, Inr cs')"
  by (induction n arbitrary: cs) (simp_all add: duck1_def)

lemma node0_ops:
  "snd (nConnect node0 u w) = None" "snd (nConnectEmbedded node0 w) = None" "snd (nJetStream node0 w) = None"
  "snd (nNewVerifier node0 u w) = None" "snd (nNewConnectionServer node0 (connectionConfig s) w) = None"
  "snd (nNewAttestationServer node0 acfg w) = None" "snd (nCreateConsumer node0 h cc w) = None" "snd (nEnsureDecoded node0 bc w) = None"
  "snd (nOpenLake node0 (lakeConfig nsettings0) w) = None" "snd (nNewObjectStore node0 nsettings0 ''/blobs'' w) = None"
  "snd (nNewWriterN node0 i c w) = None" "snd (nRunEmbedded node0 \<lparr>StoreDir = ''/d'', emPort = 0, StartTimeout = 0, MaxStore = 0\<rparr> w) = None"
proof -
  have "Open_lake url0 cat1 (lakeConfig nsettings0) d = (d, None)" for d
    by (rule Open_lake_cat1) (simp_all add: lakeConfig_def nsettings0_sel)
  then show "snd (nOpenLake node0 (lakeConfig nsettings0) w) = None" by (simp add: node0_def din_node_def on_db_def)
  obtain cs where "pin_conns duck1 (if c < 1 then 1 else nat c) [] (nwDB w) = (nwDB w, Inr cs)" using pin_conns_duck1 by blast
  then show "snd (nNewWriterN node0 i c w) = None" by (simp add: node0_def din_node_def new_writer_def NewWriterN_def)
  show "snd (nNewObjectStore node0 nsettings0 ''/blobs'' w) = None"
    by (simp add: node0_def din_node_def newObjectStore_def newBaseObjectStore_def IsLocalPath_def LocalRoot_def has_prefix_def New_fsstore_def
        filepath_IsAbs_def os0_def nsettings0_sel NewCipher_def left_of_def)
qed (simp_all add: node0_def din_node_def on_nats_def nats0_def Connect_embed_def Run_embed_def NewVerifier_def left_of_def NewConnectionServer_def connectionConfig_def
    tls0_def NewAttestationServer_def newAttestationAuth_def jwt0_def EnsureStreams_decoded_def admin1_def)

lemma node0_streams: "\<exists>w' hs. nEnsureStreams node0 (streamConfig nsettings0) w = (w', Inr hs)"
  by (simp add: node0_def din_node_def on_nats_def EnsureStreams_def streamConfig_def nsettings0_sel checkStaleStreams_def admin1_def
      numeral_2_eq_2 Let_def)

lemma node0_nats: "readies k \<Longrightarrow> readies (with_nats node0 nsettings0 k)"
proof -
  have "sNATSMode nsettings0 \<noteq> ''embedded''" by (simp add: nsettings0_def base_settings_def Let_def env_def genv0_def env_vars0_def)
  then show "readies k \<Longrightarrow> readies (with_nats node0 nsettings0 k)"
    by (simp add: with_nats_def readies_deferred node0_ops)
qed

lemma ready0: "ReadyOpened \<in> set (fst (snd (run node0 (Inr nsettings0) world0)))"
proof -
  have "readies (start_bridge node0 nsettings0 (emit ReadyOpened (wait_all node0)))"
    by (simp add: start_bridge_def readies_attempt readies_emit readies_ready node0_ops)
  then have "readies (start_maintenance nsettings0 (start_bridge node0 nsettings0 (emit ReadyOpened (wait_all node0))))"
    by (simp add: start_maintenance_def readies_emit)
  then have n: "readies (start_node node0 nsettings0 hs)" for hs
    unfolding start_node_def nsettings0_sel
    by (intro readies_attempt readies_deferred readies_emit readies_sinks) (simp_all add: node0_ops require_blob_bucket_def nsettings0_sel)
  have "readies (\<lambda>w. case nEnsureStreams node0 (streamConfig nsettings0) w of (w1, Inl e) \<Rightarrow> (w1, [], Some e) | (w1, Inr hs) \<Rightarrow> start_node node0 nsettings0 hs w1)"
    unfolding readies_def
  proof
    fix w
    obtain w' hs where "nEnsureStreams node0 (streamConfig nsettings0) w = (w', Inr hs)" using node0_streams by blast
    then show "ReadyOpened \<in> set (fst (snd (case nEnsureStreams node0 (streamConfig nsettings0) w of (w1, Inl e) \<Rightarrow> (w1, [], Some e)
        | (w1, Inr hs) \<Rightarrow> start_node node0 nsettings0 hs w1)))" using n by (simp add: readies_def)
  qed
  then have "readies (with_nats node0 nsettings0 (attempt (nJetStream node0)
      (\<lambda>w. case nEnsureStreams node0 (streamConfig nsettings0) w of (w1, Inl e) \<Rightarrow> (w1, [], Some e) | (w1, Inr hs) \<Rightarrow> start_node node0 nsettings0 hs w1)))"
    by (intro node0_nats readies_attempt) (simp_all add: node0_ops)
  then show ?thesis by (simp add: run_def readies_def)
qed

theorem node_lifecycle_witness:
  "\<exists>w' tr res. run node0 (Inr nsettings0) world0 = (w', tr, res) \<and> ReadyOpened \<in> set tr \<and> releases tr = rev (opens tr) \<and>
     opens tr = [NATSConn, LakeDB, SinkWriter 0, SinkWriter 1]"
proof -
  obtain w' tr res where r: "run node0 (Inr nsettings0) world0 = (w', tr, res)" by (metis prod.collapse)
  have ready: "ReadyOpened \<in> set tr" using ready0 r by simp
  have m: "sNATSMode nsettings0 \<noteq> ''embedded''" by (simp add: nsettings0_def base_settings_def Let_def env_def genv0_def env_vars0_def)
  note nl = node_lifecycle [OF r [unfolded node0_def]]
  have lf: "life [NATSConn, LakeDB, SinkWriter 0, SinkWriter 1] ts tr res \<and> releases tr = rev (opens tr)"
    if "ts = [ConnectionListener, AttestationListener, OpsListener] @ map (\<lambda>i. SinkLoop i (sink_config_for nsettings0 2 i)) [0..<2] @
       (if sLakeMaintenanceEnabled nsettings0 then [MaintainLoop (maintConfig nsettings0)] else []) @
       (if sDecodeStreamEnabled nsettings0 then [BridgeLoop (bridgeConfig nsettings0)] else [])" for ts
    using nl m that by (simp add: Let_def nsettings0_sel upt_rec)
  from lf [OF refl] ready have "opens tr = [NATSConn, LakeDB, SinkWriter 0, SinkWriter 1]" unfolding life_def by auto
  with r ready lf [OF refl] show ?thesis by blast
qed

section \<open>A backfill\<close>

definition tree1 :: fs_tree where
  "tree1 = FsDir None (Entry ''a'' (FsDir None (Entry ''.x.parquet'' (FsFile (Inr 9)) (Entry ''b.parquet'' (FsFile (Inr 2)) NoEntry)))
     (Entry ''c'' (FsFile (Inr 3)) NoEntry))"

definition lstat1 :: "(string \<times> bytes) list \<Rightarrow> string \<Rightarrow> fs_tree result" where
  "lstat1 fs p = (case at_path (drop 1 (clean_comps p)) tree1 of None \<Rightarrow> Inl (sentinel_error ErrNotExist) | Some u \<Rightarrow> Inr u)"

lemma backfill1: "snd (snd (Backfill_lake cat1 list1 [''/data/a/b.parquet'', ''/data/c''] \<lparr>fdSnaps = [], fdPend = []\<rparr>)) = None"
  by code_simp

lemma tree1_facts: "sees (lstat1 fs) ''/data'' tree1" "wf_tree tree1" "is_dir tree1" "list_spec tree1 [] = [\<lparr>oiKey = ''a/b.parquet'', oiSize = 2\<rparr>, \<lparr>oiKey = ''c'', oiSize = 3\<rparr>]"
proof -
  have r: "clean_comps ''/data'' = [''data'']" by (simp add: clean_comps_def clean_step_def)
  show "sees (lstat1 fs) ''/data'' tree1"
    using clean_rooted [of "''data'' # cs" for cs] by (auto simp: sees_def lstat1_def r good_name_def)
  show "wf_tree tree1" "is_dir tree1" by (simp_all add: tree1_def gone_only_def good_name_def)
  show "list_spec tree1 [] = [\<lparr>oiKey = ''a/b.parquet'', oiSize = 2\<rparr>, \<lparr>oiKey = ''c'', oiSize = 3\<rparr>]" by code_simp
qed

lemma lakeBackfill1:
  "\<exists>d'. lakeBackfill os0 aws0 api0 lstat1 (\<lambda>b. Inr ()) (\<lambda>u. Inr aead0) rng0 url0 cat1 list1 (Inr nsettings0) ''/data'' [] \<lparr>fdSnaps = [], fdPend = []\<rparr> =
     Some ([], d', None)"
proof -
  have st: "newObjectStore os0 aws0 api0 (\<lambda>b. Inr ()) (\<lambda>u. Inr aead0) rng0 nsettings0 ''/data'' [] =
      ([], Inr (FsState fs0, WrapStore None rng0 (store_put api0)))"
    by (simp add: newObjectStore_def newBaseObjectStore_def IsLocalPath_def LocalRoot_def has_prefix_def New_fsstore_def filepath_IsAbs_def
        os0_def fs0_def nsettings0_sel NewCipher_def)
  have "fs_root fs0 = ''/data''" "fs_state fs0 = []" by (simp_all add: fs0_def)
  moreover have "\<not> hidden (base_name ''/data'')" by (simp add: base_name_def clean_comps_def clean_step_def hidden_def has_prefix_def)
  ultimately have ls: "store_list api0 lstat1 [] (FsState fs0) = Some (Inr (list_spec tree1 []))"
    using fs_list_root [of "lstat1 []" fs0 tree1] tree1_facts(1) [of "[]"] tree1_facts(2,3) by (simp add: store_list_def dirs_prefix_def)
  have op: "Open_lake url0 cat1 (lakeConfig nsettings0) d = (d, None)" for d
    by (rule Open_lake_cat1) (simp_all add: lakeConfig_def nsettings0_sel)
  have src: "backfill_source ''/data'' = Inr (''/data'', [], ''/data/'')"
    by (simp add: backfill_source_def IsLocalPath_def LocalRoot_def has_prefix_def trim_suffix_def has_suffix_def)
  obtain d2 res where b: "Backfill_lake cat1 list1 [''/data/a/b.parquet'', ''/data/c''] \<lparr>fdSnaps = [], fdPend = []\<rparr> = (d2, res, None)"
    using backfill1 by (metis prod.collapse)
  show ?thesis unfolding lakeBackfill_def by (simp add: src st ls op tree1_facts(4) b)
qed


end
