(* ===== verification/Spec2Isabelle.thy ===== *)
theory Spec2Isabelle
  imports Sink_Props Ingest_Props Maintain_Props Lake_Props Decode_Props Backfill_Props Node_Props Startup_Props
begin

text \<open>
  A verification library for din, the DIMO ingest node.

  \<^bold>\<open>The program.\<close> One process accepts CloudEvents over HTTP, keeps them in a write-ahead log of NATS JetStream, and moves
  them into a DuckLake table. A request passes the middleware of one of two servers (client certificates for
  connections, bearer tokens for attestations) and a handler, which converts or verifies it, moves
  large payloads to an object store, and publishes the events to the log; it answers 200 after the broker's
  acknowledgements. One sink per partition stream fetches messages, buffers them, and writes bundles through
  pinned DuckDB connections; it acknowledges a message after the commit of its row. A maintenance loop merges files and
  expires snapshots that no registered consumer still needs. An optional bridge decodes raw messages and republishes them. A
  backfill command registers Parquet files written by an older system.

  \<^bold>\<open>Theories and sources\<close> (paths below \<^verbatim>\<open>src/\<close>).
  \<^item> \<open>Din_Prelude\<close>, \<open>Base64\<close>, \<open>Civil\<close>, \<open>Float64\<close>, \<open>CloudEvent\<close>: the pieces of the Go language and its standard library the
    program uses (errors with their wrapping, 64-bit integers, UTF-8, base64, calendar, floats), and the records of
    the CloudEvent library.
  \<^item> \<open>Interfaces\<close>: the locales of the Go interfaces between the components: a publisher to the log, an
    object store, a bundle writer and, extending it, a writer known to the letter. \<open>Blobcrypt\<close> extends the object store by sealing, \<open>Backfill\<close> and \<open>Server\<close> have a locale each for
    what their two registrations and their two authenticators share.
  \<^item> \<open>Convert\<close>, \<open>Erc1271\<close>, \<open>Attest\<close>, \<open>Handler\<close>: \<^verbatim>\<open>internal/convert\<close>, \<^verbatim>\<open>internal/fpvalidate\<close>, \<^verbatim>\<open>internal/web3\<close>, \<^verbatim>\<open>internal/attest\<close>,
    \<^verbatim>\<open>internal/handler\<close>.
  \<^item> \<open>Split\<close>, \<open>Blobcrypt\<close>, \<open>Fsstore\<close>, \<open>Fslist\<close>, \<open>S3client\<close>: \<^verbatim>\<open>internal/split\<close>, \<^verbatim>\<open>internal/blobcrypt\<close>, \<^verbatim>\<open>internal/fsstore\<close> (put; list),
    \<^verbatim>\<open>internal/s3client\<close>.
  \<^item> \<open>Subjects\<close>, \<open>Streams\<close>, \<open>Publisher\<close>: \<^verbatim>\<open>internal/stream\<close>.
  \<^item> \<open>Sink\<close>, \<open>Sink_Isolate\<close>, \<open>Sink_Run\<close>, \<open>Sink_Safety\<close>: \<^verbatim>\<open>internal/sink/sink.go\<close>: flushing and bisection as functions on the
    state of a flush; the fetch loop, the buffer and the workers as the step relation \<open>sink_step\<close>, with its
    invariants by rule induction. \<open>Sink_Transfer\<close>: the sink's contract as an abstract machine, and the simulation.
  \<^item> \<open>Lake_Writer\<close>, \<open>Lake_Exact\<close>, \<open>Lake_Catalog\<close>, \<open>Maintain\<close>, \<open>Maintain_Inv\<close>, \<open>Backfill\<close>: \<^verbatim>\<open>internal/lake\<close>.
  \<^item> \<open>Location\<close>, \<open>Decodestream\<close>, \<open>Bridge_Run\<close>: \<^verbatim>\<open>internal/decodestream\<close>: the pipeline of a batch as functions, the goroutines of all
    partitions as the step relation \<open>bridge_step\<close>.
  \<^item> \<open>Server\<close>, \<open>Config\<close>: \<^verbatim>\<open>internal/server\<close>, \<^verbatim>\<open>internal/config\<close>.
  \<^item> \<open>Wiring\<close>, \<open>Startup\<close>: \<^verbatim>\<open>cmd/din/main.go\<close> with \<^verbatim>\<open>internal/objstore\<close>, \<^verbatim>\<open>internal/convert/modules.go\<close>, \<^verbatim>\<open>internal/natsembed\<close> and
    \<^verbatim>\<open>internal/lake/extensions.go\<close>.
  \<^item> \<open>Instances\<close>, \<open>Lake_Instances\<close>: small brokers, databases, file systems and libraries on which the theorems are evaluated.
  \<^item> \<open>Ingest_Props\<close>, \<open>Sink_Props\<close>, \<open>Lake_Props\<close>, \<open>Maintain_Props\<close>, \<open>Decode_Props\<close>, \<open>Backfill_Props\<close>, \<open>Node_Props\<close>, \<open>Startup_Props\<close>: the properties, with
    their witnesses. This theory has the one that spans the ingest path.

  \<^bold>\<open>State and errors.\<close> A Go struct is a record and keeps its field names where they are free; a method returns the new state. A
  component that uses another has its state as part of its own: the handlers that of converter, store and publisher, the
  sink that of its writer, the writer that of the database. An error is the list of the sentinels it wraps and its
  text, so that \<^verbatim>\<open>errors.Is\<close> and the messages are computed; a panic carries a sentinel of its own.

  \<^bold>\<open>What is shown.\<close>
  \<^item> Ingest: a 200 means the events are in the log; an attestation was verified; servers authenticate, limit and
    recover; the log's streams partition the subjects; batch publishing refines publishing one by one; a payload moved out
    is recovered from either store, sealed or not; a put on the file system is atomic; a listing equals its reference.
  \<^item> Sink: it refines an abstract machine that moves held bundles into the lake; acknowledged rows are committed, each once if
    commits are definite; no message is lost or settled twice; memory stays within its bound; backpressure
    always ends; bisection isolates poison rows, makes progress below 256 rows, and can stall from there on.
  \<^item> Lake: bootstrap errors show no credentials; a wrong encryption state is refused; the layout is repaired; no
    cycle removes a snapshot a live consumer still needs, deletes a file without its grace, or merges more files than
    the memory allows; cycles end; the loop stops for a restart after repeated failures; the backfill registers each
    file once.
  \<^item> Bridge: pruning and locations are exact; what is acknowledged was republished, under every interleaving.
  \<^item> Node: every loaded configuration satisfies the checks; the acknowledgement wait exceeds the flush time; the rate limiter's
    table is bounded; the process gets ready only when complete and releases what it opened, in reverse order.

  \<^bold>\<open>Loops and fuel.\<close> Loops that consume data are recursive functions. The merge loop of a maintenance cycle ends by its deadline: it has fuel, and
  the property about the cycle proves how much is enough on a clock that advances. The loops of \<^verbatim>\<open>Run\<close> of the maintainer and of a
  partition's fetches run until cancelled: they have fuel and are \<open>None\<close> while still going. The listing's page loop is a
  partial function, without a result if the pages never end. The sink and the bridge run as step relations.

  \<^bold>\<open>Parameters.\<close> What is not in the repository is an argument: JetStream, DuckDB and the catalog, the operating system's
  files, the AWS SDK, TLS, JWT and token buckets, AES-GCM, hashes, elliptic curves, the CloudEvent library and the device decoders. The
  hypotheses on them state their documented behaviour, such as that an acknowledged message is stored,
  that a commit publishes what was appended, that a rename is atomic, or that opening inverts sealing.

  \<^bold>\<open>Not modelled.\<close> Of the generated binding \<^verbatim>\<open>internal/web3/contract_login.go\<close>, the write and event side, which the program never calls.
  Signals, log lines and the registration and durations of metrics are left out. Goroutines interleave between the
  calls that the step relations name, not inside them.
\<close>

section \<open>From the request to the lake\<close>

text \<open>A message of the write-ahead log that the publisher made of a stored event.\<close>

definition published :: "ce_lib \<Rightarrow> (bytes \<Rightarrow> bytes) \<Rightarrow> jmsg \<Rightarrow> bool" where
  "published L sha m \<longleftrightarrow>
     (\<exists>ev. jmHeaders m = build_header L sha ev \<and> MarshalEvent L (RawEvent ev) = Inr (jmData m))"

definition msg_id_of :: "jmsg \<Rightarrow> string" where
  "msg_id_of m = header_get (jmHeaders m) MsgIdHdr"

lemma published_event:
  assumes "published L sha m" "json_roundtrip L"
  shows "\<exists>ev. msg_event L m = Inr ev \<and> msg_id_of m = MsgID sha L (ev_header ev)"
  using assms by (auto simp: published_def msg_id_of_def msg_event_def ParseMsg_def json_roundtrip_def)

text \<open>A state that a sink of the node can reach, writing through the lake writer to a transactional
  database.\<close>

definition lake_sink where
  "lake_sink L cm pnd app st \<longleftrightarrow>
     (\<exists>fe cfg w. sink_reach L fe cfg w st \<and> feWrite fe = WriteBundle \<and> duck_txn (wOps w) cm pnd app)"

text \<open>What became of a message a sink has settled: its row is committed, or it was terminated for a reason
  other than its encoding.\<close>

definition settled_in_lake :: "('d \<Rightarrow> row multiset) \<Rightarrow> 'd writer sink_st \<Rightarrow> jmsg \<Rightarrow> stored_event \<Rightarrow> bool" where
  "settled_in_lake cm st m ev \<longleftrightarrow>
     (m \<in> set (acked (fsActions (sinkFS st))) \<longrightarrow> event_row (wLib (fsW (sinkFS st))) ev \<in># cm (wDB (fsW (sinkFS st)))) \<and>
     (m \<in> set (termed (fsActions (sinkFS st))) \<longrightarrow>
        (\<exists>(v :: 'd writer) v' e. WriteBundle [ev] v = (v', Some e) \<and> errors_is e ErrPoisonRow) \<or>
        poisonRedeliveryThreshold \<le> redeliveryCount m)"

lemma settled_published:
  assumes "lake_sink L cm pnd app st" "msg_event L m = Inr ev"
  shows "settled_in_lake cm st m ev"
proof -
  from assms(1) obtain fe cfg w where r: "sink_reach L fe cfg w st" "feWrite fe = WriteBundle" "duck_txn (wOps w) cm pnd app"
    unfolding lake_sink_def by blast
  have e: "event_of L m = ev" "decodable L m" using assms(2) by (simp_all add: event_of_def decodable_def)
  have "lake_writer.acks_committed cm pnd app L st" using r by (intro lake_writer.acks_committed_reach)
  then have "mset (map (\<lambda>m. event_row (wLib (fsW (sinkFS st))) (event_of L m)) (acked (fsActions (sinkFS st)))) \<subseteq># cm (wDB (fsW (sinkFS st)))"
    by (simp add: lake_writer.acks_committed_def)
  from mset_subset_eqD [OF this] e
  have "m \<in> set (acked (fsActions (sinkFS st))) \<Longrightarrow> event_row (wLib (fsW (sinkFS st))) ev \<in># cm (wDB (fsW (sinkFS st)))"
    by force
  with terms_ok_reach [OF r(1)] e r(2) show ?thesis
    by (auto simp: terms_ok_def term_justified_def settled_in_lake_def)
qed

lemma connection_logged:
  fixes st :: "(converter, 'o split_env, ('s, 'f) publisher) hstate"
  assumes "NewConnectionServer T R hp cfg (postOnly (ingest_handler (Connection (din_handlers L G E skew now newID sp vf)))) = Inr srv"
    "srvHandler srv t r ((l, st), n) = (((l', st'), n'), Some resp)" "status resp = 200"
    "js_durable (pub_js (hsPub st)) (\<lambda>s. msg_id_of ` stored s) fmsg" "pub_lib (hsPub st) = L"
  obtains cn b c1 evs where "leaf_cn r = Some cn" "srBody r = Some b"
    "int (length b) \<le> or_default_pos (ccMaxBodyBytes cfg) DefaultMaxBodyBytes"
    "Convert L G skew now newID cn b (hsConv st) = (c1, Inr evs)"
    "\<forall>ev\<in>set evs. (vf \<and> (\<exists>e. Validate L G ev = Some e \<and> errors_is e ErrInvalidVIN)) \<or>
       (\<exists>m. m \<in> stored (pub_state (hsPub st')) \<and> msg_id_of m = MsgID (pub_sha256 (hsPub st)) L (Header ev))"
proof -
  let ?h = "din_handlers L G E skew now newID sp vf :: (converter, 'o split_env, ('s, 'f) publisher) handlers" and ?id = "MsgID (pub_sha256 (hsPub st)) L"
  let ?log = "stored (pub_state (hsPub st'))"
  have "gate (leaf_cn r) (f_le (ccRateLimitRPS cfg) (Fin 0) \<or> snd (allow R t (certCNKey hp r) l))
      (or_default_pos (ccMaxBodyBytes cfg) DefaultMaxBodyBytes) (Connection ?h) r st st' resp"
    using connection_server_parts(2) [OF assms(1)] cert.stack_gate assms(2) unfolding connection_stack_def by fastforce
  with assms(3) obtain cn body out where g: "leaf_cn r = Some cn"
    "\<forall>b. body = Inr b \<longrightarrow> int (length b) \<le> or_default_pos (ccMaxBodyBytes cfg) DefaultMaxBodyBytes \<and> srBody r = Some b"
    "Connection ?h \<lparr>reqSource = Some cn, reqBody = body\<rparr> st = (st', out)"
    "resp = (case out of Some x \<Rightarrow> x | None \<Rightarrow> http_Error ''internal server error'' 500)"
    by (auto simp: gate_def)
  from g(4) assms(3) have c: "Connection ?h \<lparr>reqSource = Some cn, reqBody = body\<rparr> st = (st', Some resp)"
    using g(3) by (auto simp: http_Error_def split: option.splits)
  have hc: "hConvert ?h = Convert L G skew now newID" by (simp add: din_handlers_def)
  have "hPublishBatch ?h = PublishBatch" by (simp add: din_handlers_def)
  from stream_pub.connection_durable [OF assms(4) this header_keeping_din c assms(3)]
  obtain src b c1 evs where o: "reqSource \<lparr>reqSource = Some cn, reqBody = body\<rparr> = Some src"
    "reqBody \<lparr>reqSource = Some cn, reqBody = body\<rparr> = Inr b" "hConvert ?h src b (hsConv st) = (c1, Inr evs)"
    "\<forall>ev\<in>set evs. dropped ?h ev \<or> (\<exists>sev. ev_header sev = Header ev \<and> event_id (hsPub st) sev \<in> msg_id_of ` ?log)"
    by iprover
  then have b: "body = Inr b" "Convert L G skew now newID cn b (hsConv st) = (c1, Inr evs)" by (simp_all add: hc)
  have dr: "dropped ?h ev \<longleftrightarrow> vf \<and> (\<exists>e. Validate L G ev = Some e \<and> errors_is e ErrInvalidVIN)" for ev
    by (simp add: dropped_def din_handlers_def)
  have w: "(vf \<and> (\<exists>e. Validate L G ev = Some e \<and> errors_is e ErrInvalidVIN)) \<or> (\<exists>m. m \<in> ?log \<and> msg_id_of m = ?id (Header ev))"
    if "ev \<in> set evs" for ev using o(4) [THEN bspec, OF that] unfolding dr assms(5) by (elim disjE exE conjE imageE) (simp, metis)
  from g(2) b(1) have "srBody r = Some b" "int (length b) \<le> or_default_pos (ccMaxBodyBytes cfg) DefaultMaxBodyBytes" by simp_all
  from g(1) this b(2) ballI [OF w] show thesis by (rule that)
qed


text \<open>A node with one request: the server of the example, a broker that keeps its messages, and the sink that
  wrote the message.\<close>

definition js2 :: "(jmsg list, nats_msg) js_ops" where
  "js2 = \<lparr>PublishMsgAsync = (\<lambda>s m. (s, Inr m)),
     AwaitFuture = (\<lambda>s f. (msg0\<lparr>jmHeaders := msgHeader f, jmData := msgData f\<rparr> # s, AckOk))\<rparr>"

definition pub2 :: "(jmsg list, nats_msg) publisher" where
  "pub2 = NewPublisher js2 4 [] lib0 sha0"

definition hst2 ::
  "(converter, (string \<times> bytes) list fs_client split_env, (jmsg list, nats_msg) publisher) hstate" where
  "hst2 = \<lparr>hsConv = NewConverter, hsStore = hsStore hst0, hsPub = pub2\<rparr>"

abbreviation h2 ::
  "(converter, (string \<times> bytes) list fs_client split_env, (jmsg list, nats_msg) publisher) handlers" where
  "h2 \<equiv> din_handlers lib0 garage0 eth0 minute 5000000 ''k1'' sp0 True"

lemma pub2_sel [simp]: "pub_js pub2 = js2" "pub_lib pub2 = lib0" "pub_sha256 pub2 = sha0" "pub_partitions pub2 = 4" "pub_state pub2 = []"
  by (simp_all add: pub2_def NewPublisher_def)

lemma js_durable_js2: "js_durable js2 (\<lambda>s. msg_id_of ` set s) (\<lambda>f. f)"
  by (auto simp: js_durable_def js2_def msg_id_of_def)

lemma publish2: "\<exists>p'. Publish ev0 pub2 = (p', None) \<and> pub_state p' = [msg0]"
proof -
  have "\<exists>s. Subject (ev_header ev0) 4 = Some s"
    using Partition_bound [of 4 "hSubject (ev_header ev0)"] by (auto simp: Subject_def)
  moreover have "MarshalEvent lib0 (RawEvent ev0) = Inr ''r0''" by (simp add: lib0_def ev0_def)
  ultimately show ?thesis
    by (auto simp: Publish_def submitAsync_def awaitAck_def js2_def ack_error_def msg0_def)
qed

lemma Connection_req2: "\<exists>st'. Connection h2 req0 hst2 = (st', Some status_ok) \<and> pub_state (hsPub st') = [msg0]"
proof -
  have "Validate lib0 garage0 raw0 = None"
    by (simp add: Validate_def lib0_def raw0_def hdr0_def)
  then have "collect h2 [raw0] None None [] (hsStore hst0) =
      ((hsStore hst0)\<lparr>seCalls := 1\<rparr>, None, None, [ev0])"
    by (simp add: din_handlers_def split_def env_MaybeSplit_def MaybeSplit_raw0 hst0_def)
      (simp add: ev0_def)
  moreover obtain p' where "Publish ev0 pub2 = (p', None)" "pub_state p' = [msg0]" using publish2 by blast
  ultimately show ?thesis
    using Convert_req0
    by (simp add: Connection_def req0_def din_handlers_def hst2_def PublishBatch_def)
qed

lemma published_msg0: "published lib0 sha0 msg0"
proof -
  have "MarshalEvent lib0 (RawEvent ev0) = Inr (jmData msg0)" "jmHeaders msg0 = build_header lib0 sha0 ev0"
    by (simp_all add: lib0_def ev0_def msg0_def)
  then show ?thesis unfolding published_def by blast
qed

lemma serve0:
  assumes "NewConnectionServer tls0 rate0 hp0 ccfg0 (postOnly (ingest_handler h)) = Inr srv" "h req0 s = (s', Some resp)"
  shows "\<exists>l'. srvHandler srv 0 sreq0 ((init_limiter (Fin 1) 2, s), 0) = (((l', s'), 0), Some resp)"
proof -
  obtain l1 where a: "allow rate0 0 ''0xA'' (init_limiter (Fin 1) 2) = (l1, True)"
    using allow0 [of 0 "''0xA''"] by (cases "allow rate0 0 ''0xA'' (init_limiter (Fin 1) 2)") simp
  have k: "certCNKey hp0 sreq0 = ''0xA''" by (simp add: certCNKey_def sreq0_def)
  have "maxBytesMiddleware 10 (certSourceHandler (postOnly (ingest_handler h))) sreq0 s = (s', Some resp)"
    using assms(2) by (simp add: maxBytesMiddleware_def certSourceHandler_def postOnly_def ingest_handler_def WithSource_def
        SourceFromContext_def read_body_def sreq0_def req0_def)
  with a k show ?thesis
    using connection_server_parts(2) [OF assms(1)]
    by (simp add: connection_stack_def recoverMiddleware_def behind_recover_def rateLimitMiddleware_def behind_limiter_def ccfg0_def or_default_pos_def)
qed


end
